theory Spec2Isabelle
  imports Main "HOL-Library.Word"
begin

section \<open>The peer-aware RPC client of go/worker/common/p2p/rpc\<close>

text \<open>
  The client (package \<^verbatim>\<open>rpc\<close>, lines 206-629 of \<^verbatim>\<open>src/go/roothash/api/api.go\<close>) is
  stateful: it reads the clock, calls the peer manager, drives a transport stream and
  writes to a logger. The embedding threads one \<open>world\<close> through every function: the
  clock and a timestamped trace of every call the client makes on a collaborator, in
  program order, each with the value the collaborator returned. The collaborators
  themselves (peer manager, libp2p host, CBOR codec) are not part of
  the client; what they return is a parameter, collected in the record \<open>env\<close>.
\<close>

subsection \<open>Data\<close>

type_synonym PeerID = string
type_synonym bytes = "8 word list"

text \<open>Instants and \<^verbatim>\<open>time.Duration\<close> are counted in nanoseconds.\<close>

definition Second :: int where
  "Second = 1000000000"

definition RequestWriteDeadline :: int where
  "RequestWriteDeadline = 5 * Second"

definition DefaultCallRetryInterval :: int where
  "DefaultCallRetryInterval = 1 * Second"

text \<open>
  Go \<^verbatim>\<open>error\<close> values. \<open>Errorf\<close> is \<^verbatim>\<open>fmt.Errorf\<close> without a wrapped error (and any opaque
  error of a collaborator), \<open>Wrapf m e\<close> is \<^verbatim>\<open>fmt.Errorf(m + ": %w", e)\<close>, \<open>CodedError\<close> is an
  error of the registry of \<^verbatim>\<open>common/errors\<close>, \<open>Canceled\<close> and \<open>DeadlineExceeded\<close> are
  the two values of \<^verbatim>\<open>ctx.Err()\<close>. A nil error is \<open>None\<close> of \<open>error option\<close>.
\<close>

datatype error =
    Canceled
  | DeadlineExceeded
  | Errorf string
  | Wrapf string error
  | CodedError string int string

text \<open>\<^verbatim>\<open>errors.Is\<close>: the chain of wrapped errors of \<open>e\<close> reaches \<open>target\<close>.\<close>

fun errors_Is :: "error \<Rightarrow> error \<Rightarrow> bool" where
  "errors_Is (Wrapf m e) target = (Wrapf m e = target \<or> errors_Is e target)"
| "errors_Is e target = (e = target)"

text \<open>
  Modelled from the spec: the types \<^verbatim>\<open>Request\<close> and \<^verbatim>\<open>Response\<close> of the package, which
  are declared outside the sources. The spec (3 and 6): a request is a method name and
  an opaque serialised body; a response is an opaque success payload or an error
  descriptor of module, code and message. The client reads \<^verbatim>\<open>rawRsp.Error\<close>, a pointer,
  nil when there is no descriptor, and \<^verbatim>\<open>rawRsp.Ok\<close> (lines 599-604).
\<close>

record Request =
  Method :: string
  Body :: bytes

record ErrorDesc =
  Module :: string
  Code :: int
  Message :: string

record Response =
  Ok :: bytes
  Error :: "ErrorDesc option"

text \<open>
  A context is done from the instant \<open>done_at\<close> on (never, when \<open>None\<close>), and then
  \<^verbatim>\<open>ctx.Err()\<close> is \<open>done_err\<close>.
\<close>

record Context =
  done_at :: "int option"
  done_err :: error

definition ctx_Done :: "Context \<Rightarrow> int \<Rightarrow> bool" where
  "ctx_Done ctx t = (case done_at ctx of None \<Rightarrow> False | Some d \<Rightarrow> d \<le> t)"

definition ctx_Err :: "Context \<Rightarrow> int \<Rightarrow> error option" where
  "ctx_Err ctx t = (if ctx_Done ctx t then Some (done_err ctx) else None)"

subsection \<open>The trace\<close>

text \<open>
  Calls on the embedded \<^verbatim>\<open>PeerManager\<close>; \<open>GetBestPeers\<close> with the ranking it returned.
\<close>

datatype mgr_call =
    GetBestPeers "PeerID list"
  | MgrRecordSuccess PeerID int
  | MgrRecordFailure PeerID int
  | MgrRecordBadPeer PeerID

text \<open>
  Calls on the stream to a peer and on the codec over it. A deadline of \<open>None\<close> is the
  zero \<^verbatim>\<open>time.Time{}\<close>, which clears it.
\<close>

datatype stream_op =
    NewStream "error option"
  | SetWriteDeadline "int option"
  | SetReadDeadline "int option"
  | Write Request "error option"
  | Read "error + Response"
  | Close

datatype log_entry =
    LogCall string
  | LogCallMultiple string
  | LogTryingPeer string PeerID
  | LogNoPeers string
  | LogFailedToCall error string PeerID
  | LogFailedToSend error PeerID
  | LogFailedToRead error PeerID

text \<open>
  Calls on the worker pool of \<^verbatim>\<open>common/workerpool\<close>; a job is named by the peer of
  the iteration that submits it.
\<close>

datatype pool_call =
    PoolNew
  | PoolResize nat
  | PoolSubmit PeerID
  | PoolStop

datatype event =
    Mgr mgr_call
  | Net PeerID stream_op
  | Log log_entry
  | Pool pool_call
  | TimerStart int

record world =
  now :: int
  trace :: "(int \<times> event) list"

definition emit :: "event \<Rightarrow> world \<Rightarrow> world" where
  "emit e w = w\<lparr>trace := trace w @ [(now w, e)]\<rparr>"

definition tick :: "int \<Rightarrow> world \<Rightarrow> world" where
  "tick d w = w\<lparr>now := now w + d\<rparr>"

subsection \<open>The collaborators\<close>

text \<open>
  What the collaborators answer. Each may depend on everything that happened so far
  (the world). A blocking call also says how long it took.
  \<^item> \<open>mgr_GetBestPeers\<close>: the ranking of the embedded \<^verbatim>\<open>PeerManager\<close>;
  \<^item> \<open>peerFilter\<close>: \<^verbatim>\<open>opts.peerFilter\<close>, \<open>None\<close> when nil;
  \<^item> \<open>host_NewStream\<close>: \<^verbatim>\<open>c.host.NewStream(network.WithNoDial(ctx, ...), peerID, c.protocolID)\<close>;
  \<^item> \<open>codec_Write\<close>, \<open>codec_Read\<close>: the message codec over the stream;
  \<^item> \<open>cbor_Marshal\<close>, \<open>cbor_Unmarshal\<close>: the serialisation; \<^verbatim>\<open>Unmarshal\<close> gets the
    container and returns it as it left it;
  \<^item> \<open>reflect_New\<close>: \<^verbatim>\<open>reflect.New(reflect.TypeOf(rspTyp)).Interface()\<close>, a fresh
    container of the type of the sample.
\<close>

record ('b, 'c) env =
  mgr_GetBestPeers :: "world \<Rightarrow> PeerID list"
  peerFilter :: "(PeerID \<Rightarrow> bool) option"
  host_NewStream :: "world \<Rightarrow> Context \<Rightarrow> PeerID \<Rightarrow> int \<times> error option"
  codec_Write :: "world \<Rightarrow> PeerID \<Rightarrow> Request \<Rightarrow> int \<times> error option"
  codec_Read :: "world \<Rightarrow> PeerID \<Rightarrow> int \<times> (error + Response)"
  cbor_Marshal :: "'b \<Rightarrow> bytes"
  cbor_Unmarshal :: "bytes \<Rightarrow> 'c \<Rightarrow> error option \<times> 'c"
  reflect_New :: "'c \<Rightarrow> 'c"

text \<open>
  Modelled from the spec: \<^verbatim>\<open>errors.FromCode\<close> of \<^verbatim>\<open>common/errors\<close>, which is not among
  the sources. The spec (6 and 7): a response carries an error descriptor of module,
  code and message, and the application error of the attempt is the error of that
  module, code and message. \<open>CodedError\<close> is that error, whether the registry holds it
  or makes it.
\<close>

definition errors_FromCode :: "string \<Rightarrow> int \<Rightarrow> string \<Rightarrow> error" where
  "errors_FromCode m c msg = CodedError m c msg"

subsection \<open>Peer feedback\<close>

text \<open>
  \<^verbatim>\<open>peerFeedback\<close> (lines 250-266); its \<^verbatim>\<open>mgr\<close> is the client's one peer manager, whose calls are the
  \<open>Mgr\<close> events of the world. The interface value \<^verbatim>\<open>PeerFeedback\<close> is a
  \<open>peerFeedback option\<close>, nil being \<open>None\<close>.
\<close>

record peerFeedback =
  peerID :: PeerID
  latency :: int

definition RecordSuccess :: "peerFeedback \<Rightarrow> world \<Rightarrow> world" where
  "RecordSuccess pf w = emit (Mgr (MgrRecordSuccess (peerID pf) (latency pf))) w"

definition RecordFailure :: "peerFeedback \<Rightarrow> world \<Rightarrow> world" where
  "RecordFailure pf w = emit (Mgr (MgrRecordFailure (peerID pf) (latency pf))) w"

definition RecordBadPeer :: "peerFeedback \<Rightarrow> world \<Rightarrow> world" where
  "RecordBadPeer pf w = emit (Mgr (MgrRecordBadPeer (peerID pf))) w"

subsection \<open>One attempt\<close>

text \<open>Lines 384-390.\<close>

definition isPeerAcceptable :: "('b, 'c) env \<Rightarrow> PeerID \<Rightarrow> bool" where
  "isPeerAcceptable env p = (case peerFilter env of None \<Rightarrow> True | Some f \<Rightarrow> f p)"

text \<open>
  \<^verbatim>\<open>sendRequestAndDecodeResponse\<close>, in the three parts its comments name. The deferred
  \<^verbatim>\<open>stream.Close()\<close> runs at every return after the stream was opened. The container
  \<open>rsp\<close> is \<open>None\<close> when the caller passed nil.
\<close>

text \<open>Lines 598-606, "Decode response".\<close>

definition decodeResponse ::
  "('b, 'c) env \<Rightarrow> Response \<Rightarrow> 'c option \<Rightarrow> error option \<times> 'c option" where
  "decodeResponse env rawRsp rsp =
     (case Error rawRsp of
        Some ed \<Rightarrow> (Some (errors_FromCode (Module ed) (Code ed) (Message ed)), rsp)
      | None \<Rightarrow>
          (case rsp of
             Some c \<Rightarrow> (case cbor_Unmarshal env (Ok rawRsp) c of (e, c') \<Rightarrow> (e, Some c'))
           | None \<Rightarrow> (None, None)))"

text \<open>Lines 585-596, "Read response", then the decoding.\<close>

definition readResponse ::
  "('b, 'c) env \<Rightarrow> PeerID \<Rightarrow> 'c option \<Rightarrow> int \<Rightarrow> world \<Rightarrow> error option \<times> 'c option \<times> world" where
  "readResponse env p rsp maxPeerResponseTime w =
     (let w1 = emit (Net p (SetReadDeadline (Some (now w + maxPeerResponseTime)))) w in
      case codec_Read env w1 p of (d, r) \<Rightarrow>
        let w2 = emit (Net p (Read r)) (tick d w1) in
        (case r of
           Inl e \<Rightarrow>
             (Some (Wrapf ''failed to read response'' e), rsp,
              emit (Net p Close) (emit (Log (LogFailedToRead e p)) w2))
         | Inr rawRsp \<Rightarrow>
             let w3 = emit (Net p (SetWriteDeadline None)) w2 in
             (case decodeResponse env rawRsp rsp of (e, rsp') \<Rightarrow>
                (e, rsp', emit (Net p Close) w3))))"

text \<open>Lines 572-583, "Send request", then the reading.\<close>

definition sendRequest ::
  "('b, 'c) env \<Rightarrow> PeerID \<Rightarrow> Request \<Rightarrow> 'c option \<Rightarrow> int \<Rightarrow> world \<Rightarrow>
     error option \<times> 'c option \<times> world" where
  "sendRequest env p request rsp maxPeerResponseTime w =
     (let w1 = emit (Net p (SetWriteDeadline (Some (now w + RequestWriteDeadline)))) w in
      case codec_Write env w1 p request of (d, r) \<Rightarrow>
        let w2 = emit (Net p (Write request r)) (tick d w1) in
        (case r of
           Some e \<Rightarrow>
             (Some (Wrapf ''failed to send request'' e), rsp,
              emit (Net p Close) (emit (Log (LogFailedToSend e p)) w2))
         | None \<Rightarrow>
             readResponse env p rsp maxPeerResponseTime
               (emit (Net p (SetWriteDeadline None)) w2)))"

text \<open>Lines 554-570: open the stream; no stream, nothing to close.\<close>

definition sendRequestAndDecodeResponse ::
  "('b, 'c) env \<Rightarrow> Context \<Rightarrow> PeerID \<Rightarrow> Request \<Rightarrow> 'c option \<Rightarrow> int \<Rightarrow> world \<Rightarrow>
     error option \<times> 'c option \<times> world" where
  "sendRequestAndDecodeResponse env ctx p request rsp maxPeerResponseTime w =
     (case host_NewStream env w ctx p of (d, r) \<Rightarrow>
        let w1 = emit (Net p (NewStream r)) (tick d w) in
        (case r of
           Some e \<Rightarrow> (Some (Wrapf ''failed to open stream'' e), rsp, w1)
         | None \<Rightarrow> sendRequest env p request rsp maxPeerResponseTime w1))"

text \<open>
  \<^verbatim>\<open>client.call\<close> (lines 519-552): the context is looked at once, before the attempt; a failed attempt
  is recorded at once with the time it took, a successful one gives the handle.
\<close>

definition call ::
  "('b, 'c) env \<Rightarrow> Context \<Rightarrow> PeerID \<Rightarrow> Request \<Rightarrow> 'c option \<Rightarrow> int \<Rightarrow> world \<Rightarrow>
     peerFeedback option \<times> error option \<times> 'c option \<times> world" where
  "call env ctx p request rsp maxPeerResponseTime w =
     (if ctx_Done ctx (now w) then (None, ctx_Err ctx (now w), rsp, w)
      else
        let startTime = now w in
        case sendRequestAndDecodeResponse env ctx p request rsp maxPeerResponseTime w of
          (err, rsp', w1) \<Rightarrow>
            (case err of
               Some e \<Rightarrow>
                 let w2 = emit (Log (LogFailedToCall e (Method request) p)) w1 in
                 (None, Some e, rsp',
                  emit (Mgr (MgrRecordFailure p (now w2 - startTime))) w2)
             | None \<Rightarrow>
                 (Some \<lparr>peerID = p, latency = now w1 - startTime\<rparr>, None, rsp', w1)))"


subsection \<open>Call\<close>

text \<open>
  \<^verbatim>\<open>CallOptions\<close> (lines 318-339). \<^verbatim>\<open>maxRetries\<close> is a \<^verbatim>\<open>uint64\<close>; the client compares it
  with zero and hands it on, and does no arithmetic with it.
\<close>

record CallOptions =
  retryInterval :: int
  maxRetries :: nat

type_synonym CallOption = "CallOptions \<Rightarrow> CallOptions"

definition WithMaxRetries :: "nat \<Rightarrow> CallOption" where
  "WithMaxRetries n = (\<lambda>opts. opts\<lparr>maxRetries := n\<rparr>)"

definition WithRetryInterval :: "int \<Rightarrow> CallOption" where
  "WithRetryInterval d = (\<lambda>opts. opts\<lparr>retryInterval := d\<rparr>)"

text \<open>
  The closure \<^verbatim>\<open>tryPeers\<close> assigns the captured variable \<^verbatim>\<open>pf\<close> at every attempt and
  the attempts share the container \<^verbatim>\<open>rsp\<close>: both are threaded with the world. The
  loop of lines 417-433 runs over the ranking; its end is lines 435-440.
\<close>

type_synonym 'c call_state = "peerFeedback option \<times> 'c option \<times> world"
type_synonym 'c call_result = "peerFeedback option \<times> error option \<times> 'c option \<times> world"

fun tryPeersLoop ::
  "('b, 'c) env \<Rightarrow> Context \<Rightarrow> Request \<Rightarrow> int \<Rightarrow> PeerID list \<Rightarrow> 'c call_state \<Rightarrow> 'c call_result" where
  "tryPeersLoop env ctx request maxPeerResponseTime [] (pf, rsp, w) =
     (pf, Some (Errorf ''call failed on all peers''), rsp, emit (Log (LogNoPeers (Method request))) w)"
| "tryPeersLoop env ctx request maxPeerResponseTime (peer # peers) (pf, rsp, w) =
     (if \<not> isPeerAcceptable env peer
      then tryPeersLoop env ctx request maxPeerResponseTime peers (pf, rsp, w)
      else
        case call env ctx peer request rsp maxPeerResponseTime
               (emit (Log (LogTryingPeer (Method request) peer)) w) of
          (pf', err, rsp', w') \<Rightarrow>
            (case err of
               Some e \<Rightarrow> tryPeersLoop env ctx request maxPeerResponseTime peers (pf', rsp', w')
             | None \<Rightarrow> (pf', None, rsp', w')))"

definition tryPeers ::
  "('b, 'c) env \<Rightarrow> Context \<Rightarrow> Request \<Rightarrow> int \<Rightarrow> 'c call_state \<Rightarrow> 'c call_result" where
  "tryPeers env ctx request maxPeerResponseTime s =
     (case s of (pf, rsp, w) \<Rightarrow>
        let peers = mgr_GetBestPeers env w in
        tryPeersLoop env ctx request maxPeerResponseTime peers
          (pf, rsp, emit (Mgr (GetBestPeers peers)) w))"

text \<open>
  The retry of lines 444-446 is \<^verbatim>\<open>backoff.Retry\<close> over
  \<^verbatim>\<open>backoff.WithContext(backoff.WithMaxRetries(backoff.NewConstantBackOff(interval), retries), ctx)\<close>
  of the library \<^verbatim>\<open>github.com/cenkalti/backoff/v4\<close>, which is not among the sources.
\<close>

text \<open>
  Modelled from the spec: the wait between two rounds, which the library makes. The
  spec (4.2, step 3): wait \<open>retryInterval\<close> (constant backoff); the loop observes the
  cancellation of the caller at each wait boundary. The timer and \<^verbatim>\<open>ctx.Done()\<close> are
  awaited together: whether the context came first, and the world at the instant
  after the wait.
\<close>

definition await_timer :: "Context \<Rightarrow> int \<Rightarrow> world \<Rightarrow> bool \<times> world" where
  "await_timer ctx interval w =
     (let fires = now w + max 0 interval in
      case done_at ctx of
        None \<Rightarrow> (False, w\<lparr>now := fires\<rparr>)
      | Some d \<Rightarrow> if d \<le> fires then (True, w\<lparr>now := max d (now w)\<rparr>)
                  else (False, w\<lparr>now := fires\<rparr>))"

text \<open>
  Modelled from the spec: \<^verbatim>\<open>backoff.Retry\<close> with at most \<open>retries\<close> retries, which the
  library makes. The spec (4.2, step 3, and the taxonomy of 7): when the round fails,
  wait and run another round, up to \<open>maxRetries\<close> additional rounds; abort at once when
  the context is already done; the cancellation error is propagated, distinguished
  from exhaustion. A round that succeeds ends the loop.
\<close>

fun backoff_Retry ::
  "('c call_state \<Rightarrow> 'c call_result) \<Rightarrow> int \<Rightarrow> nat \<Rightarrow> Context \<Rightarrow> 'c call_state \<Rightarrow> 'c call_result" where
  "backoff_Retry operation interval 0 ctx s =
     (case operation s of (pf, err, rsp, w) \<Rightarrow>
        (case err of
           None \<Rightarrow> (pf, None, rsp, w)
         | Some e \<Rightarrow>
             if ctx_Done ctx (now w) then (pf, ctx_Err ctx (now w), rsp, w)
             else (pf, Some e, rsp, w)))"
| "backoff_Retry operation interval (Suc retries) ctx s =
     (case operation s of (pf, err, rsp, w) \<Rightarrow>
        (case err of
           None \<Rightarrow> (pf, None, rsp, w)
         | Some e \<Rightarrow>
             if ctx_Done ctx (now w) then (pf, ctx_Err ctx (now w), rsp, w)
             else
               (case await_timer ctx interval (emit (TimerStart interval) w) of
                  (interrupted, w') \<Rightarrow>
                    if interrupted then (pf, ctx_Err ctx (now w'), rsp, w')
                    else backoff_Retry operation interval retries ctx (pf, rsp, w'))))"

text \<open>The options of a call, as lines 401-406 compute them.\<close>

definition call_options :: "CallOption list \<Rightarrow> CallOptions" where
  "call_options opts =
     foldl (\<lambda>co opt. opt co) \<lparr>retryInterval = DefaultCallRetryInterval, maxRetries = 0\<rparr> opts"

definition Call ::
  "('b, 'c) env \<Rightarrow> Context \<Rightarrow> string \<Rightarrow> 'b \<Rightarrow> 'c option \<Rightarrow> int \<Rightarrow> CallOption list \<Rightarrow> world \<Rightarrow>
     'c call_result" where
  "Call env ctx method body rsp maxPeerResponseTime opts w =
     (let w0 = emit (Log (LogCall method)) w;
          co = call_options opts;
          request = \<lparr>Method = method, Body = cbor_Marshal env body\<rparr>
      in
        if maxRetries co > 0
        then backoff_Retry (tryPeers env ctx request maxPeerResponseTime)
               (retryInterval co) (maxRetries co) ctx (None, rsp, w0)
        else tryPeers env ctx request maxPeerResponseTime (None, rsp, w0))"


subsection \<open>The scheduler\<close>

text \<open>
  The tasks of \<^verbatim>\<open>CallMulti\<close> run on the goroutines of the pool, concurrently with the
  caller and with each other. What the Go scheduler decides is a parameter,
  \<open>schedule\<close>:
  \<^item> \<open>late n\<close>: the function submitted at lines 489-494 refers to \<^verbatim>\<open>peer\<close>, the variable
    of the loop of line 481. The loop has one such variable and assigns it at every
    iteration, also at the iterations the filter skips; the \<open>n\<close>-th task reads it
    when its worker runs it, and the loop may have gone on by then. \<open>late n\<close> is the
    number of iterations the loop has gone on at that moment: 0 when the task reads
    the peer of its own iteration; past the end of the ranking the variable holds
    the last peer;
  \<^item> \<open>worker_of n\<close>: the worker of the pool that takes the \<open>n\<close>-th job;
  \<^item> \<open>taken_at n\<close>: the instant from which that worker is ready to take it; it takes
    it no earlier than the job was submitted and no earlier than it is idle;
  \<^item> \<open>tie_ctx n\<close>: which case the \<open>n\<close>-th \<^verbatim>\<open>select\<close> of the caller takes when both are
    ready at once (Go picks one at random): \<open>True\<close> for \<^verbatim>\<open>ctx.Done()\<close>.
\<close>

record schedule =
  late :: "nat \<Rightarrow> nat"
  worker_of :: "nat \<Rightarrow> nat"
  taken_at :: "nat \<Rightarrow> int"
  tie_ctx :: "nat \<Rightarrow> bool"

subsection \<open>The worker pool\<close>

text \<open>
  Modelled from the spec: the pool of \<^verbatim>\<open>common/workerpool\<close>, which is not among the
  sources. The spec (4.2 and 5): a fixed-size worker pool, a bounded, reusable
  concurrency limiter; concurrency is capped at the parallelism bound. Here: a fixed
  row of workers, each running one job at a time. A worker is a world of its own: its
  clock is the instant from which it is idle, its trace holds the events of the jobs
  it ran. \<open>runs\<close> lists the jobs run: worker, instant of the start, instant of the end.
\<close>

record pool =
  workers :: "world list"
  runs :: "(nat \<times> int \<times> int) list"

text \<open>Modelled from the spec: \<^verbatim>\<open>workerpool.New\<close>, a pool without workers.\<close>

definition pool_New :: pool where
  "pool_New = \<lparr>workers = [], runs = []\<rparr>"

text \<open>
  Modelled from the spec: \<^verbatim>\<open>pool.Resize\<close> at the instant \<open>t\<close>, which fixes the number
  of workers; new workers are idle from \<open>t\<close> on.
\<close>

definition pool_Resize :: "nat \<Rightarrow> int \<Rightarrow> pool \<Rightarrow> pool" where
  "pool_Resize k t p =
     p\<lparr>workers := take k (workers p) @ replicate (k - length (workers p)) \<lparr>now = t, trace = []\<rparr>\<rparr>"

text \<open>
  Modelled from the spec: \<^verbatim>\<open>pool.Submit\<close> of the \<open>n\<close>-th job at the instant \<open>t\<close>. The
  job is run once by one worker, after the jobs that worker took before: what the job
  returned and the instant it ended, and the pool with the run recorded. A pool
  without workers runs nothing.
\<close>

definition pool_Submit ::
  "schedule \<Rightarrow> nat \<Rightarrow> int \<Rightarrow> (world \<Rightarrow> 'r \<times> world) \<Rightarrow> pool \<Rightarrow> ('r \<times> int) option \<times> pool" where
  "pool_Submit sch n t job p =
     (if workers p = [] then (None, p)
      else
        let i = worker_of sch n mod length (workers p);
            idle = workers p ! i;
            start = max (max t (taken_at sch n)) (now idle)
        in
          case job (idle\<lparr>now := start\<rparr>) of
            (r, busy) \<Rightarrow>
              (Some (r, now busy),
               p\<lparr>workers := (workers p)[i := busy\<lparr>now := max start (now busy)\<rparr>],
                 runs := runs p @ [(i, start, now busy)]\<rparr>))"

text \<open>The jobs in flight at an instant: started, not ended.\<close>

definition in_flight :: "int \<Rightarrow> pool \<Rightarrow> (nat \<times> int \<times> int) list" where
  "in_flight t p = filter (\<lambda>(i, start, fin). start \<le> t \<and> t < fin) (runs p)"

subsection \<open>CallMulti\<close>

text \<open>The local type \<^verbatim>\<open>result\<close> of lines 475-479.\<close>

record 'c result =
  res_rsp :: "'c option"
  res_pf :: "peerFeedback option"
  res_err :: "error option"

text \<open>
  The function submitted at lines 489-494: one attempt on a fresh container, made on
  the peer that the variable \<^verbatim>\<open>peer\<close> holds when the function runs.
\<close>

definition task ::
  "('b, 'c) env \<Rightarrow> Context \<Rightarrow> Request \<Rightarrow> 'c \<Rightarrow> int \<Rightarrow> PeerID \<Rightarrow> world \<Rightarrow> 'c result \<times> world" where
  "task env ctx request rspTyp maxPeerResponseTime peer w =
     (let rsp = reflect_New env rspTyp in
      case call env ctx peer request (Some rsp) maxPeerResponseTime w of
        (pf, err, rsp', w') \<Rightarrow> (\<lparr>res_rsp = rsp', res_pf = pf, res_err = err\<rparr>, w'))"

text \<open>
  The value of the variable \<^verbatim>\<open>peer\<close> after the loop has gone on \<open>k\<close> iterations from
  the one that assigned \<open>peer\<close>, with \<open>peers\<close> still to come.
\<close>

definition peer_read :: "nat \<Rightarrow> PeerID \<Rightarrow> PeerID list \<Rightarrow> PeerID" where
  "peer_read k peer peers = (peer # peers) ! min k (length peers)"

text \<open>
  A result channel (capacity one, written once, then closed) is the result and the
  instant the task sends it, \<open>None\<close> when nothing is ever sent. The loop of lines
  481-495 appends one channel and submits one job for every accepted peer; \<open>n\<close> counts
  the jobs submitted so far. The job of the \<open>PoolSubmit\<close> event is named by the peer of
  its iteration.
\<close>

type_synonym 'c chan = "('c result \<times> int) option"

fun submitLoop ::
  "('b, 'c) env \<Rightarrow> Context \<Rightarrow> schedule \<Rightarrow> Request \<Rightarrow> 'c \<Rightarrow> int \<Rightarrow> PeerID list \<Rightarrow> nat \<Rightarrow> world \<Rightarrow>
     pool \<Rightarrow> 'c chan list \<times> world \<times> pool" where
  "submitLoop env ctx sch request rspTyp maxPeerResponseTime [] n w pl = ([], w, pl)"
| "submitLoop env ctx sch request rspTyp maxPeerResponseTime (peer # peers) n w pl =
     (if \<not> isPeerAcceptable env peer
      then submitLoop env ctx sch request rspTyp maxPeerResponseTime peers n w pl
      else
        case pool_Submit sch n (now w)
               (task env ctx request rspTyp maxPeerResponseTime (peer_read (late sch n) peer peers))
               pl of
          (ch, pl1) \<Rightarrow>
            (case submitLoop env ctx sch request rspTyp maxPeerResponseTime peers (Suc n)
                    (emit (Pool (PoolSubmit peer)) w) pl1 of
               (chs, w', pl2) \<Rightarrow> (ch # chs, w', pl2)))"

text \<open>
  The \<^verbatim>\<open>select\<close> of lines 503-514 at the caller's instant \<open>t\<close>, on a channel that is
  ready at \<open>t_ch\<close>: whether \<^verbatim>\<open>ctx.Done()\<close> is taken, and the instant after.
\<close>

definition select_ctx_or_chan :: "Context \<Rightarrow> bool \<Rightarrow> int \<Rightarrow> int \<Rightarrow> bool \<times> int" where
  "select_ctx_or_chan ctx tie t t_ch =
     (let ch_ready = max t t_ch in
      case done_at ctx of
        None \<Rightarrow> (False, ch_ready)
      | Some d \<Rightarrow>
          let ctx_ready = max t d in
          if ctx_ready < ch_ready \<or> (ctx_ready = ch_ready \<and> tie) then (True, ctx_ready)
          else (False, ch_ready))"

text \<open>
  The loop of lines 502-516; \<open>n\<close> is the index of the channel waited for. On a channel
  that is never written the \<^verbatim>\<open>select\<close> waits for the context, for ever when the
  context is never done: then the loop does not return, which is \<open>None\<close>.
\<close>

fun gather ::
  "Context \<Rightarrow> schedule \<Rightarrow> nat \<Rightarrow> 'c chan list \<Rightarrow>
     'c option list \<times> peerFeedback option list \<times> world \<Rightarrow>
     ('c option list \<times> peerFeedback option list \<times> error option \<times> world) option" where
  "gather ctx sch n [] (rsps, pfs, w) = Some (rsps, pfs, None, w)"
| "gather ctx sch n (None # chs) (rsps, pfs, w) =
     (case done_at ctx of
        None \<Rightarrow> None
      | Some d \<Rightarrow> Some ([], [], ctx_Err ctx (max (now w) d), w\<lparr>now := max (now w) d\<rparr>))"
| "gather ctx sch n (Some (r, t_ch) # chs) (rsps, pfs, w) =
     (case select_ctx_or_chan ctx (tie_ctx sch n) (now w) t_ch of
        (ctx_first, t') \<Rightarrow>
          if ctx_first then Some ([], [], ctx_Err ctx t', w\<lparr>now := t'\<rparr>)
          else
            (case res_err r of
               Some e \<Rightarrow> gather ctx sch (Suc n) chs (rsps, pfs, w\<lparr>now := t'\<rparr>)
             | None \<Rightarrow>
                 gather ctx sch (Suc n) chs
                   (rsps @ [res_rsp r], pfs @ [res_pf r], w\<lparr>now := t'\<rparr>)))"

text \<open>
  The part of \<^verbatim>\<open>CallMulti\<close> up to the end of the submissions (lines 461-495): the
  channels, the world of the caller, and the pool with the runs of all the jobs.
\<close>

definition submitAll ::
  "('b, 'c) env \<Rightarrow> Context \<Rightarrow> schedule \<Rightarrow> string \<Rightarrow> 'b \<Rightarrow> 'c \<Rightarrow> int \<Rightarrow> nat \<Rightarrow> world \<Rightarrow>
     'c chan list \<times> world \<times> pool" where
  "submitAll env ctx sch method body rspTyp maxPeerResponseTime maxParallelRequests w =
     (let w0 = emit (Log (LogCallMultiple method)) w;
          request = \<lparr>Method = method, Body = cbor_Marshal env body\<rparr>;
          w1 = emit (Pool (PoolResize maxParallelRequests)) (emit (Pool PoolNew) w0);
          pl = pool_Resize maxParallelRequests (now w0) pool_New;
          peers = mgr_GetBestPeers env w1
      in submitLoop env ctx sch request rspTyp maxPeerResponseTime peers 0
           (emit (Mgr (GetBestPeers peers)) w1) pl)"

text \<open>
  \<^verbatim>\<open>CallMulti\<close> (lines 454-517): \<open>None\<close> when it does not return. With the values it
  returns come the world of the caller, whose last event is the deferred
  \<^verbatim>\<open>pool.Stop()\<close>, and the pool; the jobs of the pool may end after the caller has
  returned.
\<close>

definition CallMulti ::
  "('b, 'c) env \<Rightarrow> Context \<Rightarrow> schedule \<Rightarrow> string \<Rightarrow> 'b \<Rightarrow> 'c \<Rightarrow> int \<Rightarrow> nat \<Rightarrow> world \<Rightarrow>
     ('c option list \<times> peerFeedback option list \<times> error option \<times> world \<times> pool) option" where
  "CallMulti env ctx sch method body rspTyp maxPeerResponseTime maxParallelRequests w =
     (case submitAll env ctx sch method body rspTyp maxPeerResponseTime maxParallelRequests w of
        (resultCh, w2, pl) \<Rightarrow>
          (case gather ctx sch 0 resultCh ([], [], w2) of
             None \<Rightarrow> None
           | Some (rsps, pfs, err, w3) \<Rightarrow> Some (rsps, pfs, err, emit (Pool PoolStop) w3, pl)))"

subsection \<open>Reading the trace\<close>

text \<open>The events a run added to the trace.\<close>

definition new_events :: "world \<Rightarrow> world \<Rightarrow> (int \<times> event) list" where
  "new_events w w' = drop (length (trace w)) (trace w')"

fun mgr_calls_of :: "(int \<times> event) list \<Rightarrow> mgr_call list" where
  "mgr_calls_of [] = []"
| "mgr_calls_of ((t, Mgr c) # es) = c # mgr_calls_of es"
| "mgr_calls_of (_ # es) = mgr_calls_of es"

fun pool_calls_of :: "(int \<times> event) list \<Rightarrow> pool_call list" where
  "pool_calls_of [] = []"
| "pool_calls_of ((t, Pool c) # es) = c # pool_calls_of es"
| "pool_calls_of (_ # es) = pool_calls_of es"

text \<open>The stream operations, in order: instant, peer of the stream, operation.\<close>

fun stream_ops_of :: "(int \<times> event) list \<Rightarrow> (int \<times> PeerID \<times> stream_op) list" where
  "stream_ops_of [] = []"
| "stream_ops_of ((t, Net p x) # es) = (t, p, x) # stream_ops_of es"
| "stream_ops_of (_ # es) = stream_ops_of es"

text \<open>The peers tried ("trying peer" of line 422), each with the instant.\<close>

fun tried :: "(int \<times> event) list \<Rightarrow> (int \<times> PeerID) list" where
  "tried [] = []"
| "tried ((t, Log (LogTryingPeer m p)) # es) = (t, p) # tried es"
| "tried (_ # es) = tried es"



subsection \<open>Deadlines in force\<close>

text \<open>
  The three blocking operations of an attempt, and for each one made in a trace the
  time it is given: the distance from the instant a deadline of its kind was set to
  that deadline, \<open>None\<close> when no such deadline is in force. A stream has no deadline
  before it exists, and a deadline set to the zero time is none.
\<close>

datatype blocking = Opening | Writing | Reading

fun time_allowed ::
  "int option \<Rightarrow> int option \<Rightarrow> (int \<times> PeerID \<times> stream_op) list \<Rightarrow> (blocking \<times> int option) list" where
  "time_allowed wd rd [] = []"
| "time_allowed wd rd ((t, p, NewStream r) # xs) = (Opening, None) # time_allowed None None xs"
| "time_allowed wd rd ((t, p, SetWriteDeadline None) # xs) = time_allowed None rd xs"
| "time_allowed wd rd ((t, p, SetWriteDeadline (Some d)) # xs) = time_allowed (Some (d - t)) rd xs"
| "time_allowed wd rd ((t, p, SetReadDeadline None) # xs) = time_allowed wd None xs"
| "time_allowed wd rd ((t, p, SetReadDeadline (Some d)) # xs) = time_allowed wd (Some (d - t)) xs"
| "time_allowed wd rd ((t, p, Write q r) # xs) = (Writing, wd) # time_allowed wd rd xs"
| "time_allowed wd rd ((t, p, Read r) # xs) = (Reading, rd) # time_allowed wd rd xs"
| "time_allowed wd rd ((t, p, Close) # xs) = time_allowed wd rd xs"

text \<open>
  "Each blocking point is bounded by an explicit deadline derived from caller-provided
  timeouts", for a caller whose context has no deadline: the only timeout the caller
  provides is \<open>maxPeerResponseTime\<close>.
\<close>

definition bounded_by_caller_timeout :: "int \<Rightarrow> (int \<times> event) list \<Rightarrow> bool" where
  "bounded_by_caller_timeout maxPeerResponseTime es =
     list_all (\<lambda>(b, d). d = Some maxPeerResponseTime) (time_allowed None None (stream_ops_of es))"

text \<open>How often a trace closes a stream.\<close>

definition closes :: "(int \<times> PeerID \<times> stream_op) list \<Rightarrow> nat" where
  "closes ops = length (filter (\<lambda>(t, p, x). x = Close) ops)"

text \<open>
  Rounds and timers together, in order: \<open>(t, None)\<close> for a round begun at \<open>t\<close>,
  \<open>(t, Some d)\<close> for a timer of \<open>d\<close> started at \<open>t\<close>.
\<close>

fun pace :: "(int \<times> event) list \<Rightarrow> (int \<times> int option) list" where
  "pace [] = []"
| "pace ((t, Mgr (GetBestPeers ps)) # es) = (t, None) # pace es"
| "pace ((t, TimerStart d) # es) = (t, Some d) # pace es"
| "pace (_ # es) = pace es"

text \<open>The rounds: the instants at which the ranking was fetched.\<close>

definition rounds :: "(int \<times> event) list \<Rightarrow> int list" where
  "rounds es = map fst (filter (\<lambda>(t, x). x = None) (pace es))"

text \<open>
  Rounds and timers alternate, beginning with a round; every timer runs for
  \<open>interval\<close>, and the round after a timer begins when the timer fires.
\<close>

fun paced :: "int \<Rightarrow> (int \<times> int option) list \<Rightarrow> bool" where
  "paced interval [] = False"
| "paced interval [(t, x)] = (x = None)"
| "paced interval ((t, x) # (t', y) # xs) =
     (x = None \<and> y = Some interval \<and>
      (case xs of [] \<Rightarrow> True | (t'', z) # _ \<Rightarrow> t'' = t' + max 0 interval \<and> paced interval xs))"

subsection \<open>Attempts that all fail\<close>

text \<open>
  The peers of a list are attempted in order, as a round attempts them, and every
  attempt fails: \<open>Some\<close> of the container and the world after the last attempt.
  \<open>None\<close> when one of the attempts succeeds.
\<close>

fun failing_attempts ::
  "('b, 'c) env \<Rightarrow> Context \<Rightarrow> Request \<Rightarrow> int \<Rightarrow> PeerID list \<Rightarrow> 'c option \<times> world \<Rightarrow>
     ('c option \<times> world) option" where
  "failing_attempts env ctx request maxt [] s = Some s"
| "failing_attempts env ctx request maxt (p # ps) (rsp, w) =
     (case call env ctx p request rsp maxt (emit (Log (LogTryingPeer (Method request) p)) w) of
        (pf, err, rsp', w') \<Rightarrow>
          (case err of
             None \<Rightarrow> None
           | Some e \<Rightarrow> failing_attempts env ctx request maxt ps (rsp', w')))"


subsection \<open>The peer that answered\<close>

text \<open>The last peer tried in a trace, with the instant of the attempt.\<close>

definition last_tried :: "(int \<times> event) list \<Rightarrow> (int \<times> PeerID) option" where
  "last_tried es = (case rev (tried es) of [] \<Rightarrow> None | x # _ \<Rightarrow> Some x)"

text \<open>
  The trace ends with a response read from the stream to \<open>p\<close>, and the closing of
  that stream: the last attempt was made on \<open>p\<close> and was answered.
\<close>

fun is_reply_from :: "PeerID \<Rightarrow> event \<Rightarrow> bool" where
  "is_reply_from p (Net q (Read (Inr raw))) = (q = p)"
| "is_reply_from p _ = False"

definition ends_with_reply :: "PeerID \<Rightarrow> (int \<times> event) list \<Rightarrow> bool" where
  "ends_with_reply p es =
     (case rev (map snd es) of
        e3 # e2 # e1 # _ \<Rightarrow>
          e3 = Net p Close \<and> e2 = Net p (SetWriteDeadline None) \<and> is_reply_from p e1
      | _ \<Rightarrow> False)"

subsection \<open>What CallMulti waits for\<close>

text \<open>
  The peers a \<^verbatim>\<open>CallMulti\<close> submits a job for: the accepted peers of the ranking it
  fetches, after the pool was made.
\<close>

definition accepted_peers :: "('b, 'c) env \<Rightarrow> string \<Rightarrow> nat \<Rightarrow> world \<Rightarrow> PeerID list" where
  "accepted_peers env method maxParallelRequests w =
     filter (isPeerAcceptable env)
       (mgr_GetBestPeers env
          (emit (Pool (PoolResize maxParallelRequests))
             (emit (Pool PoolNew) (emit (Log (LogCallMultiple method)) w))))"

definition succeeded :: "'c result \<Rightarrow> bool" where
  "succeeded r = (res_err r = None)"

text \<open>The results that are sent on the channels, in the order of the channels.\<close>

definition sent :: "'c chan list \<Rightarrow> 'c result list" where
  "sent chs = map fst (List.map_filter (\<lambda>ch. ch) chs)"

text \<open>
  Whether one of the selects of the gathering loop, begun at instant \<open>t\<close> with the
  \<open>n\<close>-th channel, takes \<^verbatim>\<open>ctx.Done()\<close>.
\<close>

fun ctx_taken :: "Context \<Rightarrow> schedule \<Rightarrow> nat \<Rightarrow> int \<Rightarrow> 'c chan list \<Rightarrow> bool" where
  "ctx_taken ctx sch n t [] = False"
| "ctx_taken ctx sch n t (None # chs) = (done_at ctx \<noteq> None)"
| "ctx_taken ctx sch n t (Some (r, t_ch) # chs) =
     (case select_ctx_or_chan ctx (tie_ctx sch n) t t_ch of
        (ctx_first, t') \<Rightarrow> ctx_first \<or> ctx_taken ctx sch (Suc n) t' chs)"

text \<open>The channels a \<^verbatim>\<open>CallMulti\<close> waits on, and the pool its jobs ran on.\<close>

definition result_channels ::
  "('b, 'c) env \<Rightarrow> Context \<Rightarrow> schedule \<Rightarrow> string \<Rightarrow> 'b \<Rightarrow> 'c \<Rightarrow> int \<Rightarrow> nat \<Rightarrow> world \<Rightarrow> 'c chan list" where
  "result_channels env ctx sch method body rspTyp maxt maxParallelRequests w =
     fst (submitAll env ctx sch method body rspTyp maxt maxParallelRequests w)"

definition pool_used ::
  "('b, 'c) env \<Rightarrow> Context \<Rightarrow> schedule \<Rightarrow> string \<Rightarrow> 'b \<Rightarrow> 'c \<Rightarrow> int \<Rightarrow> nat \<Rightarrow> world \<Rightarrow> pool" where
  "pool_used env ctx sch method body rspTyp maxt maxParallelRequests w =
     snd (snd (submitAll env ctx sch method body rspTyp maxt maxParallelRequests w))"

definition cancel_observed ::
  "('b, 'c) env \<Rightarrow> Context \<Rightarrow> schedule \<Rightarrow> string \<Rightarrow> 'b \<Rightarrow> 'c \<Rightarrow> int \<Rightarrow> nat \<Rightarrow> world \<Rightarrow> bool" where
  "cancel_observed env ctx sch method body rspTyp maxt maxParallelRequests w =
     ctx_taken ctx sch 0 (now w)
       (result_channels env ctx sch method body rspTyp maxt maxParallelRequests w)"

text \<open>The three values a \<^verbatim>\<open>CallMulti\<close> that returns gives its caller.\<close>

definition returned ::
  "('c option list \<times> peerFeedback option list \<times> error option \<times> world \<times> pool) option \<Rightarrow>
     ('c option list \<times> peerFeedback option list \<times> error option) option" where
  "returned x = map_option (\<lambda>(rsps, pfs, err, w, pl). (rsps, pfs, err)) x"

text \<open>The peers a stream was opened to, or tried to be, in a trace, in order.\<close>

fun opened :: "(int \<times> event) list \<Rightarrow> PeerID list" where
  "opened [] = []"
| "opened ((t, Net p (NewStream r)) # es) = p # opened es"
| "opened (_ # es) = opened es"

text \<open>The peers the jobs of a pool made their attempts on, worker by worker.\<close>

definition attempted :: "pool \<Rightarrow> PeerID list" where
  "attempted p = concat (map (\<lambda>wk. opened (trace wk)) (workers p))"

text \<open>The calls on the pool a \<^verbatim>\<open>CallMulti\<close> that returns has made, begun in the world \<open>w\<close>.\<close>

definition pool_calls_made ::
  "world \<Rightarrow> ('c option list \<times> peerFeedback option list \<times> error option \<times> world \<times> pool) option \<Rightarrow>
     pool_call list option" where
  "pool_calls_made w x = map_option (\<lambda>(rsps, pfs, err, w', pl). pool_calls_of (new_events w w')) x"

text \<open>The operations that set or clear a deadline of a stream.\<close>

fun sets_deadline :: "stream_op \<Rightarrow> bool" where
  "sets_deadline (SetWriteDeadline d) = True"
| "sets_deadline (SetReadDeadline d) = True"
| "sets_deadline _ = False"

text \<open>
  The workers that are not idle at an instant: those whose last job ends after it.
\<close>

definition busy_workers :: "int \<Rightarrow> pool \<Rightarrow> nat" where
  "busy_workers t p = length (filter (\<lambda>wk. t < now wk) (workers p))"

subsection \<open>Example inputs\<close>

text \<open>
  Six kinds of peers, told apart by name: the stream to \<open>A\<close> cannot be opened, the
  write to \<open>D\<close> fails, the read from \<open>E\<close> times out, \<open>C\<close> answers with an error
  envelope, \<open>G\<close> answers with a payload that cannot be decoded, every other peer
  answers with a payload after a second. Containers hold the decoded bytes.
\<close>

definition demo_env :: "PeerID list \<Rightarrow> (bytes, bytes) env" where
  "demo_env ranking =
     \<lparr>mgr_GetBestPeers = (\<lambda>w. ranking),
      peerFilter = Some (\<lambda>p. p \<noteq> ''X''),
      host_NewStream = (\<lambda>w ctx p. if p = ''A'' then (2 * Second, Some DeadlineExceeded) else (0, None)),
      codec_Write = (\<lambda>w p r. if p = ''D'' then (5 * Second, Some DeadlineExceeded) else (0, None)),
      codec_Read = (\<lambda>w p.
         if p = ''E'' then (3 * Second, Inl DeadlineExceeded)
         else if p = ''C'' then
           (Second, Inr \<lparr>Ok = [], Error = Some \<lparr>Module = ''storage'', Code = 3, Message = ''not found''\<rparr>\<rparr>)
         else if p = ''G'' then (Second, Inr \<lparr>Ok = [255], Error = None\<rparr>)
         else (Second, Inr \<lparr>Ok = [7, 8], Error = None\<rparr>)),
      cbor_Marshal = (\<lambda>b. b),
      cbor_Unmarshal = (\<lambda>b c. if b = [255] then (Some (Errorf ''cbor: unexpected break''), c) else (None, b)),
      reflect_New = (\<lambda>c. [])\<rparr>"

definition never_done :: Context where
  "never_done = \<lparr>done_at = None, done_err = Canceled\<rparr>"

definition canceled_at :: "int \<Rightarrow> Context" where
  "canceled_at t = \<lparr>done_at = Some t, done_err = Canceled\<rparr>"

definition world0 :: world where
  "world0 = \<lparr>now = 0, trace = []\<rparr>"

definition echo :: Request where
  "echo = \<lparr>Method = ''echo'', Body = [7, 8]\<rparr>"

definition world_at :: "int \<Rightarrow> world" where
  "world_at t = \<lparr>now = t, trace = []\<rparr>"

definition demo_call :: "PeerID list \<Rightarrow> Context \<Rightarrow> CallOption list \<Rightarrow> world \<Rightarrow> bytes call_result" where
  "demo_call ranking ctx opts w = Call (demo_env ranking) ctx ''echo'' [7, 8] (Some []) Second opts w"

definition demo_round :: "PeerID list \<Rightarrow> Context \<Rightarrow> world \<Rightarrow> bytes call_result" where
  "demo_round ranking ctx w = tryPeers (demo_env ranking) ctx echo Second (None, Some [], w)"

text \<open>
  The \<open>n\<close>-th job goes to the worker \<open>n\<close> (counted round the row), which takes it as
  soon as it can; a tie goes to the channel. In \<open>demo_schedule\<close> every task reads the
  peer of its own iteration, in \<open>late_schedule\<close> every task reads the variable one
  iteration later.
\<close>

definition demo_schedule :: schedule where
  "demo_schedule =
     \<lparr>late = (\<lambda>n. 0), worker_of = (\<lambda>n. n), taken_at = (\<lambda>n. 0), tie_ctx = (\<lambda>n. False)\<rparr>"

definition late_schedule :: schedule where
  "late_schedule =
     \<lparr>late = (\<lambda>n. 1), worker_of = (\<lambda>n. n), taken_at = (\<lambda>n. 0), tie_ctx = (\<lambda>n. False)\<rparr>"

definition demo_multi ::
  "PeerID list \<Rightarrow> Context \<Rightarrow> schedule \<Rightarrow> nat \<Rightarrow>
     (bytes option list \<times> peerFeedback option list \<times> error option \<times> world \<times> pool) option" where
  "demo_multi ranking ctx sch k =
     CallMulti (demo_env ranking) ctx sch ''echo'' [7, 8] [] Second k world0"

section \<open>Properties\<close>

subsection \<open>The world\<close>

lemma emit_simps [simp]:
  "now (emit e w) = now w"
  "trace (emit e w) = trace w @ [(now w, e)]"
  "now (tick d w) = now w + d"
  "trace (tick d w) = trace w"
  by (simp_all add: emit_def tick_def)

lemma new_events_self [simp]: "new_events w w = []"
  by (simp add: new_events_def)

lemma mgr_calls_of_append [simp]: "mgr_calls_of (xs @ ys) = mgr_calls_of xs @ mgr_calls_of ys"
  by (induction xs rule: mgr_calls_of.induct) simp_all

lemma stream_ops_of_append [simp]: "stream_ops_of (xs @ ys) = stream_ops_of xs @ stream_ops_of ys"
  by (induction xs rule: stream_ops_of.induct) simp_all

lemma tried_append [simp]: "tried (xs @ ys) = tried xs @ tried ys"
  by (induction xs rule: tried.induct) simp_all

lemma pace_append [simp]: "pace (xs @ ys) = pace xs @ pace ys"
  by (induction xs rule: pace.induct) simp_all

lemma rounds_append [simp]: "rounds (xs @ ys) = rounds xs @ rounds ys"
  by (simp add: rounds_def)

lemma pool_calls_of_append [simp]: "pool_calls_of (xs @ ys) = pool_calls_of xs @ pool_calls_of ys"
  by (induction xs rule: pool_calls_of.induct) simp_all

subsection \<open>The paths of one attempt\<close>

text \<open>
  Each function of the attempt returns on one of a few paths; the rules below name
  them, with the error, the container, the clock and the events of each.
\<close>

lemma readResponse_cases:
  assumes "readResponse env p rsp maxt w = (err, rsp', w')"
  obtains
    (read_fail) d e where
      "err = Some (Wrapf ''failed to read response'' e)" "rsp' = rsp"
      "now w' = now w + d"
      "trace w' = trace w @ [(now w, Net p (SetReadDeadline (Some (now w + maxt)))),
         (now w + d, Net p (Read (Inl e))), (now w + d, Log (LogFailedToRead e p)),
         (now w + d, Net p Close)]"
  | (replied) d raw where
      "decodeResponse env raw rsp = (err, rsp')"
      "now w' = now w + d"
      "trace w' = trace w @ [(now w, Net p (SetReadDeadline (Some (now w + maxt)))),
         (now w + d, Net p (Read (Inr raw))), (now w + d, Net p (SetWriteDeadline None)),
         (now w + d, Net p Close)]"
  using assms
  by (auto simp: readResponse_def Let_def split: prod.splits sum.splits)

lemma sendRequest_cases:
  assumes "sendRequest env p request rsp maxt w = (err, rsp', w')"
  obtains
    (write_fail) d e where
      "err = Some (Wrapf ''failed to send request'' e)" "rsp' = rsp"
      "now w' = now w + d"
      "trace w' = trace w @ [(now w, Net p (SetWriteDeadline (Some (now w + RequestWriteDeadline)))),
         (now w + d, Net p (Write request (Some e))), (now w + d, Log (LogFailedToSend e p)),
         (now w + d, Net p Close)]"
  | (read_fail) d1 d2 e where
      "err = Some (Wrapf ''failed to read response'' e)" "rsp' = rsp"
      "now w' = now w + d1 + d2"
      "trace w' = trace w @ [(now w, Net p (SetWriteDeadline (Some (now w + RequestWriteDeadline)))),
         (now w + d1, Net p (Write request None)), (now w + d1, Net p (SetWriteDeadline None)),
         (now w + d1, Net p (SetReadDeadline (Some (now w + d1 + maxt)))),
         (now w + d1 + d2, Net p (Read (Inl e))), (now w + d1 + d2, Log (LogFailedToRead e p)),
         (now w + d1 + d2, Net p Close)]"
  | (replied) d1 d2 raw where
      "decodeResponse env raw rsp = (err, rsp')"
      "now w' = now w + d1 + d2"
      "trace w' = trace w @ [(now w, Net p (SetWriteDeadline (Some (now w + RequestWriteDeadline)))),
         (now w + d1, Net p (Write request None)), (now w + d1, Net p (SetWriteDeadline None)),
         (now w + d1, Net p (SetReadDeadline (Some (now w + d1 + maxt)))),
         (now w + d1 + d2, Net p (Read (Inr raw))), (now w + d1 + d2, Net p (SetWriteDeadline None)),
         (now w + d1 + d2, Net p Close)]"
proof -
  obtain d r where wr: "codec_Write env (emit (Net p (SetWriteDeadline (Some (now w + RequestWriteDeadline)))) w) p request = (d, r)"
    by (cases "codec_Write env (emit (Net p (SetWriteDeadline (Some (now w + RequestWriteDeadline)))) w) p request")
  show thesis
  proof (cases r)
    case (Some e)
    with assms wr show thesis
      by (intro write_fail[where d=d and e=e]) (auto simp: sendRequest_def Let_def)
  next
    case None
    let ?w2 = "emit (Net p (SetWriteDeadline None)) (emit (Net p (Write request None))
          (tick d (emit (Net p (SetWriteDeadline (Some (now w + RequestWriteDeadline)))) w)))"
    from assms wr None have rr: "readResponse env p rsp maxt ?w2 = (err, rsp', w')"
      by (simp add: sendRequest_def Let_def)
    from rr show thesis
    proof (cases rule: readResponse_cases)
      case (read_fail d2 e)
      then show ?thesis by (intro that(2)[where ?d1.0=d and ?d2.0=d2 and e=e]) auto
    next
      case (replied d2 raw)
      then show ?thesis by (intro that(3)[where ?d1.0=d and ?d2.0=d2 and raw=raw]) auto
    qed
  qed
qed


lemma attempt_cases:
  assumes "sendRequestAndDecodeResponse env ctx p request rsp maxt w = (err, rsp', w')"
  obtains
    (open_fail) d0 e where
      "err = Some (Wrapf ''failed to open stream'' e)" "rsp' = rsp"
      "now w' = now w + d0"
      "trace w' = trace w @ [(now w + d0, Net p (NewStream (Some e)))]"
  | (write_fail) d0 d1 e where
      "err = Some (Wrapf ''failed to send request'' e)" "rsp' = rsp"
      "now w' = now w + d0 + d1"
      "trace w' = trace w @ [(now w + d0, Net p (NewStream None)),
         (now w + d0, Net p (SetWriteDeadline (Some (now w + d0 + RequestWriteDeadline)))),
         (now w + d0 + d1, Net p (Write request (Some e))),
         (now w + d0 + d1, Log (LogFailedToSend e p)),
         (now w + d0 + d1, Net p Close)]"
  | (read_fail) d0 d1 d2 e where
      "err = Some (Wrapf ''failed to read response'' e)" "rsp' = rsp"
      "now w' = now w + d0 + d1 + d2"
      "trace w' = trace w @ [(now w + d0, Net p (NewStream None)),
         (now w + d0, Net p (SetWriteDeadline (Some (now w + d0 + RequestWriteDeadline)))),
         (now w + d0 + d1, Net p (Write request None)),
         (now w + d0 + d1, Net p (SetWriteDeadline None)),
         (now w + d0 + d1, Net p (SetReadDeadline (Some (now w + d0 + d1 + maxt)))),
         (now w + d0 + d1 + d2, Net p (Read (Inl e))),
         (now w + d0 + d1 + d2, Log (LogFailedToRead e p)),
         (now w + d0 + d1 + d2, Net p Close)]"
  | (replied) d0 d1 d2 raw where
      "decodeResponse env raw rsp = (err, rsp')"
      "now w' = now w + d0 + d1 + d2"
      "trace w' = trace w @ [(now w + d0, Net p (NewStream None)),
         (now w + d0, Net p (SetWriteDeadline (Some (now w + d0 + RequestWriteDeadline)))),
         (now w + d0 + d1, Net p (Write request None)),
         (now w + d0 + d1, Net p (SetWriteDeadline None)),
         (now w + d0 + d1, Net p (SetReadDeadline (Some (now w + d0 + d1 + maxt)))),
         (now w + d0 + d1 + d2, Net p (Read (Inr raw))),
         (now w + d0 + d1 + d2, Net p (SetWriteDeadline None)),
         (now w + d0 + d1 + d2, Net p Close)]"
proof -
  obtain d r where op: "host_NewStream env w ctx p = (d, r)"
    by (cases "host_NewStream env w ctx p")
  show thesis
  proof (cases r)
    case (Some e)
    with assms op show thesis
      by (intro open_fail[where ?d0.0=d and e=e]) (auto simp: sendRequestAndDecodeResponse_def Let_def)
  next
    case None
    with assms op have sr: "sendRequest env p request rsp maxt (emit (Net p (NewStream None)) (tick d w)) = (err, rsp', w')"
      by (simp add: sendRequestAndDecodeResponse_def Let_def)
    from sr show thesis
    proof (cases rule: sendRequest_cases)
      case (write_fail d1 e)
      then show ?thesis by (intro that(2)[where ?d0.0=d and ?d1.0=d1 and e=e]) auto
    next
      case (read_fail d1 d2 e)
      then show ?thesis by (intro that(3)[where ?d0.0=d and ?d1.0=d1 and ?d2.0=d2 and e=e]) auto
    next
      case (replied d1 d2 raw)
      then show ?thesis by (intro that(4)[where ?d0.0=d and ?d1.0=d1 and ?d2.0=d2 and raw=raw]) auto
    qed
  qed
qed

lemma call_cases:
  assumes "call env ctx p request rsp maxt w = (pf, err, rsp', w')"
  obtains
    (ctx_done) "ctx_Done ctx (now w)" "pf = None" "err = Some (done_err ctx)" "rsp' = rsp" "w' = w"
  | (failed) e w1 where "\<not> ctx_Done ctx (now w)"
      "sendRequestAndDecodeResponse env ctx p request rsp maxt w = (Some e, rsp', w1)"
      "pf = None" "err = Some e" "now w' = now w1"
      "trace w' = trace w1 @ [(now w1, Log (LogFailedToCall e (Method request) p)),
         (now w1, Mgr (MgrRecordFailure p (now w1 - now w)))]"
  | (succeeded) "\<not> ctx_Done ctx (now w)"
      "sendRequestAndDecodeResponse env ctx p request rsp maxt w = (None, rsp', w')"
      "pf = Some \<lparr>peerID = p, latency = now w' - now w\<rparr>" "err = None"
  using assms
  by (auto simp: call_def ctx_Err_def Let_def split: if_splits prod.splits option.splits)



text \<open>An attempt only adds events, and only on the stream and in the log.\<close>

lemma attempt_events:
  assumes "sendRequestAndDecodeResponse env ctx p request rsp maxt w = (err, rsp', w')"
  obtains es where "trace w' = trace w @ es" "mgr_calls_of es = []" "tried es = []"
    "pool_calls_of es = []" "pace es = []"
  using assms by (cases rule: attempt_cases) simp_all

lemma call_events:
  assumes "call env ctx p request rsp maxt w = (pf, err, rsp', w')"
  obtains es where "trace w' = trace w @ es" "tried es = []"
    "pool_calls_of es = []" "pace es = []"
  using assms
proof (cases rule: call_cases)
  case ctx_done
  with that [of "[]"] show ?thesis by simp
next
  case (failed e w1)
  from failed(2) obtain es where "trace w1 = trace w @ es" "tried es = []"
    "pool_calls_of es = []" "pace es = []"
    by (rule attempt_events)
  with failed that [of "es @ [(now w1, Log (LogFailedToCall e (Method request) p)),
         (now w1, Mgr (MgrRecordFailure p (now w1 - now w)))]"]
  show ?thesis by simp
next
  case succeeded
  from succeeded(2) obtain es where "trace w' = trace w @ es" "tried es = []"
    "pool_calls_of es = []" "pace es = []"
    by (rule attempt_events)
  with that show ?thesis by simp
qed

lemma call_handle_iff:
  assumes "call env ctx p request rsp maxt w = (pf, err, rsp', w')"
  shows "pf \<noteq> None \<longleftrightarrow> err = None"
  using assms by (cases rule: call_cases) simp_all

lemmas demo_defs = demo_env_def never_done_def canceled_at_def world0_def echo_def errors_FromCode_def
  call_def sendRequestAndDecodeResponse_def sendRequest_def readResponse_def decodeResponse_def
  isPeerAcceptable_def ctx_Done_def ctx_Err_def emit_def tick_def Second_def
  RequestWriteDeadline_def DefaultCallRetryInterval_def Let_def new_events_def

subsection \<open>Failed attempts are recorded at once\<close>

text \<open>
  The stream operations of an attempt on each of its paths, and what the decoding of
  a response gives.
\<close>

lemma attempt_ops:
  assumes "sendRequestAndDecodeResponse env ctx p request rsp maxt w = (err, rsp', w')"
  obtains
    (open_fail) t0 e where
      "err = Some (Wrapf ''failed to open stream'' e)" "rsp' = rsp"
      "stream_ops_of (new_events w w') = [(t0, p, NewStream (Some e))]"
  | (write_fail) t0 t1 e where
      "err = Some (Wrapf ''failed to send request'' e)" "rsp' = rsp"
      "stream_ops_of (new_events w w') =
         [(t0, p, NewStream None),
          (t0, p, SetWriteDeadline (Some (t0 + RequestWriteDeadline))),
          (t1, p, Write request (Some e)),
          (t1, p, Close)]"
  | (read_fail) t0 t1 t2 e where
      "err = Some (Wrapf ''failed to read response'' e)" "rsp' = rsp"
      "stream_ops_of (new_events w w') =
         [(t0, p, NewStream None),
          (t0, p, SetWriteDeadline (Some (t0 + RequestWriteDeadline))),
          (t1, p, Write request None),
          (t1, p, SetWriteDeadline None),
          (t1, p, SetReadDeadline (Some (t1 + maxt))),
          (t2, p, Read (Inl e)),
          (t2, p, Close)]"
  | (replied) t0 t1 t2 raw where
      "decodeResponse env raw rsp = (err, rsp')"
      "stream_ops_of (new_events w w') =
         [(t0, p, NewStream None),
          (t0, p, SetWriteDeadline (Some (t0 + RequestWriteDeadline))),
          (t1, p, Write request None),
          (t1, p, SetWriteDeadline None),
          (t1, p, SetReadDeadline (Some (t1 + maxt))),
          (t2, p, Read (Inr raw)),
          (t2, p, SetWriteDeadline None),
          (t2, p, Close)]"
  using assms
proof (cases rule: attempt_cases)
  case (open_fail d0 e)
  then show ?thesis by (intro that(1) [of e "now w + d0"]) (simp_all add: new_events_def)
next
  case (write_fail d0 d1 e)
  then show ?thesis
    by (intro that(2) [of e "now w + d0" "now w + d0 + d1"]) (simp_all add: new_events_def)
next
  case (read_fail d0 d1 d2 e)
  then show ?thesis
    by (intro that(3) [of e "now w + d0" "now w + d0 + d1" "now w + d0 + d1 + d2"])
       (simp_all add: new_events_def)
next
  case (replied d0 d1 d2 raw)
  then show ?thesis
    by (intro that(4) [of raw "now w + d0" "now w + d0 + d1" "now w + d0 + d1 + d2"])
       (simp_all add: new_events_def)
qed

lemma decodeResponse_cases:
  assumes "decodeResponse env raw rsp = (err, rsp')"
  obtains
    (remote) ed where "Error raw = Some ed"
      "err = Some (errors_FromCode (Module ed) (Code ed) (Message ed))" "rsp' = rsp"
  | (decoded) c where "Error raw = None" "rsp = Some c"
      "err = fst (cbor_Unmarshal env (Ok raw) c)" "rsp' = Some (snd (cbor_Unmarshal env (Ok raw) c))"
  | (dropped) "Error raw = None" "rsp = None" "err = None" "rsp' = None"
  using assms
  by (auto simp add: decodeResponse_def split: option.splits prod.splits)


text \<open>
  What the stream operations of an attempt say about its outcome: a failed opening,
  write or read is the error of the attempt, wrapped; a response with an error
  descriptor gives the error of the descriptor; a response without one is decoded
  into the container, and the error of the decoding is that of the attempt.
\<close>

lemma attempt_outcome:
  assumes "sendRequestAndDecodeResponse env ctx p request rsp maxt w = (err, rsp', w')"
  shows "(\<exists>t r rest. stream_ops_of (new_events w w') = (t, p, NewStream r) # rest) \<and>
         (\<forall>t e. (t, p, NewStream (Some e)) \<in> set (stream_ops_of (new_events w w')) \<longrightarrow>
            err = Some (Wrapf ''failed to open stream'' e)) \<and>
         (\<forall>t q e. (t, p, Write q (Some e)) \<in> set (stream_ops_of (new_events w w')) \<longrightarrow>
            err = Some (Wrapf ''failed to send request'' e)) \<and>
         (\<forall>t e. (t, p, Read (Inl e)) \<in> set (stream_ops_of (new_events w w')) \<longrightarrow>
            err = Some (Wrapf ''failed to read response'' e)) \<and>
         (\<forall>t raw ed. (t, p, Read (Inr raw)) \<in> set (stream_ops_of (new_events w w')) \<and>
            Error raw = Some ed \<longrightarrow>
            err = Some (errors_FromCode (Module ed) (Code ed) (Message ed))) \<and>
         (\<forall>t raw c. (t, p, Read (Inr raw)) \<in> set (stream_ops_of (new_events w w')) \<and>
            Error raw = None \<and> rsp = Some c \<longrightarrow>
            err = fst (cbor_Unmarshal env (Ok raw) c)) \<and>
         (err = None \<longrightarrow>
            (\<exists>t0 t1 t2 raw.
               (t0, p, NewStream None) \<in> set (stream_ops_of (new_events w w')) \<and>
               (t1, p, Write request None) \<in> set (stream_ops_of (new_events w w')) \<and>
               (t2, p, Read (Inr raw)) \<in> set (stream_ops_of (new_events w w')) \<and>
               Error raw = None))"
  using assms
proof (cases rule: attempt_ops)
  case (open_fail t0 e)
  show ?thesis unfolding open_fail(3) using open_fail(1) by simp
next
  case (write_fail t0 t1 e)
  show ?thesis unfolding write_fail(3) using write_fail(1) by simp
next
  case (read_fail t0 t1 t2 e)
  show ?thesis unfolding read_fail(3) using read_fail(1) by simp
next
  case (replied t0 t1 t2 raw)
  from replied(1) show ?thesis
  proof (cases rule: decodeResponse_cases)
    case (remote ed)
    show ?thesis unfolding replied(2) using remote by simp
  next
    case (decoded c)
    show ?thesis unfolding replied(2) using decoded
      apply (intro conjI)
      subgoal by simp
      subgoal by simp
      subgoal by simp
      subgoal by simp
      subgoal by simp
      subgoal by simp
      subgoal
        apply (intro impI)
        apply (rule exI [of _ t0])
        apply (rule exI [of _ t1])
        apply (rule exI [of _ t2])
        apply (rule exI [of _ raw])
        apply simp
        done
      done
  next
    case dropped
    show ?thesis unfolding replied(2) using dropped
      apply (intro conjI)
      subgoal by simp
      subgoal by simp
      subgoal by simp
      subgoal by simp
      subgoal by simp
      subgoal by simp
      subgoal
        apply (intro impI)
        apply (rule exI [of _ t0])
        apply (rule exI [of _ t1])
        apply (rule exI [of _ t2])
        apply (rule exI [of _ raw])
        apply simp
        done
      done
  qed
qed


text \<open>
  C5. Take an attempt that was started (the context was not done). Its stream
  operations begin with the opening of the stream. If the opening, the write or the
  read failed, the attempt returns that failure, wrapped; if the response read
  carries an error descriptor, it returns the error of the descriptor; if not, and
  the decoding of the payload into the container fails, it returns the error of the
  decoding. An attempt returns a feedback handle exactly when it returns no error.
  An attempt that returns an error has called \<^verbatim>\<open>RecordFailure\<close> on the peer manager
  exactly once, for that peer, with the time the attempt took, as the last thing it
  did. An attempt that returns no error returns the handle of that peer and that
  time, has recorded nothing itself, and its stream was opened, written to and read
  from without error, the response carrying no error descriptor.
\<close>

theorem call_failure_recorded_once:
  assumes "\<not> ctx_Done ctx (now w)"
      and "call env ctx p request rsp maxt w = (pf, err, rsp', w')"
  shows "(pf \<noteq> None \<longleftrightarrow> err = None) \<and>
         (\<exists>t r rest. stream_ops_of (new_events w w') = (t, p, NewStream r) # rest) \<and>
         (\<forall>t e. (t, p, NewStream (Some e)) \<in> set (stream_ops_of (new_events w w')) \<longrightarrow>
            err = Some (Wrapf ''failed to open stream'' e)) \<and>
         (\<forall>t q e. (t, p, Write q (Some e)) \<in> set (stream_ops_of (new_events w w')) \<longrightarrow>
            err = Some (Wrapf ''failed to send request'' e)) \<and>
         (\<forall>t e. (t, p, Read (Inl e)) \<in> set (stream_ops_of (new_events w w')) \<longrightarrow>
            err = Some (Wrapf ''failed to read response'' e)) \<and>
         (\<forall>t raw ed. (t, p, Read (Inr raw)) \<in> set (stream_ops_of (new_events w w')) \<and>
            Error raw = Some ed \<longrightarrow>
            err = Some (errors_FromCode (Module ed) (Code ed) (Message ed))) \<and>
         (\<forall>t raw c. (t, p, Read (Inr raw)) \<in> set (stream_ops_of (new_events w w')) \<and>
            Error raw = None \<and> rsp = Some c \<longrightarrow>
            err = fst (cbor_Unmarshal env (Ok raw) c)) \<and>
         (err \<noteq> None \<longrightarrow>
            pf = None \<and>
            mgr_calls_of (new_events w w') = [MgrRecordFailure p (now w' - now w)] \<and>
            last (trace w') = (now w', Mgr (MgrRecordFailure p (now w' - now w)))) \<and>
         (err = None \<longrightarrow>
            pf = Some \<lparr>peerID = p, latency = now w' - now w\<rparr> \<and>
            mgr_calls_of (new_events w w') = [] \<and>
            (\<exists>t0 t1 t2 raw.
               (t0, p, NewStream None) \<in> set (stream_ops_of (new_events w w')) \<and>
               (t1, p, Write request None) \<in> set (stream_ops_of (new_events w w')) \<and>
               (t2, p, Read (Inr raw)) \<in> set (stream_ops_of (new_events w w')) \<and>
               Error raw = None))"
  using assms(2)
proof (cases rule: call_cases)
  case ctx_done
  with assms(1) show ?thesis by simp
next
  case (failed e w1)
  from failed(2) obtain es where es: "trace w1 = trace w @ es" "mgr_calls_of es = []"
    by (rule attempt_events)
  have ops: "stream_ops_of (new_events w w') = stream_ops_of (new_events w w1)"
    using failed(6) es(1) by (simp add: new_events_def)
  have m: "mgr_calls_of (new_events w w') = [MgrRecordFailure p (now w' - now w)]"
    using failed(5,6) es by (simp add: new_events_def)
  have l: "last (trace w') = (now w', Mgr (MgrRecordFailure p (now w' - now w)))"
    using failed(5,6) by simp
  note A = attempt_outcome [OF failed(2)]
  show ?thesis
    unfolding ops failed(3) failed(4)
    apply (intro conjI)
    subgoal by simp
    subgoal by (rule A [THEN conjunct1])
    subgoal by (rule A [THEN conjunct2, THEN conjunct1])
    subgoal by (rule A [THEN conjunct2, THEN conjunct2, THEN conjunct1])
    subgoal by (rule A [THEN conjunct2, THEN conjunct2, THEN conjunct2, THEN conjunct1])
    subgoal by (rule A [THEN conjunct2, THEN conjunct2, THEN conjunct2, THEN conjunct2, THEN conjunct1])
    subgoal by (rule A [THEN conjunct2, THEN conjunct2, THEN conjunct2, THEN conjunct2, THEN conjunct2,
          THEN conjunct1])
    subgoal using m l by simp
    subgoal by simp
    done
next
  case succeeded
  from succeeded(2) obtain es where es: "trace w' = trace w @ es" "mgr_calls_of es = []"
    by (rule attempt_events)
  have m: "mgr_calls_of (new_events w w') = []"
    using es by (simp add: new_events_def)
  note A = attempt_outcome [OF succeeded(2)]
  show ?thesis
    unfolding succeeded(3) succeeded(4)
    apply (intro conjI)
    subgoal by simp
    subgoal by (rule A [THEN conjunct1])
    subgoal by (rule A [THEN conjunct2, THEN conjunct1])
    subgoal by (rule A [THEN conjunct2, THEN conjunct2, THEN conjunct1])
    subgoal by (rule A [THEN conjunct2, THEN conjunct2, THEN conjunct2, THEN conjunct1])
    subgoal by (rule A [THEN conjunct2, THEN conjunct2, THEN conjunct2, THEN conjunct2, THEN conjunct1])
    subgoal by (rule A [THEN conjunct2, THEN conjunct2, THEN conjunct2, THEN conjunct2, THEN conjunct2,
          THEN conjunct1])
    subgoal by simp
    subgoal
      apply (intro impI conjI)
      subgoal by simp
      subgoal by (rule m)
      subgoal using A [THEN conjunct2, THEN conjunct2, THEN conjunct2, THEN conjunct2, THEN conjunct2,
          THEN conjunct2] by simp
      done
    done
qed

theorem call_failure_recorded_once_witness:
  "\<not> ctx_Done never_done (now world0) \<and>
   fst (snd (call (demo_env []) never_done ''A'' echo (Some []) Second world0)) =
     Some (Wrapf ''failed to open stream'' DeadlineExceeded) \<and>
   fst (call (demo_env []) never_done ''A'' echo (Some []) Second world0) = None \<and>
   mgr_calls_of (new_events world0
      (snd (snd (snd (call (demo_env []) never_done ''A'' echo (Some []) Second world0))))) =
     [MgrRecordFailure ''A'' 2000000000] \<and>
   fst (snd (call (demo_env []) never_done ''D'' echo (Some []) Second world0)) =
     Some (Wrapf ''failed to send request'' DeadlineExceeded) \<and>
   fst (call (demo_env []) never_done ''D'' echo (Some []) Second world0) = None \<and>
   mgr_calls_of (new_events world0
      (snd (snd (snd (call (demo_env []) never_done ''D'' echo (Some []) Second world0))))) =
     [MgrRecordFailure ''D'' 5000000000] \<and>
   fst (snd (call (demo_env []) never_done ''E'' echo (Some []) Second world0)) =
     Some (Wrapf ''failed to read response'' DeadlineExceeded) \<and>
   fst (call (demo_env []) never_done ''E'' echo (Some []) Second world0) = None \<and>
   mgr_calls_of (new_events world0
      (snd (snd (snd (call (demo_env []) never_done ''E'' echo (Some []) Second world0))))) =
     [MgrRecordFailure ''E'' 3000000000] \<and>
   fst (snd (call (demo_env []) never_done ''C'' echo (Some []) Second world0)) =
     Some (CodedError ''storage'' 3 ''not found'') \<and>
   fst (call (demo_env []) never_done ''C'' echo (Some []) Second world0) = None \<and>
   mgr_calls_of (new_events world0
      (snd (snd (snd (call (demo_env []) never_done ''C'' echo (Some []) Second world0))))) =
     [MgrRecordFailure ''C'' 1000000000] \<and>
   fst (snd (call (demo_env []) never_done ''G'' echo (Some []) Second world0)) =
     Some (Errorf ''cbor: unexpected break'') \<and>
   fst (call (demo_env []) never_done ''G'' echo (Some []) Second world0) = None \<and>
   mgr_calls_of (new_events world0
      (snd (snd (snd (call (demo_env []) never_done ''G'' echo (Some []) Second world0))))) =
     [MgrRecordFailure ''G'' 1000000000] \<and>
   fst (call (demo_env []) never_done ''B'' echo (Some []) Second world0) =
     Some \<lparr>peerID = ''B'', latency = 1000000000\<rparr> \<and>
   fst (snd (call (demo_env []) never_done ''B'' echo (Some []) Second world0)) = None \<and>
   mgr_calls_of (new_events world0
      (snd (snd (snd (call (demo_env []) never_done ''B'' echo (Some []) Second world0))))) = []"
proof -
  have h: "\<not> ctx_Done never_done (now world0)"
    by (simp add: demo_defs)

  obtain pfa erra rspa wa where
    a: "call (demo_env []) never_done ''A'' echo (Some []) Second world0 = (pfa, erra, rspa, wa)"
    by (rule prod_cases4)
  have eva: "(2000000000, ''A'', NewStream (Some DeadlineExceeded)) \<in> set (stream_ops_of (new_events world0 wa))"
    using a by (auto simp add: demo_defs)
  have na: "now wa = 2000000000"
    using a by (auto simp add: demo_defs)
  note Ta = call_failure_recorded_once [OF h a]
  have ea: "erra = Some (Wrapf ''failed to open stream'' DeadlineExceeded)"
    using Ta [THEN conjunct2, THEN conjunct2, THEN conjunct1] eva by (auto simp add: demo_env_def errors_FromCode_def)
  have ra: "pfa = None \<and> mgr_calls_of (new_events world0 wa) = [MgrRecordFailure ''A'' 2000000000]"
    using Ta [THEN conjunct2, THEN conjunct2, THEN conjunct2, THEN conjunct2, THEN conjunct2,
          THEN conjunct2, THEN conjunct2, THEN conjunct1] ea na
    by (simp add: world0_def)

  obtain pfd errd rspd wd where
    d: "call (demo_env []) never_done ''D'' echo (Some []) Second world0 = (pfd, errd, rspd, wd)"
    by (rule prod_cases4)
  have evd: "(5000000000, ''D'', Write echo (Some DeadlineExceeded)) \<in> set (stream_ops_of (new_events world0 wd))"
    using d by (auto simp add: demo_defs)
  have nd: "now wd = 5000000000"
    using d by (auto simp add: demo_defs)
  note Td = call_failure_recorded_once [OF h d]
  have ed: "errd = Some (Wrapf ''failed to send request'' DeadlineExceeded)"
    using Td [THEN conjunct2, THEN conjunct2, THEN conjunct2, THEN conjunct1] evd by (auto simp add: demo_env_def errors_FromCode_def)
  have rd: "pfd = None \<and> mgr_calls_of (new_events world0 wd) = [MgrRecordFailure ''D'' 5000000000]"
    using Td [THEN conjunct2, THEN conjunct2, THEN conjunct2, THEN conjunct2, THEN conjunct2,
          THEN conjunct2, THEN conjunct2, THEN conjunct1] ed nd
    by (simp add: world0_def)

  obtain pfe erre rspe we where
    e: "call (demo_env []) never_done ''E'' echo (Some []) Second world0 = (pfe, erre, rspe, we)"
    by (rule prod_cases4)
  have eve: "(3000000000, ''E'', Read (Inl DeadlineExceeded)) \<in> set (stream_ops_of (new_events world0 we))"
    using e by (auto simp add: demo_defs)
  have ne: "now we = 3000000000"
    using e by (auto simp add: demo_defs)
  note Te = call_failure_recorded_once [OF h e]
  have ee: "erre = Some (Wrapf ''failed to read response'' DeadlineExceeded)"
    using Te [THEN conjunct2, THEN conjunct2, THEN conjunct2, THEN conjunct2, THEN conjunct1] eve by (auto simp add: demo_env_def errors_FromCode_def)
  have re: "pfe = None \<and> mgr_calls_of (new_events world0 we) = [MgrRecordFailure ''E'' 3000000000]"
    using Te [THEN conjunct2, THEN conjunct2, THEN conjunct2, THEN conjunct2, THEN conjunct2,
          THEN conjunct2, THEN conjunct2, THEN conjunct1] ee ne
    by (simp add: world0_def)

  obtain pfc errc rspc wc where
    c: "call (demo_env []) never_done ''C'' echo (Some []) Second world0 = (pfc, errc, rspc, wc)"
    by (rule prod_cases4)
  have evc: "(1000000000, ''C'', Read (Inr \<lparr>Ok = [], Error = Some \<lparr>Module = ''storage'', Code = 3, Message = ''not found''\<rparr>\<rparr>)) \<in> set (stream_ops_of (new_events world0 wc))"
    using c by (auto simp add: demo_defs)
  have nc: "now wc = 1000000000"
    using c by (auto simp add: demo_defs)
  note Tc = call_failure_recorded_once [OF h c]
  have ec: "errc = Some (CodedError ''storage'' 3 ''not found'')"
    using Tc [THEN conjunct2, THEN conjunct2, THEN conjunct2, THEN conjunct2, THEN conjunct2, THEN conjunct1, THEN spec [of _ 1000000000],
        THEN spec [of _ "\<lparr>Ok = [], Error = Some \<lparr>Module = ''storage'', Code = 3, Message = ''not found''\<rparr>\<rparr>"],
        THEN spec [of _ "\<lparr>Module = ''storage'', Code = 3, Message = ''not found''\<rparr>"]] evc
    by (simp add: errors_FromCode_def)
  have rc: "pfc = None \<and> mgr_calls_of (new_events world0 wc) = [MgrRecordFailure ''C'' 1000000000]"
    using Tc [THEN conjunct2, THEN conjunct2, THEN conjunct2, THEN conjunct2, THEN conjunct2,
          THEN conjunct2, THEN conjunct2, THEN conjunct1] ec nc
    by (simp add: world0_def)

  obtain pfg errg rspg wg where
    g: "call (demo_env []) never_done ''G'' echo (Some []) Second world0 = (pfg, errg, rspg, wg)"
    by (rule prod_cases4)
  have evg: "(1000000000, ''G'', Read (Inr \<lparr>Ok = [255], Error = None\<rparr>)) \<in> set (stream_ops_of (new_events world0 wg))"
    using g by (auto simp add: demo_defs)
  have ng: "now wg = 1000000000"
    using g by (auto simp add: demo_defs)
  note Tg = call_failure_recorded_once [OF h g]
  have eg: "errg = Some (Errorf ''cbor: unexpected break'')"
    using Tg [THEN conjunct2, THEN conjunct2, THEN conjunct2, THEN conjunct2, THEN conjunct2, THEN conjunct2, THEN conjunct1, THEN spec [of _ 1000000000],
        THEN spec [of _ "\<lparr>Ok = [255], Error = None\<rparr>"],
        THEN spec [of _ "[]"]] evg
    by (simp add: demo_env_def)
  have rg: "pfg = None \<and> mgr_calls_of (new_events world0 wg) = [MgrRecordFailure ''G'' 1000000000]"
    using Tg [THEN conjunct2, THEN conjunct2, THEN conjunct2, THEN conjunct2, THEN conjunct2,
          THEN conjunct2, THEN conjunct2, THEN conjunct1] eg ng
    by (simp add: world0_def)

  obtain pf err rsp' w' where
    b: "call (demo_env []) never_done ''B'' echo (Some []) Second world0 = (pf, err, rsp', w')"
    by (rule prod_cases4)
  have b': "pf = Some \<lparr>peerID = ''B'', latency = 1000000000\<rparr>"
    using b by (auto simp add: demo_defs)
  from call_failure_recorded_once [OF h b, THEN conjunct1] b' have eb: "err = None"
    by simp
  from call_failure_recorded_once [OF h b, THEN conjunct2, THEN conjunct2, THEN conjunct2,
      THEN conjunct2, THEN conjunct2, THEN conjunct2, THEN conjunct2, THEN conjunct2] eb
  have mb: "mgr_calls_of (new_events world0 w') = []"
    by simp
  show ?thesis
    unfolding a d e c g b using h ea ra ed rd ee re ec rc eg rg b' eb mb by simp
qed

subsection \<open>The order of the stream operations\<close>

lemma attempt_time_allowed:
  assumes "sendRequestAndDecodeResponse env ctx p request rsp maxt w = (err, rsp', w')"
  shows "list_all (\<lambda>(b, d). b = Opening \<and> d = None \<or>
                             b = Writing \<and> d = Some RequestWriteDeadline \<or>
                             b = Reading \<and> d = Some maxt)
           (time_allowed None None (stream_ops_of (new_events w w')))"
  using assms
  by (cases rule: attempt_cases) (auto simp add: new_events_def)

lemma attempt_closes:
  assumes "sendRequestAndDecodeResponse env ctx p request rsp maxt w = (err, rsp', w')"
  shows "closes (stream_ops_of (new_events w w')) =
           (if \<exists>t. (t, p, NewStream None) \<in> set (stream_ops_of (new_events w w')) then 1 else 0)"
  using assms
  by (cases rule: attempt_cases) (auto simp add: new_events_def closes_def)

lemma attempt_paths:
  assumes "sendRequestAndDecodeResponse env ctx p request rsp maxt w = (err, rsp', w')"
  shows "(\<exists>t0 e.
            stream_ops_of (new_events w w') = [(t0, p, NewStream (Some e))] \<and>
            err = Some (Wrapf ''failed to open stream'' e) \<and> rsp' = rsp) \<or>
         (\<exists>t0 t1 e.
            stream_ops_of (new_events w w') =
              [(t0, p, NewStream None),
               (t0, p, SetWriteDeadline (Some (t0 + RequestWriteDeadline))),
               (t1, p, Write request (Some e)),
               (t1, p, Close)] \<and>
            err = Some (Wrapf ''failed to send request'' e) \<and> rsp' = rsp) \<or>
         (\<exists>t0 t1 t2 e.
            stream_ops_of (new_events w w') =
              [(t0, p, NewStream None),
               (t0, p, SetWriteDeadline (Some (t0 + RequestWriteDeadline))),
               (t1, p, Write request None),
               (t1, p, SetWriteDeadline None),
               (t1, p, SetReadDeadline (Some (t1 + maxt))),
               (t2, p, Read (Inl e)),
               (t2, p, Close)] \<and>
            err = Some (Wrapf ''failed to read response'' e) \<and> rsp' = rsp) \<or>
         (\<exists>t0 t1 t2 raw post.
            stream_ops_of (new_events w w') =
              [(t0, p, NewStream None),
               (t0, p, SetWriteDeadline (Some (t0 + RequestWriteDeadline))),
               (t1, p, Write request None),
               (t1, p, SetWriteDeadline None),
               (t1, p, SetReadDeadline (Some (t1 + maxt))),
               (t2, p, Read (Inr raw))] @ post @ [(t2, p, Close)] \<and>
            list_all (\<lambda>(t, q, x). sets_deadline x) post \<and>
            (case Error raw of
               Some ed \<Rightarrow>
                 err = Some (errors_FromCode (Module ed) (Code ed) (Message ed)) \<and> rsp' = rsp
             | None \<Rightarrow>
                 (case rsp of
                    Some c \<Rightarrow>
                      err = fst (cbor_Unmarshal env (Ok raw) c) \<and>
                      rsp' = Some (snd (cbor_Unmarshal env (Ok raw) c))
                  | None \<Rightarrow> err = None \<and> rsp' = None)))"
  using assms
proof (cases rule: attempt_ops)
  case (open_fail t0 e)
  then show ?thesis by simp
next
  case (write_fail t0 t1 e)
  then show ?thesis by simp
next
  case (read_fail t0 t1 t2 e)
  then show ?thesis by simp
next
  case (replied t0 t1 t2 raw)
  from replied(1) have d: "case Error raw of
               Some ed \<Rightarrow>
                 err = Some (errors_FromCode (Module ed) (Code ed) (Message ed)) \<and> rsp' = rsp
             | None \<Rightarrow>
                 (case rsp of
                    Some c \<Rightarrow>
                      err = fst (cbor_Unmarshal env (Ok raw) c) \<and>
                      rsp' = Some (snd (cbor_Unmarshal env (Ok raw) c))
                  | None \<Rightarrow> err = None \<and> rsp' = None)"
    by (cases rule: decodeResponse_cases) simp_all
  show ?thesis
    apply (intro disjI2)
    apply (rule exI [of _ t0])
    apply (rule exI [of _ t1])
    apply (rule exI [of _ t2])
    apply (rule exI [of _ raw])
    apply (rule exI [of _ "[(t2, p, SetWriteDeadline None)]"])
    apply (intro conjI)
    subgoal using replied(2) by simp
    subgoal by simp
    subgoal by (rule d)
    done
qed

text \<open>
  C6, as the code has it. The stream operations of an attempt are, in this order: open
  the stream, set the write deadline, write the request, clear the write deadline,
  set the read deadline, read the response; then the response is decoded and the
  stream is closed, and nothing on the stream blocks any more between the read and
  the closing. The sequence is cut short after a failed opening, write or read, whose
  error the attempt returns, wrapped, leaving the container alone. Decoding: the
  error of an error descriptor is returned and the container left alone; a payload is
  decoded into the container of the caller, and the error of the decoding is
  returned; without a container nothing is decoded. The write is given the constant
  \<^verbatim>\<open>RequestWriteDeadline\<close> of five seconds, the read is given \<open>maxPeerResponseTime\<close>,
  the opening has no deadline of its own (it is given the context). A stream that was
  opened is closed exactly once, as the last operation, on every path; when the
  opening fails there is no stream and nothing is closed.
\<close>

theorem attempt_stream_protocol:
  assumes "sendRequestAndDecodeResponse env ctx p request rsp maxt w = (err, rsp', w')"
  shows "((\<exists>t0 e.
            stream_ops_of (new_events w w') = [(t0, p, NewStream (Some e))] \<and>
            err = Some (Wrapf ''failed to open stream'' e) \<and> rsp' = rsp) \<or>
         (\<exists>t0 t1 e.
            stream_ops_of (new_events w w') =
              [(t0, p, NewStream None),
               (t0, p, SetWriteDeadline (Some (t0 + RequestWriteDeadline))),
               (t1, p, Write request (Some e)),
               (t1, p, Close)] \<and>
            err = Some (Wrapf ''failed to send request'' e) \<and> rsp' = rsp) \<or>
         (\<exists>t0 t1 t2 e.
            stream_ops_of (new_events w w') =
              [(t0, p, NewStream None),
               (t0, p, SetWriteDeadline (Some (t0 + RequestWriteDeadline))),
               (t1, p, Write request None),
               (t1, p, SetWriteDeadline None),
               (t1, p, SetReadDeadline (Some (t1 + maxt))),
               (t2, p, Read (Inl e)),
               (t2, p, Close)] \<and>
            err = Some (Wrapf ''failed to read response'' e) \<and> rsp' = rsp) \<or>
         (\<exists>t0 t1 t2 raw post.
            stream_ops_of (new_events w w') =
              [(t0, p, NewStream None),
               (t0, p, SetWriteDeadline (Some (t0 + RequestWriteDeadline))),
               (t1, p, Write request None),
               (t1, p, SetWriteDeadline None),
               (t1, p, SetReadDeadline (Some (t1 + maxt))),
               (t2, p, Read (Inr raw))] @ post @ [(t2, p, Close)] \<and>
            list_all (\<lambda>(t, q, x). sets_deadline x) post \<and>
            (case Error raw of
               Some ed \<Rightarrow>
                 err = Some (errors_FromCode (Module ed) (Code ed) (Message ed)) \<and> rsp' = rsp
             | None \<Rightarrow>
                 (case rsp of
                    Some c \<Rightarrow>
                      err = fst (cbor_Unmarshal env (Ok raw) c) \<and>
                      rsp' = Some (snd (cbor_Unmarshal env (Ok raw) c))
                  | None \<Rightarrow> err = None \<and> rsp' = None)))) \<and>
         list_all (\<lambda>(b, d). b = Opening \<and> d = None \<or>
                             b = Writing \<and> d = Some RequestWriteDeadline \<or>
                             b = Reading \<and> d = Some maxt)
           (time_allowed None None (stream_ops_of (new_events w w'))) \<and>
         closes (stream_ops_of (new_events w w')) =
           (if \<exists>t. (t, p, NewStream None) \<in> set (stream_ops_of (new_events w w')) then 1 else 0)"
  using attempt_paths [OF assms] attempt_time_allowed [OF assms] attempt_closes [OF assms]
  by (intro conjI)

theorem attempt_stream_protocol_witness:
  "sendRequestAndDecodeResponse (demo_env []) never_done ''B'' echo (Some []) Second world0 =
     (None, Some [7, 8],
      snd (snd (sendRequestAndDecodeResponse (demo_env []) never_done ''B'' echo (Some [])
        Second world0))) \<and>
   take 6 (stream_ops_of (new_events world0
     (snd (snd (sendRequestAndDecodeResponse (demo_env []) never_done ''B'' echo (Some [])
        Second world0))))) =
     [(0, ''B'', NewStream None),
      (0, ''B'', SetWriteDeadline (Some 5000000000)),
      (0, ''B'', Write echo None),
      (0, ''B'', SetWriteDeadline None),
      (0, ''B'', SetReadDeadline (Some 1000000000)),
      (1000000000, ''B'', Read (Inr \<lparr>Ok = [7, 8], Error = None\<rparr>))] \<and>
   last (stream_ops_of (new_events world0
     (snd (snd (sendRequestAndDecodeResponse (demo_env []) never_done ''B'' echo (Some [])
        Second world0))))) = (1000000000, ''B'', Close) \<and>
   closes (stream_ops_of (new_events world0
     (snd (snd (sendRequestAndDecodeResponse (demo_env []) never_done ''B'' echo (Some [])
        Second world0))))) = 1 \<and>
   time_allowed None None (stream_ops_of (new_events world0
     (snd (snd (sendRequestAndDecodeResponse (demo_env []) never_done ''B'' echo (Some [])
        Second world0))))) =
     [(Opening, None), (Writing, Some RequestWriteDeadline), (Reading, Some Second)]"
proof -
  obtain err rsp' w' where
    b: "sendRequestAndDecodeResponse (demo_env []) never_done ''B'' echo (Some []) Second world0 =
          (err, rsp', w')"
    by (rule prod_cases3)
  have v: "err = None" "rsp' = Some [7, 8]"
    using b by (auto simp add: demo_defs)
  have ops: "take 6 (stream_ops_of (new_events world0 w')) =
     [(0, ''B'', NewStream None),
      (0, ''B'', SetWriteDeadline (Some 5000000000)),
      (0, ''B'', Write echo None),
      (0, ''B'', SetWriteDeadline None),
      (0, ''B'', SetReadDeadline (Some 1000000000)),
      (1000000000, ''B'', Read (Inr \<lparr>Ok = [7, 8], Error = None\<rparr>))]"
    "last (stream_ops_of (new_events world0 w')) = (1000000000, ''B'', Close)"
    "(0, ''B'', NewStream None) \<in> set (stream_ops_of (new_events world0 w'))"
    "time_allowed None None (stream_ops_of (new_events world0 w')) =
       [(Opening, None), (Writing, Some RequestWriteDeadline), (Reading, Some Second)]"
    using b by (auto simp add: demo_defs)
  from attempt_stream_protocol [OF b]
  have "closes (stream_ops_of (new_events world0 w')) =
      (if \<exists>t. (t, ''B'', NewStream None) \<in> set (stream_ops_of (new_events world0 w')) then 1 else 0)"
    by simp
  with ops(3) have "closes (stream_ops_of (new_events world0 w')) = 1"
    by auto
  with ops v show ?thesis
    unfolding b by simp
qed

text \<open>
  The claim gives every blocking point a deadline derived from the timeouts of the
  caller. With a context without deadline and \<open>maxPeerResponseTime\<close> of one second, the
  write is given five seconds and the opening no deadline.
\<close>

theorem attempt_deadlines_counterexample:
  "time_allowed None None (stream_ops_of (new_events world0
       (snd (snd (sendRequestAndDecodeResponse (demo_env []) never_done ''B'' echo (Some [])
          Second world0))))) =
     [(Opening, None), (Writing, Some (5 * Second)), (Reading, Some Second)] \<and>
   \<not> bounded_by_caller_timeout Second (new_events world0
       (snd (snd (sendRequestAndDecodeResponse (demo_env []) never_done ''B'' echo (Some [])
          Second world0))))"
  by (simp add: demo_defs bounded_by_caller_timeout_def)

subsection \<open>Error envelopes\<close>

lemma read_event_determines:
  assumes "sendRequestAndDecodeResponse env ctx p request rsp maxt w = (err, rsp', w')"
      and "(t, p, Read (Inr rawRsp)) \<in> set (stream_ops_of (new_events w w'))"
  shows "decodeResponse env rawRsp rsp = (err, rsp')"
  using assms
  by (cases rule: attempt_cases) (auto simp add: new_events_def)

lemma call_read_event:
  assumes "call env ctx p request rsp maxt w = (pf, err, rsp', w')"
      and "(t, p, Read (Inr rawRsp)) \<in> set (stream_ops_of (new_events w w'))"
  shows "decodeResponse env rawRsp rsp = (err, rsp')"
  using assms(1)
proof (cases rule: call_cases)
  case ctx_done
  with assms(2) show ?thesis by simp
next
  case (failed e w1)
  from failed(2) obtain es where tr: "trace w1 = trace w @ es"
    by (rule attempt_events)
  with failed assms(2) have "(t, p, Read (Inr rawRsp)) \<in> set (stream_ops_of (new_events w w1))"
    by (simp add: new_events_def)
  with read_event_determines [OF failed(2)] failed show ?thesis by simp
next
  case succeeded
  with read_event_determines [OF succeeded(2)] assms(2) show ?thesis by simp
qed

text \<open>A round only adds events.\<close>

lemma tryPeersLoop_extends:
  "\<exists>es. trace (snd (snd (snd (tryPeersLoop env ctx request maxt peers (pf, rsp, w))))) =
          trace w @ es"
proof (induction peers arbitrary: pf rsp w)
  case Nil
  show ?case by simp
next
  case (Cons p peers)
  show ?case
  proof (cases "isPeerAcceptable env p")
    case False
    with Cons.IH [of pf rsp w] show ?thesis by simp
  next
    case True
    let ?w = "emit (Log (LogTryingPeer (Method request) p)) w"
    obtain pf1 err1 rsp1 w1 where c: "call env ctx p request rsp maxt ?w = (pf1, err1, rsp1, w1)"
      by (rule prod_cases4)
    from c obtain es1 where es1: "trace w1 = trace ?w @ es1"
      by (rule call_events)
    show ?thesis
    proof (cases err1)
      case None
      show ?thesis
        by (rule exI [of _ "(now w, Log (LogTryingPeer (Method request) p)) # es1"])
           (simp add: True c None es1)
    next
      case (Some e)
      from Cons.IH [of pf1 rsp1 w1] obtain es2 where
        es2: "trace (snd (snd (snd (tryPeersLoop env ctx request maxt peers (pf1, rsp1, w1))))) =
          trace w1 @ es2"
        by (elim exE)
      show ?thesis
        by (rule exI [of _ "(now w, Log (LogTryingPeer (Method request) p)) # es1 @ es2"])
           (simp add: True c Some es1 es2)
    qed
  qed
qed

text \<open>
  A round goes to the first accepted peer of the ranking: it logs the attempt and
  makes it, and ends there when the attempt succeeds. Without an accepted peer it
  ends with the error of exhaustion.
\<close>

lemma tryPeersLoop_next:
  assumes "filter (isPeerAcceptable env) peers = q # rest"
  shows "(\<exists>es. trace (snd (snd (snd (tryPeersLoop env ctx request maxt peers (pf, rsp, w))))) =
            trace w @ (now w, Log (LogTryingPeer (Method request) q)) # es) \<and>
         (\<forall>pfq rspq wq.
            call env ctx q request rsp maxt (emit (Log (LogTryingPeer (Method request) q)) w) =
              (pfq, None, rspq, wq) \<longrightarrow>
            tryPeersLoop env ctx request maxt peers (pf, rsp, w) = (pfq, None, rspq, wq))"
  using assms
proof (induction peers)
  case Nil
  then show ?case by simp
next
  case (Cons p peers)
  show ?case
  proof (cases "isPeerAcceptable env p")
    case False
    with Cons show ?thesis by simp
  next
    case True
    with Cons.prems have q: "q = p" by simp
    let ?w = "emit (Log (LogTryingPeer (Method request) p)) w"
    obtain pf1 err1 rsp1 w1 where c: "call env ctx p request rsp maxt ?w = (pf1, err1, rsp1, w1)"
      by (rule prod_cases4)
    from c obtain es1 where es1: "trace w1 = trace ?w @ es1"
      by (rule call_events)
    have tr: "\<exists>es. trace (snd (snd (snd (tryPeersLoop env ctx request maxt (p # peers) (pf, rsp, w))))) =
            trace w @ (now w, Log (LogTryingPeer (Method request) p)) # es"
    proof (cases err1)
      case None
      show ?thesis
        by (rule exI [of _ es1]) (simp add: True c None es1)
    next
      case (Some e)
      from tryPeersLoop_extends [of env ctx request maxt peers pf1 rsp1 w1] obtain es2 where
        es2: "trace (snd (snd (snd (tryPeersLoop env ctx request maxt peers (pf1, rsp1, w1))))) =
          trace w1 @ es2"
        by (elim exE)
      show ?thesis
        by (rule exI [of _ "es1 @ es2"]) (simp add: True c Some es1 es2)
    qed
    have res: "\<forall>pfq rspq wq.
            call env ctx p request rsp maxt ?w = (pfq, None, rspq, wq) \<longrightarrow>
            tryPeersLoop env ctx request maxt (p # peers) (pf, rsp, w) = (pfq, None, rspq, wq)"
      using True by simp
    from tr res show ?thesis unfolding q by (intro conjI)
  qed
qed

lemma tryPeersLoop_none:
  assumes "filter (isPeerAcceptable env) peers = []"
  shows "tryPeersLoop env ctx request maxt peers (pf, rsp, w) =
           (pf, Some (Errorf ''call failed on all peers''), rsp,
            emit (Log (LogNoPeers (Method request))) w)"
  using assms
proof (induction peers)
  case Nil
  show ?case by simp
next
  case (Cons p peers)
  then show ?case by (cases "isPeerAcceptable env p") simp_all
qed

text \<open>
  C7. Take the attempt a round makes on a peer, and let it have read the response
  envelope \<open>rawRsp\<close>. If the envelope carries an error descriptor, the error of the
  attempt is the application error of its module, code and message, returned as it
  is: it is none of the wrapped transport failures and not the error of exhaustion;
  the container is left as it was and there is no feedback handle. The round then
  goes to the next accepted peer of the ranking: the next event after the attempt is
  the trying of that peer, and when the attempt on that peer succeeds the round
  returns what it returned; when no accepted peer is left, the round ends with the
  error of exhaustion. If the envelope carries no error descriptor and the caller
  gave a container, the payload is decoded into it.
\<close>

theorem error_envelope_surfaces:
  assumes "call env ctx p request rsp maxt (emit (Log (LogTryingPeer (Method request) p)) w) =
             (pf, err, rsp', w')"
      and "(t, p, Read (Inr rawRsp)) \<in>
             set (stream_ops_of (new_events (emit (Log (LogTryingPeer (Method request) p)) w) w'))"
  shows "(\<forall>ed. Error rawRsp = Some ed \<longrightarrow>
            err = Some (errors_FromCode (Module ed) (Code ed) (Message ed)) \<and>
            err = Some (CodedError (Module ed) (Code ed) (Message ed)) \<and>
            (\<forall>m e. err \<noteq> Some (Wrapf m e)) \<and>
            err \<noteq> Some (Errorf ''call failed on all peers'') \<and>
            rsp' = rsp \<and> pf = None \<and>
            (\<forall>peers pf0 q rest.
               isPeerAcceptable env p \<and> filter (isPeerAcceptable env) peers = q # rest \<longrightarrow>
               (\<exists>es. trace (snd (snd (snd
                        (tryPeersLoop env ctx request maxt (p # peers) (pf0, rsp, w))))) =
                      trace w' @ (now w', Log (LogTryingPeer (Method request) q)) # es) \<and>
               (\<forall>pfq rspq wq.
                  call env ctx q request rsp maxt
                    (emit (Log (LogTryingPeer (Method request) q)) w') = (pfq, None, rspq, wq) \<longrightarrow>
                  tryPeersLoop env ctx request maxt (p # peers) (pf0, rsp, w) =
                    (pfq, None, rspq, wq))) \<and>
            (\<forall>peers pf0.
               isPeerAcceptable env p \<and> filter (isPeerAcceptable env) peers = [] \<longrightarrow>
               tryPeersLoop env ctx request maxt (p # peers) (pf0, rsp, w) =
                 (None, Some (Errorf ''call failed on all peers''), rsp,
                  emit (Log (LogNoPeers (Method request))) w'))) \<and>
         (\<forall>c. Error rawRsp = None \<and> rsp = Some c \<longrightarrow>
            err = fst (cbor_Unmarshal env (Ok rawRsp) c) \<and>
            rsp' = Some (snd (cbor_Unmarshal env (Ok rawRsp) c)))"
proof -
  from call_read_event [OF assms]
  have d: "decodeResponse env rawRsp rsp = (err, rsp')" .
  from call_handle_iff [OF assms(1)] have pf: "pf \<noteq> None \<longleftrightarrow> err = None" .
  have remote: "err = Some (CodedError (Module ed) (Code ed) (Message ed)) \<and> rsp' = rsp \<and> pf = None"
    if "Error rawRsp = Some ed" for ed
    using d pf that by (auto simp add: decodeResponse_def errors_FromCode_def)
  have step: "tryPeersLoop env ctx request maxt (p # peers) (pf0, rsp, w) =
                tryPeersLoop env ctx request maxt peers (None, rsp, w')"
    if "Error rawRsp = Some ed" "isPeerAcceptable env p" for ed peers pf0
    using remote [OF that(1)] that(2) assms(1) by simp
  show ?thesis
  proof (intro conjI allI impI)
    fix ed
    assume h: "Error rawRsp = Some ed"
    from remote [OF h] show "err = Some (errors_FromCode (Module ed) (Code ed) (Message ed))"
      by (simp add: errors_FromCode_def)
    from remote [OF h] show "err = Some (CodedError (Module ed) (Code ed) (Message ed))"
      by simp
    from remote [OF h] show "err \<noteq> Some (Errorf ''call failed on all peers'')"
      by simp
    from remote [OF h] show "rsp' = rsp" by simp
    from remote [OF h] show "pf = None" by simp
    fix m e'
    from remote [OF h] show "err \<noteq> Some (Wrapf m e')" by simp
  next
    fix ed peers pf0 q rest
    assume h: "Error rawRsp = Some ed"
       and a: "isPeerAcceptable env p \<and> filter (isPeerAcceptable env) peers = q # rest"
    from a have acc: "isPeerAcceptable env p" and f: "filter (isPeerAcceptable env) peers = q # rest"
      by simp_all
    note N = tryPeersLoop_next [OF f, of ctx request maxt None rsp w']
    from N [THEN conjunct1]
    show "\<exists>es. trace (snd (snd (snd
                        (tryPeersLoop env ctx request maxt (p # peers) (pf0, rsp, w))))) =
                      trace w' @ (now w', Log (LogTryingPeer (Method request) q)) # es"
      unfolding step [OF h acc] .
  next
    fix ed peers pf0 q rest pfq rspq wq
    assume h: "Error rawRsp = Some ed"
       and a: "isPeerAcceptable env p \<and> filter (isPeerAcceptable env) peers = q # rest"
       and c: "call env ctx q request rsp maxt
                 (emit (Log (LogTryingPeer (Method request) q)) w') = (pfq, None, rspq, wq)"
    from a have acc: "isPeerAcceptable env p" and f: "filter (isPeerAcceptable env) peers = q # rest"
      by simp_all
    note N = tryPeersLoop_next [OF f, of ctx request maxt None rsp w']
    from N [THEN conjunct2] c
    show "tryPeersLoop env ctx request maxt (p # peers) (pf0, rsp, w) = (pfq, None, rspq, wq)"
      unfolding step [OF h acc] by blast
  next
    fix ed peers pf0
    assume h: "Error rawRsp = Some ed"
       and a: "isPeerAcceptable env p \<and> filter (isPeerAcceptable env) peers = []"
    from a have acc: "isPeerAcceptable env p" and f: "filter (isPeerAcceptable env) peers = []"
      by simp_all
    show "tryPeersLoop env ctx request maxt (p # peers) (pf0, rsp, w) =
                 (None, Some (Errorf ''call failed on all peers''), rsp,
                  emit (Log (LogNoPeers (Method request))) w')"
      unfolding step [OF h acc] by (rule tryPeersLoop_none [OF f])
  next
    fix c
    assume "Error rawRsp = None \<and> rsp = Some c"
    with d show "err = fst (cbor_Unmarshal env (Ok rawRsp) c)"
      and "rsp' = Some (snd (cbor_Unmarshal env (Ok rawRsp) c))"
      by (auto simp add: decodeResponse_def split: prod.splits)
  qed
qed

theorem error_envelope_surfaces_witness:
  "fst (snd (call (demo_env []) never_done ''C'' echo (Some [1]) Second
      (emit (Log (LogTryingPeer (Method echo) ''C'')) world0))) =
     Some (CodedError ''storage'' 3 ''not found'') \<and>
   fst (call (demo_env []) never_done ''C'' echo (Some [1]) Second
      (emit (Log (LogTryingPeer (Method echo) ''C'')) world0)) = None \<and>
   fst (snd (snd (call (demo_env []) never_done ''C'' echo (Some [1]) Second
      (emit (Log (LogTryingPeer (Method echo) ''C'')) world0)))) = Some [1] \<and>
   fst (tryPeersLoop (demo_env []) never_done echo Second [''C'', ''X'', ''B''] (None, Some [1], world0)) =
     Some \<lparr>peerID = ''B'', latency = 1000000000\<rparr> \<and>
   fst (snd (tryPeersLoop (demo_env []) never_done echo Second [''C'', ''X'', ''B'']
     (None, Some [1], world0))) = None \<and>
   fst (snd (snd (tryPeersLoop (demo_env []) never_done echo Second [''C'', ''X'', ''B'']
     (None, Some [1], world0)))) = Some [7, 8] \<and>
   fst (snd (tryPeersLoop (demo_env []) never_done echo Second [''C'', ''X'']
     (None, Some [1], world0))) = Some (Errorf ''call failed on all peers'') \<and>
   fst (snd (snd (call (demo_env []) never_done ''B'' echo (Some [1]) Second
      (emit (Log (LogTryingPeer (Method echo) ''B'')) world0)))) = Some [7, 8]"
proof -
  let ?ed = "\<lparr>Module = ''storage'', Code = 3, Message = ''not found''\<rparr>"
  let ?rawC = "\<lparr>Ok = [], Error = Some ?ed\<rparr>"
  let ?rawB = "\<lparr>Ok = [7, 8], Error = None\<rparr> :: Response"
  obtain pf err rsp' w' where
    c: "call (demo_env []) never_done ''C'' echo (Some [1]) Second
          (emit (Log (LogTryingPeer (Method echo) ''C'')) world0) = (pf, err, rsp', w')"
    by (rule prod_cases4)
  have rc: "(Second, ''C'', Read (Inr ?rawC)) \<in>
      set (stream_ops_of (new_events (emit (Log (LogTryingPeer (Method echo) ''C'')) world0) w'))"
    using c by (auto simp add: demo_defs)
  have hc: "Error ?rawC = Some ?ed"
    by simp
  have acc: "isPeerAcceptable (demo_env []) ''C''"
    by (simp add: demo_env_def isPeerAcceptable_def)
  have f1: "filter (isPeerAcceptable (demo_env [])) [''X'', ''B''] = ''B'' # []"
    by (simp add: demo_env_def isPeerAcceptable_def)
  have f2: "filter (isPeerAcceptable (demo_env [])) [''X''] = []"
    by (simp add: demo_env_def isPeerAcceptable_def)
  note T = error_envelope_surfaces [OF c rc, THEN conjunct1, THEN spec [of _ ?ed], THEN mp, OF hc]
  have C: "err = Some (CodedError ''storage'' 3 ''not found'')" "rsp' = Some [1]" "pf = None"
    using T [THEN conjunct2, THEN conjunct1]
      T [THEN conjunct2, THEN conjunct2, THEN conjunct2, THEN conjunct2, THEN conjunct1]
      T [THEN conjunct2, THEN conjunct2, THEN conjunct2, THEN conjunct2, THEN conjunct2, THEN conjunct1]
    by simp_all
  obtain pfq errq rspq wq where
    q: "call (demo_env []) never_done ''B'' echo (Some [1]) Second
          (emit (Log (LogTryingPeer (Method echo) ''B'')) w') = (pfq, errq, rspq, wq)"
    by (rule prod_cases4)
  have nw: "now w' = 1000000000"
    using c by (auto simp add: demo_defs)
  have vq: "errq = None" "pfq = Some \<lparr>peerID = ''B'', latency = 1000000000\<rparr>" "rspq = Some [7, 8]"
    using q nw by (auto simp add: demo_defs)
  note N = T [THEN conjunct2, THEN conjunct2, THEN conjunct2, THEN conjunct2, THEN conjunct2,
      THEN conjunct2, THEN conjunct1, rule_format, OF conjI, OF acc f1]
  have L: "tryPeersLoop (demo_env []) never_done echo Second [''C'', ''X'', ''B''] (None, Some [1], world0) =
      (pfq, None, rspq, wq)"
    by (rule N [THEN conjunct2, rule_format, OF q [unfolded vq(1)]])
  have X: "tryPeersLoop (demo_env []) never_done echo Second [''C'', ''X''] (None, Some [1], world0) =
      (None, Some (Errorf ''call failed on all peers''), Some [1],
          emit (Log (LogNoPeers (Method echo))) w')"
    by (rule T [THEN conjunct2, THEN conjunct2, THEN conjunct2, THEN conjunct2, THEN conjunct2,
      THEN conjunct2, THEN conjunct2, rule_format, OF conjI, OF acc f2])
  obtain pfb errb rspb wb where
    b: "call (demo_env []) never_done ''B'' echo (Some [1]) Second
          (emit (Log (LogTryingPeer (Method echo) ''B'')) world0) = (pfb, errb, rspb, wb)"
    by (rule prod_cases4)
  have rb: "(Second, ''B'', Read (Inr ?rawB)) \<in>
      set (stream_ops_of (new_events (emit (Log (LogTryingPeer (Method echo) ''B'')) world0) wb))"
    using b by (auto simp add: demo_defs)
  from error_envelope_surfaces [OF b rb, THEN conjunct2]
  have B: "rspb = Some [7, 8]"
    by (simp add: demo_env_def)
  show ?thesis
    unfolding c b L X using C B vq by simp
qed

subsection \<open>Rounds\<close>

lemma failing_attempts_trace:
  assumes "failing_attempts env ctx request maxt ps (rsp, w) = Some (rsp1, w1)"
  shows "\<exists>es. trace w1 = trace w @ es \<and> map snd (tried es) = ps \<and> pace es = [] \<and>
           pool_calls_of es = []"
  using assms
proof (induction ps arbitrary: rsp w)
  case Nil
  then show ?case by simp
next
  case (Cons p ps)
  let ?w = "emit (Log (LogTryingPeer (Method request) p)) w"
  obtain pf err rsp' w' where c: "call env ctx p request rsp maxt ?w = (pf, err, rsp', w')"
    by (rule prod_cases4)
  from Cons.prems c have rest: "failing_attempts env ctx request maxt ps (rsp', w') = Some (rsp1, w1)"
    by (cases err) simp_all
  from c obtain es1 where es1: "trace w' = trace ?w @ es1" "tried es1 = []" "pace es1 = []"
     "pool_calls_of es1 = []"
    by (rule call_events)
  from Cons.IH [OF rest] obtain es2 where
    es2: "trace w1 = trace w' @ es2" "map snd (tried es2) = ps" "pace es2 = []"
    "pool_calls_of es2 = []"
    by (elim exE conjE)
  show ?case
    by (rule exI [of _ "(now w, Log (LogTryingPeer (Method request) p)) # es1 @ es2"])
       (simp add: es1 es2)
qed

lemma tryPeersLoop_success:
  assumes "tryPeersLoop env ctx request maxt peers (pf0, rsp, w) = (pf', None, rsp', w')"
  shows "\<exists>pre p post rsp1 w1.
             filter (isPeerAcceptable env) peers = pre @ p # post \<and>
             failing_attempts env ctx request maxt pre (rsp, w) = Some (rsp1, w1) \<and>
             call env ctx p request rsp1 maxt (emit (Log (LogTryingPeer (Method request) p)) w1) =
               (pf', None, rsp', w')"
  using assms
proof (induction peers arbitrary: pf0 rsp w)
  case Nil
  then show ?case by simp
next
  case (Cons p peers)
  show ?case
  proof (cases "isPeerAcceptable env p")
    case False
    with Cons.prems have "tryPeersLoop env ctx request maxt peers (pf0, rsp, w) = (pf', None, rsp', w')"
      by simp
    from Cons.IH [OF this] False show ?thesis by simp
  next
    case True
    let ?w = "emit (Log (LogTryingPeer (Method request) p)) w"
    obtain pf1 err1 rsp1 w1 where c: "call env ctx p request rsp maxt ?w = (pf1, err1, rsp1, w1)"
      by (rule prod_cases4)
    show ?thesis
    proof (cases err1)
      case None
      with c True Cons.prems have r: "pf' = pf1" "rsp' = rsp1" "w' = w1"
        by simp_all
      show ?thesis
        apply (rule exI [of _ "[]"])
        apply (rule exI [of _ p])
        apply (rule exI [of _ "filter (isPeerAcceptable env) peers"])
        apply (rule exI [of _ rsp])
        apply (rule exI [of _ w])
        using True c r None apply simp
        done
    next
      case (Some e)
      from Some c True Cons.prems
      have "tryPeersLoop env ctx request maxt peers (pf1, rsp1, w1) = (pf', None, rsp', w')"
        by simp
      from Cons.IH [OF this] obtain pre q post rsp2 w2 where h:
          "filter (isPeerAcceptable env) peers = pre @ q # post"
          "failing_attempts env ctx request maxt pre (rsp1, w1) = Some (rsp2, w2)"
          "call env ctx q request rsp2 maxt (emit (Log (LogTryingPeer (Method request) q)) w2) =
             (pf', None, rsp', w')"
        by (elim exE conjE)
      show ?thesis
        apply (rule exI [of _ "p # pre"])
        apply (rule exI [of _ q])
        apply (rule exI [of _ post])
        apply (rule exI [of _ rsp2])
        apply (rule exI [of _ w2])
        using True c Some h apply simp
        done
    qed
  qed
qed

lemma tryPeersLoop_exhausted:
  assumes "tryPeersLoop env ctx request maxt peers (pf0, rsp, w) = (pf', Some e, rsp', w')"
  shows "e = Errorf ''call failed on all peers'' \<and>
         (\<exists>w1. failing_attempts env ctx request maxt (filter (isPeerAcceptable env) peers) (rsp, w) =
                  Some (rsp', w1) \<and>
                w' = emit (Log (LogNoPeers (Method request))) w1) \<and>
         (pf0 = None \<longrightarrow> pf' = None)"
  using assms
proof (induction peers arbitrary: pf0 rsp w)
  case Nil
  then show ?case by simp
next
  case (Cons p peers)
  show ?case
  proof (cases "isPeerAcceptable env p")
    case False
    with Cons.prems have "tryPeersLoop env ctx request maxt peers (pf0, rsp, w) = (pf', Some e, rsp', w')"
      by simp
    from Cons.IH [OF this] False show ?thesis by simp
  next
    case True
    let ?w = "emit (Log (LogTryingPeer (Method request) p)) w"
    obtain pf1 err1 rsp1 w1 where c: "call env ctx p request rsp maxt ?w = (pf1, err1, rsp1, w1)"
      by (rule prod_cases4)
    show ?thesis
    proof (cases err1)
      case None
      with c True Cons.prems show ?thesis by simp
    next
      case (Some e1)
      with call_handle_iff [OF c] have pf1: "pf1 = None" by simp
      from Some c True Cons.prems
      have "tryPeersLoop env ctx request maxt peers (pf1, rsp1, w1) = (pf', Some e, rsp', w')"
        by simp
      from Cons.IH [OF this] pf1 True c Some show ?thesis by simp
    qed
  qed
qed

lemma ends_with_reply_append:
  "ends_with_reply p es2 \<Longrightarrow> ends_with_reply p (es1 @ es2)"
  by (auto simp add: ends_with_reply_def split: list.splits)

lemma last_tried_append:
  "last_tried es2 = Some x \<Longrightarrow> last_tried (es1 @ es2) = Some x"
  by (auto simp add: last_tried_def split: list.splits)

lemma last_tried_snoc:
  "tried es2 = [] \<Longrightarrow> last_tried (es1 @ (t, Log (LogTryingPeer m p)) # es2) = Some (t, p)"
  by (simp add: last_tried_def)

lemma call_success:
  assumes "call env ctx p request rsp maxt w = (pf', None, rsp', w')"
  shows "pf' = Some \<lparr>peerID = p, latency = now w' - now w\<rparr> \<and>
         (\<exists>es. trace w' = trace w @ es \<and> tried es = [] \<and> pace es = [] \<and>
               pool_calls_of es = [] \<and> ends_with_reply p es)"
  using assms
proof (cases rule: call_cases)
  case succeeded
  from succeeded(2) show ?thesis
  proof (cases rule: attempt_cases)
    case (replied d0 d1 d2 raw)
    with succeeded show ?thesis by (simp add: ends_with_reply_def)
  qed (use succeeded in simp_all)
qed simp_all

text \<open>What one round leaves behind.\<close>

lemma tryPeers_round:
  assumes "tryPeers env ctx request maxt (pf0, rsp, w) = (pf', err', rsp', w')"
  shows "\<exists>es. trace w' = trace w @ es \<and> pace es = [(now w, None)] \<and> pool_calls_of es = [] \<and>
           (case err' of
              None \<Rightarrow>
                (\<exists>h. pf' = Some h \<and> ends_with_reply (peerID h) es \<and>
                     last_tried es = Some (now w' - latency h, peerID h))
            | Some e \<Rightarrow> e = Errorf ''call failed on all peers'' \<and> (pf0 = None \<longrightarrow> pf' = None))"
proof -
  let ?ps = "mgr_GetBestPeers env w"
  let ?w0 = "emit (Mgr (GetBestPeers ?ps)) w"
  from assms have loop: "tryPeersLoop env ctx request maxt ?ps (pf0, rsp, ?w0) = (pf', err', rsp', w')"
    by (simp add: tryPeers_def Let_def)
  show ?thesis
  proof (cases err')
    case None
    from tryPeersLoop_success [OF loop [unfolded None]] obtain pre p post rsp1 w1 where
      fa: "failing_attempts env ctx request maxt pre (rsp, ?w0) = Some (rsp1, w1)" and
      c: "call env ctx p request rsp1 maxt (emit (Log (LogTryingPeer (Method request) p)) w1) =
            (pf', None, rsp', w')"
      by (elim exE conjE)
    from failing_attempts_trace [OF fa] obtain es1 where
      es1: "trace w1 = trace ?w0 @ es1" "pace es1 = []" "pool_calls_of es1 = []"
      by (elim exE conjE)
    from call_success [OF c] obtain es2 where
      pf: "pf' = Some \<lparr>peerID = p, latency = now w' - now w1\<rparr>" and
      es2: "trace w' = trace (emit (Log (LogTryingPeer (Method request) p)) w1) @ es2"
        "tried es2 = []" "pace es2 = []" "pool_calls_of es2 = []" "ends_with_reply p es2"
      by (auto)
    let ?es = "(now w, Mgr (GetBestPeers ?ps)) # es1 @ (now w1, Log (LogTryingPeer (Method request) p)) # es2"
    have "trace w' = trace w @ ?es" using es1 es2 by simp
    moreover have "pace ?es = [(now w, None)]" using es1 es2 by simp
    moreover have "pool_calls_of ?es = []" using es1 es2 by simp
    moreover have "ends_with_reply p ?es"
      using ends_with_reply_append [OF es2(5), of "(now w, Mgr (GetBestPeers ?ps)) # es1 @ [(now w1, Log (LogTryingPeer (Method request) p))]"]
      by simp
    moreover have "last_tried ?es = Some (now w1, p)"
      using last_tried_snoc [OF es2(2), of "(now w, Mgr (GetBestPeers ?ps)) # es1"] by simp
    ultimately show ?thesis using None pf
      by (intro exI [of _ ?es]) simp
  next
    case (Some e)
    from tryPeersLoop_exhausted [OF loop [unfolded Some]] obtain w1 where
      e: "e = Errorf ''call failed on all peers''" and
      fa: "failing_attempts env ctx request maxt (filter (isPeerAcceptable env) ?ps) (rsp, ?w0) = Some (rsp', w1)" and
      w': "w' = emit (Log (LogNoPeers (Method request))) w1" and
      pf: "pf0 = None \<longrightarrow> pf' = None"
      by (elim exE conjE)
    from failing_attempts_trace [OF fa] obtain es1 where
      es1: "trace w1 = trace ?w0 @ es1" "pace es1 = []" "pool_calls_of es1 = []"
      by (elim exE conjE)
    let ?es = "(now w, Mgr (GetBestPeers ?ps)) # es1 @ [(now w1, Log (LogNoPeers (Method request)))]"
    have "trace w' = trace w @ ?es" using es1 w' by simp
    moreover have "pace ?es = [(now w, None)]" using es1 by simp
    moreover have "pool_calls_of ?es = []" using es1 by simp
    ultimately show ?thesis using Some e pf
      by (intro exI [of _ ?es]) simp
  qed
qed

subsection \<open>The retry loop\<close>

lemma await_timer_cases:
  assumes "await_timer ctx interval w = (interrupted, w')"
  shows "trace w' = trace w \<and>
         (if interrupted then ctx_Done ctx (now w')
          else now w' = now w + max 0 interval \<and> \<not> ctx_Done ctx (now w'))"
  using assms
  by (auto simp add: await_timer_def ctx_Done_def Let_def split: option.splits if_splits)


lemma backoff_Retry_rounds:
  assumes "backoff_Retry (tryPeers env ctx request maxt) interval n ctx (None, rsp, w) =
             (pf', err', rsp', w')"
  shows "\<exists>es. trace w' = trace w @ es \<and> pool_calls_of es = [] \<and>
           paced interval (pace es) \<and> hd (pace es) = (now w, None) \<and>
           length (rounds es) \<le> Suc n \<and>
           list_all (\<lambda>t. \<not> ctx_Done ctx t) (tl (rounds es)) \<and>
           (case err' of
              None \<Rightarrow>
                (\<exists>h. pf' = Some h \<and> ends_with_reply (peerID h) es \<and>
                     last_tried es = Some (now w' - latency h, peerID h))
            | Some e \<Rightarrow>
                pf' = None \<and>
                (e = Errorf ''call failed on all peers'' \<or>
                 e = done_err ctx \<and> ctx_Done ctx (now w')))"
  using assms
proof (induction n arbitrary: rsp w)
  case 0
  obtain pf1 err1 rsp1 w1 where
    r: "tryPeers env ctx request maxt (None, rsp, w) = (pf1, err1, rsp1, w1)"
    by (rule prod_cases4)
  from tryPeers_round [OF r] obtain es where
    es: "trace w1 = trace w @ es" "pace es = [(now w, None)]" "pool_calls_of es = []" and
    out: "case err1 of
              None \<Rightarrow>
                (\<exists>h. pf1 = Some h \<and> ends_with_reply (peerID h) es \<and>
                     last_tried es = Some (now w1 - latency h, peerID h))
            | Some e \<Rightarrow> e = Errorf ''call failed on all peers'' \<and> (None = (None :: peerFeedback option) \<longrightarrow> pf1 = None)"
    by (elim exE conjE)
  from "0.prems" r have res: "(pf', err', rsp', w') =
      (case err1 of None \<Rightarrow> (pf1, None, rsp1, w1)
       | Some e \<Rightarrow> if ctx_Done ctx (now w1) then (pf1, ctx_Err ctx (now w1), rsp1, w1)
                   else (pf1, Some e, rsp1, w1))"
    by simp
  have w': "w' = w1" and pf': "pf' = pf1"
    using res by (auto split: option.splits if_splits)
  have "case err' of
              None \<Rightarrow>
                (\<exists>h. pf' = Some h \<and> ends_with_reply (peerID h) es \<and>
                     last_tried es = Some (now w' - latency h, peerID h))
            | Some e \<Rightarrow>
                pf' = None \<and>
                (e = Errorf ''call failed on all peers'' \<or>
                 e = done_err ctx \<and> ctx_Done ctx (now w'))"
    using res out by (auto simp add: ctx_Err_def split: option.splits if_splits)
  with es w' show ?case
    by (intro exI [of _ es]) (simp add: rounds_def)
next
  case (Suc n)
  obtain pf1 err1 rsp1 w1 where
    r: "tryPeers env ctx request maxt (None, rsp, w) = (pf1, err1, rsp1, w1)"
    by (rule prod_cases4)
  from tryPeers_round [OF r] obtain es where
    es: "trace w1 = trace w @ es" "pace es = [(now w, None)]" "pool_calls_of es = []" and
    out: "case err1 of
              None \<Rightarrow>
                (\<exists>h. pf1 = Some h \<and> ends_with_reply (peerID h) es \<and>
                     last_tried es = Some (now w1 - latency h, peerID h))
            | Some e \<Rightarrow> e = Errorf ''call failed on all peers'' \<and> (None = (None :: peerFeedback option) \<longrightarrow> pf1 = None)"
    by (elim exE conjE)
  show ?case
  proof (cases err1)
    case None
    with Suc.prems r have res: "pf' = pf1" "err' = None" "rsp' = rsp1" "w' = w1"
      by simp_all
    with es out None show ?thesis
      by (intro exI [of _ es]) (simp add: rounds_def)
  next
    case (Some e)
    with out have e: "e = Errorf ''call failed on all peers''" and pf1: "pf1 = None"
      by simp_all
    show ?thesis
    proof (cases "ctx_Done ctx (now w1)")
      case True
      with Suc.prems r Some have res: "pf' = pf1" "err' = Some (done_err ctx)" "rsp' = rsp1" "w' = w1"
        by (simp_all add: ctx_Err_def)
      with es pf1 True show ?thesis
        by (intro exI [of _ es]) (simp add: rounds_def)
    next
      case False
      let ?wt = "emit (TimerStart interval) w1"
      obtain interrupted w2 where a: "await_timer ctx interval ?wt = (interrupted, w2)"
        by (rule prod.exhaust)
      from await_timer_cases [OF a] have tr2: "trace w2 = trace w1 @ [(now w1, TimerStart interval)]"
        and t2: "if interrupted then ctx_Done ctx (now w2)
          else now w2 = now w1 + max 0 interval \<and> \<not> ctx_Done ctx (now w2)"
        by (auto split: if_splits)
      show ?thesis
      proof (cases interrupted)
        case True
        with Suc.prems r Some False a t2
        have res: "pf' = pf1" "err' = Some (done_err ctx)" "rsp' = rsp1" "w' = w2"
          by (simp_all add: ctx_Err_def)
        let ?es = "es @ [(now w1, TimerStart interval)]"
        have "trace w' = trace w @ ?es" using es tr2 res by simp
        moreover have "pace ?es = [(now w, None), (now w1, Some interval)]" using es by simp
        moreover have "pool_calls_of ?es = []" using es by simp
        ultimately show ?thesis using res pf1 True t2
          by (intro exI [of _ ?es]) (simp add: rounds_def)
      next
        case nint: False
        with Suc.prems r Some False a
        have rec: "backoff_Retry (tryPeers env ctx request maxt) interval n ctx (None, rsp1, w2) =
             (pf', err', rsp', w')"
          by (simp add: pf1)
        from Suc.IH [OF rec] obtain es2 where
          es2: "trace w' = trace w2 @ es2" "pool_calls_of es2 = []"
           "paced interval (pace es2)" "hd (pace es2) = (now w2, None)"
           "length (rounds es2) \<le> Suc n"
           "list_all (\<lambda>t. \<not> ctx_Done ctx t) (tl (rounds es2))" and
          out2: "case err' of
              None \<Rightarrow>
                (\<exists>h. pf' = Some h \<and> ends_with_reply (peerID h) es2 \<and>
                     last_tried es2 = Some (now w' - latency h, peerID h))
            | Some e \<Rightarrow>
                pf' = None \<and>
                (e = Errorf ''call failed on all peers'' \<or>
                 e = done_err ctx \<and> ctx_Done ctx (now w'))"
          by (elim exE conjE)
        from es2(3,4) obtain xs where p2: "pace es2 = (now w2, None) # xs"
          by (cases "pace es2") auto
        from nint t2 have now2: "now w2 = now w1 + max 0 interval" "\<not> ctx_Done ctx (now w2)"
          by auto
        let ?es = "es @ (now w1, TimerStart interval) # es2"
        have tr: "trace w' = trace w @ ?es" using es tr2 es2 by simp
        have pc: "pool_calls_of ?es = []" using es es2 by simp
        have pe: "pace ?es = (now w, None) # (now w1, Some interval) # (now w2, None) # xs"
          using es p2 by simp
        have pd: "paced interval ((now w, None) # (now w1, Some interval) # (now w2, None) # xs)"
          using es2(3) p2 now2 by simp
        have rd: "rounds ?es = now w # rounds es2" using es by (simp add: rounds_def)
        have la: "list_all (\<lambda>t. \<not> ctx_Done ctx t) (rounds es2)"
          using es2(6) now2 p2 by (simp add: rounds_def)
        have out: "case err' of
              None \<Rightarrow>
                (\<exists>h. pf' = Some h \<and> ends_with_reply (peerID h) ?es \<and>
                     last_tried ?es = Some (now w' - latency h, peerID h))
            | Some e \<Rightarrow>
                pf' = None \<and>
                (e = Errorf ''call failed on all peers'' \<or>
                 e = done_err ctx \<and> ctx_Done ctx (now w'))"
          using out2 ends_with_reply_append [of _ es2 "es @ [(now w1, TimerStart interval)]"]
            last_tried_append [of es2 _ "es @ [(now w1, TimerStart interval)]"]
          by (auto split: option.splits)
        show ?thesis
          apply (rule exI [of _ ?es])
          apply (intro conjI)
          subgoal by (rule tr)
          subgoal by (rule pc)
          subgoal unfolding pe by (rule pd)
          subgoal unfolding pe by simp
          subgoal unfolding rd using es2(5) by simp
          subgoal unfolding rd using la by simp
          subgoal by (rule out)
          done
      qed
    qed
  qed
qed

lemma Call_summary:
  assumes "Call env ctx method body rsp maxt opts w = (pf', err', rsp', w')"
  shows "\<exists>es. new_events w w' = (now w, Log (LogCall method)) # es \<and> pool_calls_of es = [] \<and>
           paced (retryInterval (call_options opts)) (pace es) \<and> hd (pace es) = (now w, None) \<and>
           length (rounds es) \<le> Suc (maxRetries (call_options opts)) \<and>
           list_all (\<lambda>t. \<not> ctx_Done ctx t) (tl (rounds es)) \<and>
           (case err' of
              None \<Rightarrow>
                (\<exists>h. pf' = Some h \<and> ends_with_reply (peerID h) es \<and>
                     last_tried es = Some (now w' - latency h, peerID h))
            | Some e \<Rightarrow>
                pf' = None \<and>
                (e = Errorf ''call failed on all peers'' \<or>
                 0 < maxRetries (call_options opts) \<and> e = done_err ctx \<and> ctx_Done ctx (now w')))"
proof (cases "0 < maxRetries (call_options opts)")
  case True
  let ?w0 = "emit (Log (LogCall method)) w"
  from assms True have "backoff_Retry (tryPeers env ctx \<lparr>Method = method, Body = cbor_Marshal env body\<rparr> maxt)
      (retryInterval (call_options opts)) (maxRetries (call_options opts)) ctx (None, rsp, ?w0) =
      (pf', err', rsp', w')"
    by (simp add: Call_def Let_def)
  from backoff_Retry_rounds [OF this] obtain es where
    es: "trace w' = trace ?w0 @ es" "pool_calls_of es = []"
      "paced (retryInterval (call_options opts)) (pace es)" "hd (pace es) = (now ?w0, None)"
      "length (rounds es) \<le> Suc (maxRetries (call_options opts))"
      "list_all (\<lambda>t. \<not> ctx_Done ctx t) (tl (rounds es))" and
    out: "case err' of
              None \<Rightarrow>
                (\<exists>h. pf' = Some h \<and> ends_with_reply (peerID h) es \<and>
                     last_tried es = Some (now w' - latency h, peerID h))
            | Some e \<Rightarrow>
                pf' = None \<and>
                (e = Errorf ''call failed on all peers'' \<or>
                 e = done_err ctx \<and> ctx_Done ctx (now w'))"
    by (elim exE conjE)
  have ne: "new_events w w' = (now w, Log (LogCall method)) # es"
    using es(1) by (simp add: new_events_def)
  have out': "case err' of
              None \<Rightarrow>
                (\<exists>h. pf' = Some h \<and> ends_with_reply (peerID h) es \<and>
                     last_tried es = Some (now w' - latency h, peerID h))
            | Some e \<Rightarrow>
                pf' = None \<and>
                (e = Errorf ''call failed on all peers'' \<or>
                 0 < maxRetries (call_options opts) \<and> e = done_err ctx \<and> ctx_Done ctx (now w'))"
    using out True by (auto split: option.splits)
  show ?thesis
    apply (rule exI [of _ es])
    apply (intro conjI)
    subgoal by (rule ne)
    subgoal by (rule es(2))
    subgoal by (rule es(3))
    subgoal using es(4) by simp
    subgoal by (rule es(5))
    subgoal by (rule es(6))
    subgoal by (rule out')
    done
next
  case False
  let ?w0 = "emit (Log (LogCall method)) w"
  from assms False have "tryPeers env ctx \<lparr>Method = method, Body = cbor_Marshal env body\<rparr> maxt
      (None, rsp, ?w0) = (pf', err', rsp', w')"
    by (simp add: Call_def Let_def)
  from tryPeers_round [OF this] obtain es where
    es: "trace w' = trace ?w0 @ es" "pace es = [(now ?w0, None)]" "pool_calls_of es = []" and
    out: "case err' of
              None \<Rightarrow>
                (\<exists>h. pf' = Some h \<and> ends_with_reply (peerID h) es \<and>
                     last_tried es = Some (now w' - latency h, peerID h))
            | Some e \<Rightarrow> e = Errorf ''call failed on all peers'' \<and> (None = (None :: peerFeedback option) \<longrightarrow> pf' = None)"
    by (elim exE conjE)
  have ne: "new_events w w' = (now w, Log (LogCall method)) # es"
    using es(1) by (simp add: new_events_def)
  have out': "case err' of
              None \<Rightarrow>
                (\<exists>h. pf' = Some h \<and> ends_with_reply (peerID h) es \<and>
                     last_tried es = Some (now w' - latency h, peerID h))
            | Some e \<Rightarrow>
                pf' = None \<and>
                (e = Errorf ''call failed on all peers'' \<or>
                 0 < maxRetries (call_options opts) \<and> e = done_err ctx \<and> ctx_Done ctx (now w'))"
    using out by (auto split: option.splits)
  show ?thesis
    apply (rule exI [of _ es])
    apply (intro conjI)
    subgoal by (rule ne)
    subgoal by (rule es(3))
    subgoal unfolding es(2) by simp
    subgoal unfolding es(2) by simp
    subgoal unfolding rounds_def es(2) by simp
    subgoal unfolding rounds_def es(2) by simp
    subgoal by (rule out')
    done
qed


subsection \<open>Call\<close>

lemmas run_defs = demo_call_def demo_round_def Call_def tryPeers_def call_options_def
  WithMaxRetries_def WithRetryInterval_def await_timer_def last_tried_def ends_with_reply_def
  rounds_def world_at_def

lemma ends_with_reply_Cons: "ends_with_reply p es \<Longrightarrow> ends_with_reply p (e # es)"
  using ends_with_reply_append [of p es "[e]"] by simp

lemma last_tried_Cons: "last_tried es = Some x \<Longrightarrow> last_tried (e # es) = Some x"
  using last_tried_append [of es x "[e]"] by simp

text \<open>
  C10. \<^verbatim>\<open>Call\<close> returns a feedback handle exactly when it returns no error. A returned
  handle is bound to the peer that was tried last, the attempt on that peer is the
  last thing in the trace and ended with a response read from it, and the latency of
  the handle is the time from the start of that attempt to the return. Every error,
  exhaustion or cancellation, in whatever round, comes with a nil handle.
\<close>

theorem Call_handle_iff_no_error:
  assumes "Call env ctx method body rsp maxt opts w = (pf', err', rsp', w')"
  shows "(pf' \<noteq> None \<longleftrightarrow> err' = None) \<and>
         (\<forall>h. pf' = Some h \<longrightarrow>
            ends_with_reply (peerID h) (new_events w w') \<and>
            last_tried (new_events w w') = Some (now w' - latency h, peerID h))"
proof -
  from Call_summary [OF assms] obtain es where
    ne: "new_events w w' = (now w, Log (LogCall method)) # es" and
    out: "case err' of
              None \<Rightarrow>
                (\<exists>h. pf' = Some h \<and> ends_with_reply (peerID h) es \<and>
                     last_tried es = Some (now w' - latency h, peerID h))
            | Some e \<Rightarrow>
                pf' = None \<and>
                (e = Errorf ''call failed on all peers'' \<or>
                 0 < maxRetries (call_options opts) \<and> e = done_err ctx \<and> ctx_Done ctx (now w'))"
    by (elim exE conjE)
  show ?thesis
  proof (cases err')
    case None
    with out obtain h where h: "pf' = Some h" "ends_with_reply (peerID h) es"
      "last_tried es = Some (now w' - latency h, peerID h)"
      by auto
    from h(2) have "ends_with_reply (peerID h) (new_events w w')"
      unfolding ne by (rule ends_with_reply_Cons)
    moreover from h(3) have "last_tried (new_events w w') = Some (now w' - latency h, peerID h)"
      unfolding ne by (rule last_tried_Cons)
    ultimately show ?thesis using None h(1) by simp
  next
    case (Some e)
    with out show ?thesis by simp
  qed
qed

theorem Call_handle_iff_no_error_witness:
  "fst (demo_call [''A'', ''X'', ''C'', ''B'', ''W''] never_done [] world0) =
     Some \<lparr>peerID = ''B'', latency = 1000000000\<rparr> \<and>
   fst (snd (demo_call [''A'', ''X'', ''C'', ''B'', ''W''] never_done [] world0)) = None \<and>
   ends_with_reply ''B'' (new_events world0
     (snd (snd (snd (demo_call [''A'', ''X'', ''C'', ''B'', ''W''] never_done [] world0))))) \<and>
   last_tried (new_events world0
     (snd (snd (snd (demo_call [''A'', ''X'', ''C'', ''B'', ''W''] never_done [] world0))))) =
     Some (3000000000, ''B'') \<and>
   fst (demo_call [''A'', ''C''] never_done [WithMaxRetries 2] world0) = None \<and>
   fst (snd (demo_call [''A'', ''C''] never_done [WithMaxRetries 2] world0)) =
     Some (Errorf ''call failed on all peers'')"
proof -
  obtain pf err rsp' w' where
    a: "Call (demo_env [''A'', ''X'', ''C'', ''B'', ''W'']) never_done ''echo'' [7, 8] (Some []) Second [] world0 =
          (pf, err, rsp', w')"
    by (rule prod_cases4)
  have pf: "pf = Some \<lparr>peerID = ''B'', latency = 1000000000\<rparr>" and now: "now w' = 4000000000"
    using a by (auto simp add: demo_defs run_defs)
  from Call_handle_iff_no_error [OF a] pf now
  have A: "err = None \<and> ends_with_reply ''B'' (new_events world0 w') \<and>
      last_tried (new_events world0 w') = Some (3000000000, ''B'')"
    by simp
  obtain pf2 err2 rsp2 w2 where
    b: "Call (demo_env [''A'', ''C'']) never_done ''echo'' [7, 8] (Some []) Second [WithMaxRetries 2] world0 =
          (pf2, err2, rsp2, w2)"
    by (rule prod_cases4)
  have err2: "err2 = Some (Errorf ''call failed on all peers'')"
    using b by (auto simp add: demo_defs run_defs numeral_2_eq_2)
  from Call_handle_iff_no_error [OF b] err2 have B: "pf2 = None" by simp
  show ?thesis
    unfolding demo_call_def a b using pf A B err2 by simp
qed

text \<open>
  C2, as the code has it. When \<^verbatim>\<open>Call\<close> fails, its error is the fixed error "call failed
  on all peers" of line 440, or, on the retry path with the context done, the error of
  the context. It wraps nothing: no application error that a peer returned is in it,
  and so it cannot be taken for one.
\<close>

theorem Call_exhaustion_error:
  assumes "Call env ctx method body rsp maxt opts w = (pf', Some e, rsp', w')"
      and "done_err ctx = Canceled \<or> done_err ctx = DeadlineExceeded"
  shows "(e = Errorf ''call failed on all peers'' \<or>
          0 < maxRetries (call_options opts) \<and> e = done_err ctx \<and> ctx_Done ctx (now w')) \<and>
         (\<forall>m c msg. \<not> errors_Is e (CodedError m c msg))"
proof -
  from Call_summary [OF assms(1)] have
    "e = Errorf ''call failed on all peers'' \<or>
     0 < maxRetries (call_options opts) \<and> e = done_err ctx \<and> ctx_Done ctx (now w')"
    by auto
  with assms(2) show ?thesis by auto
qed

theorem Call_exhaustion_error_witness:
  "fst (snd (demo_call [''A'', ''C''] never_done [] world0)) =
     Some (Errorf ''call failed on all peers'') \<and>
   \<not> errors_Is (Errorf ''call failed on all peers'') (CodedError ''storage'' 3 ''not found'') \<and>
   fst (snd (demo_call [''A'', ''C''] (canceled_at 3500000000) [WithMaxRetries 2] world0)) =
     Some Canceled \<and>
   ctx_Done (canceled_at 3500000000)
     (now (snd (snd (snd (demo_call [''A'', ''C''] (canceled_at 3500000000) [WithMaxRetries 2] world0)))))"
proof -
  obtain pf rsp' w' where
    a: "Call (demo_env [''A'', ''C'']) never_done ''echo'' [7, 8] (Some []) Second [] world0 =
          (pf, Some (Errorf ''call failed on all peers''), rsp', w')"
    by (simp add: demo_defs run_defs)
  have h: "done_err never_done = Canceled \<or> done_err never_done = DeadlineExceeded"
    by (simp add: never_done_def)
  from Call_exhaustion_error [OF a h]
  have A: "\<not> errors_Is (Errorf ''call failed on all peers'') (CodedError ''storage'' 3 ''not found'')"
    by blast
  obtain pf2 rsp2 w2 where
    b: "Call (demo_env [''A'', ''C'']) (canceled_at 3500000000) ''echo'' [7, 8] (Some []) Second
          [WithMaxRetries 2] world0 = (pf2, Some Canceled, rsp2, w2)"
    by (simp add: demo_defs run_defs numeral_2_eq_2)
  have h2: "done_err (canceled_at 3500000000) = Canceled \<or>
      done_err (canceled_at 3500000000) = DeadlineExceeded"
    by (simp add: canceled_at_def)
  from Call_exhaustion_error [OF b h2]
  have B: "ctx_Done (canceled_at 3500000000) (now w2)"
    by simp
  show ?thesis
    unfolding demo_call_def a b using A B by simp
qed

text \<open>
  The claim puts the last application error that was observed into the error of
  exhaustion. Peer \<open>C\<close> answers with the error (storage, 3, "not found"), which the
  attempt logs; the error of the call does not contain it.
\<close>

theorem Call_exhaustion_drops_application_error:
  "fst (snd (demo_call [''C''] never_done [] world0)) = Some (Errorf ''call failed on all peers'') \<and>
   (1000000000, Log (LogFailedToCall (CodedError ''storage'' 3 ''not found'') ''echo'' ''C''))
     \<in> set (trace (snd (snd (snd (demo_call [''C''] never_done [] world0))))) \<and>
   \<not> errors_Is (Errorf ''call failed on all peers'') (CodedError ''storage'' 3 ''not found'')"
  by (simp add: demo_defs run_defs)

text \<open>
  C3, as the code has it. The first round is always made, at the instant of the call;
  rounds and timers alternate, every timer runs for \<open>retryInterval\<close>, and the next
  round begins when its timer fires; there are at most \<open>maxRetries + 1\<close> rounds; no
  round but the first begins with the context done. The defaults are no retry and one
  second. An attempt made with the context done returns the error of the context and
  does nothing else.
\<close>

theorem Call_rounds_bounded:
  assumes "Call env ctx method body rsp maxt opts w = (pf', err', rsp', w')"
  shows "paced (retryInterval (call_options opts)) (pace (new_events w w')) \<and>
         rounds (new_events w w') \<noteq> [] \<and>
         hd (rounds (new_events w w')) = now w \<and>
         length (rounds (new_events w w')) \<le> maxRetries (call_options opts) + 1 \<and>
         list_all (\<lambda>t. \<not> ctx_Done ctx t) (tl (rounds (new_events w w'))) \<and>
         call_options [] = \<lparr>retryInterval = 1000000000, maxRetries = 0\<rparr> \<and>
         (\<forall>n. call_options [WithMaxRetries n] = \<lparr>retryInterval = 1000000000, maxRetries = n\<rparr>) \<and>
         (\<forall>p request r w1. ctx_Done ctx (now w1) \<longrightarrow>
            call env ctx p request r maxt w1 = (None, Some (done_err ctx), r, w1))"
proof -
  from Call_summary [OF assms] obtain es where
    ne: "new_events w w' = (now w, Log (LogCall method)) # es" and
    es: "paced (retryInterval (call_options opts)) (pace es)" "hd (pace es) = (now w, None)"
      "length (rounds es) \<le> Suc (maxRetries (call_options opts))"
      "list_all (\<lambda>t. \<not> ctx_Done ctx t) (tl (rounds es))"
    by (elim exE conjE)
  from es(1,2) obtain xs where xs: "pace es = (now w, None) # xs"
    by (cases "pace es") auto
  have p: "pace (new_events w w') = pace es" and r: "rounds (new_events w w') = rounds es"
    unfolding ne by (simp_all add: rounds_def)
  have r2: "rounds es = now w # tl (rounds es)"
    using xs by (simp add: rounds_def)
  show ?thesis
    unfolding p r
    apply (intro conjI)
    subgoal by (rule es(1))
    subgoal using r2 by auto
    subgoal using r2 by (metis list.sel(1))
    subgoal using es(3) by simp
    subgoal by (rule es(4))
    subgoal by (simp add: call_options_def DefaultCallRetryInterval_def Second_def)
    subgoal by (simp add: call_options_def WithMaxRetries_def DefaultCallRetryInterval_def Second_def)
    subgoal by (simp add: call_def ctx_Err_def)
    done
qed

theorem Call_rounds_bounded_witness:
  "pace (new_events world0
     (snd (snd (snd (demo_call [''A'', ''C''] never_done [WithMaxRetries 2] world0))))) =
     [(0, None), (3000000000, Some 1000000000), (4000000000, None),
      (7000000000, Some 1000000000), (8000000000, None)] \<and>
   paced 1000000000 (pace (new_events world0
     (snd (snd (snd (demo_call [''A'', ''C''] never_done [WithMaxRetries 2] world0)))))) \<and>
   length (rounds (new_events world0
     (snd (snd (snd (demo_call [''A'', ''C''] never_done [WithMaxRetries 2] world0)))))) \<le> 3 \<and>
   ctx_Done (canceled_at 3) (now (world_at 10)) \<and>
   call (demo_env [''A'', ''C'']) (canceled_at 3) ''B'' echo (Some []) Second (world_at 10) =
     (None, Some Canceled, Some [], world_at 10)"
proof -
  obtain pf err rsp' w' where
    a: "Call (demo_env [''A'', ''C'']) never_done ''echo'' [7, 8] (Some []) Second [WithMaxRetries 2] world0 =
          (pf, err, rsp', w')"
    by (rule prod_cases4)
  have p: "pace (new_events world0 w') =
     [(0, None), (3000000000, Some 1000000000), (4000000000, None),
      (7000000000, Some 1000000000), (8000000000, None)]"
    using a by (auto simp add: demo_defs run_defs numeral_2_eq_2)
  have o: "call_options [WithMaxRetries 2] = \<lparr>retryInterval = 1000000000, maxRetries = 2\<rparr>"
    by (simp add: call_options_def WithMaxRetries_def DefaultCallRetryInterval_def Second_def)
  note T = Call_rounds_bounded [OF a, unfolded o]
  from T have A: "paced 1000000000 (pace (new_events world0 w'))"
    and B: "length (rounds (new_events world0 w')) \<le> 3"
    by simp_all
  obtain pf2 err2 rsp2 w2 where
    b: "Call (demo_env [''A'', ''C'']) (canceled_at 3) ''echo'' [7, 8] (Some []) Second [] (world_at 10) =
          (pf2, err2, rsp2, w2)"
    by (rule prod_cases4)
  have d: "ctx_Done (canceled_at 3) (now (world_at 10))"
    by (simp add: ctx_Done_def canceled_at_def world_at_def)
  from Call_rounds_bounded [OF b] d
  have C: "call (demo_env [''A'', ''C'']) (canceled_at 3) ''B'' echo (Some []) Second (world_at 10) =
     (None, Some (done_err (canceled_at 3)), Some [], world_at 10)"
    by blast
  show ?thesis
    unfolding demo_call_def a using p A B C d by (simp add: canceled_at_def)
qed

text \<open>
  The claim has no round attempted after the context was cancelled. A call made at
  instant 10 with a context cancelled at instant 3 fetches the ranking and goes through
  it once all the same, and reports exhaustion.
\<close>

theorem Call_round_after_cancel:
  "ctx_Done (canceled_at 3) 10 \<and>
   rounds (new_events (world_at 10)
     (snd (snd (snd (demo_call [''A'', ''C''] (canceled_at 3) [] (world_at 10)))))) = [10] \<and>
   tried (new_events (world_at 10)
     (snd (snd (snd (demo_call [''A'', ''C''] (canceled_at 3) [] (world_at 10)))))) =
     [(10, ''A''), (10, ''C'')] \<and>
   fst (snd (demo_call [''A'', ''C''] (canceled_at 3) [] (world_at 10))) =
     Some (Errorf ''call failed on all peers'')"
  by (simp add: demo_defs run_defs)

subsection \<open>One round\<close>

lemma feedback_actions:
  "new_events w (RecordSuccess h w) = [(now w, Mgr (MgrRecordSuccess (peerID h) (latency h)))]"
  "new_events w (RecordFailure h w) = [(now w, Mgr (MgrRecordFailure (peerID h) (latency h)))]"
  "new_events w (RecordBadPeer h w) = [(now w, Mgr (MgrRecordBadPeer (peerID h)))]"
  by (simp_all add: RecordSuccess_def RecordFailure_def RecordBadPeer_def new_events_def)

text \<open>
  C4, as the code has it. A round that succeeds has split the accepted peers of the
  ranking, in the order of the ranking, into those tried before, whose attempts all
  failed, the peer whose attempt succeeded, and the rest, which were not tried. The
  handle is bound to that peer and to the time its attempt took. \<^verbatim>\<open>RecordSuccess\<close> and
  \<^verbatim>\<open>RecordFailure\<close> of the handle give the peer manager that peer and that latency;
  \<^verbatim>\<open>RecordBadPeer\<close> gives it that peer. A round that fails has tried every accepted
  peer, in order, and every attempt failed.
\<close>

theorem round_first_success:
  assumes "tryPeers env ctx request maxt (pf0, rsp, w) = (pf', err', rsp', w')"
  shows "(err' = None \<longrightarrow>
           (\<exists>pre post rsp1 w1 h.
              pf' = Some h \<and>
              filter (isPeerAcceptable env) (mgr_GetBestPeers env w) = pre @ peerID h # post \<and>
              failing_attempts env ctx request maxt pre
                (rsp, emit (Mgr (GetBestPeers (mgr_GetBestPeers env w))) w) = Some (rsp1, w1) \<and>
              call env ctx (peerID h) request rsp1 maxt
                (emit (Log (LogTryingPeer (Method request) (peerID h))) w1) = (pf', None, rsp', w') \<and>
              map snd (tried (new_events w w')) = pre @ [peerID h] \<and>
              last_tried (new_events w w') = Some (now w1, peerID h) \<and>
              latency h = now w' - now w1 \<and>
              ends_with_reply (peerID h) (new_events w w') \<and>
              (\<forall>w2. new_events w2 (RecordSuccess h w2) =
                       [(now w2, Mgr (MgrRecordSuccess (peerID h) (now w' - now w1)))] \<and>
                    new_events w2 (RecordFailure h w2) =
                       [(now w2, Mgr (MgrRecordFailure (peerID h) (now w' - now w1)))] \<and>
                    new_events w2 (RecordBadPeer h w2) =
                       [(now w2, Mgr (MgrRecordBadPeer (peerID h)))]))) \<and>
         (err' \<noteq> None \<longrightarrow>
            err' = Some (Errorf ''call failed on all peers'') \<and>
            map snd (tried (new_events w w')) =
              filter (isPeerAcceptable env) (mgr_GetBestPeers env w) \<and>
            (\<exists>w1. failing_attempts env ctx request maxt
                     (filter (isPeerAcceptable env) (mgr_GetBestPeers env w))
                     (rsp, emit (Mgr (GetBestPeers (mgr_GetBestPeers env w))) w) = Some (rsp', w1)))"
proof -
  let ?ps = "mgr_GetBestPeers env w"
  let ?w0 = "emit (Mgr (GetBestPeers ?ps)) w"
  from assms have loop: "tryPeersLoop env ctx request maxt ?ps (pf0, rsp, ?w0) = (pf', err', rsp', w')"
    by (simp add: tryPeers_def Let_def)
  show ?thesis
  proof (cases err')
    case None
    from tryPeersLoop_success [OF loop [unfolded None]] obtain pre p post rsp1 w1 where
      f: "filter (isPeerAcceptable env) ?ps = pre @ p # post" and
      fa: "failing_attempts env ctx request maxt pre (rsp, ?w0) = Some (rsp1, w1)" and
      c: "call env ctx p request rsp1 maxt (emit (Log (LogTryingPeer (Method request) p)) w1) =
            (pf', None, rsp', w')"
      by (elim exE conjE)
    from failing_attempts_trace [OF fa] obtain es1 where
      es1: "trace w1 = trace ?w0 @ es1" "map snd (tried es1) = pre"
      by (elim exE conjE)
    from call_success [OF c] obtain es2 where
      pf: "pf' = Some \<lparr>peerID = p, latency = now w' - now w1\<rparr>" and
      es2: "trace w' = trace (emit (Log (LogTryingPeer (Method request) p)) w1) @ es2"
        "tried es2 = []" "ends_with_reply p es2"
      by auto
    let ?h = "\<lparr>peerID = p, latency = now w' - now w1\<rparr>"
    let ?es = "(now w, Mgr (GetBestPeers ?ps)) # es1 @ (now w1, Log (LogTryingPeer (Method request) p)) # es2"
    have ne: "new_events w w' = ?es" using es1 es2 by (simp add: new_events_def)
    have t: "map snd (tried ?es) = pre @ [p]" using es1 es2 by simp
    have lt: "last_tried ?es = Some (now w1, p)"
      using last_tried_snoc [OF es2(2), of "(now w, Mgr (GetBestPeers ?ps)) # es1"] by simp
    have er: "ends_with_reply p ?es"
      using ends_with_reply_append [OF es2(3), of "(now w, Mgr (GetBestPeers ?ps)) # es1 @ [(now w1, Log (LogTryingPeer (Method request) p))]"]
      by simp
    have "\<exists>pre post rsp1 w1 h.
              pf' = Some h \<and>
              filter (isPeerAcceptable env) (mgr_GetBestPeers env w) = pre @ peerID h # post \<and>
              failing_attempts env ctx request maxt pre
                (rsp, emit (Mgr (GetBestPeers (mgr_GetBestPeers env w))) w) = Some (rsp1, w1) \<and>
              call env ctx (peerID h) request rsp1 maxt
                (emit (Log (LogTryingPeer (Method request) (peerID h))) w1) = (pf', None, rsp', w') \<and>
              map snd (tried (new_events w w')) = pre @ [peerID h] \<and>
              last_tried (new_events w w') = Some (now w1, peerID h) \<and>
              latency h = now w' - now w1 \<and>
              ends_with_reply (peerID h) (new_events w w') \<and>
              (\<forall>w2. new_events w2 (RecordSuccess h w2) =
                       [(now w2, Mgr (MgrRecordSuccess (peerID h) (now w' - now w1)))] \<and>
                    new_events w2 (RecordFailure h w2) =
                       [(now w2, Mgr (MgrRecordFailure (peerID h) (now w' - now w1)))] \<and>
                    new_events w2 (RecordBadPeer h w2) =
                       [(now w2, Mgr (MgrRecordBadPeer (peerID h)))])"
      apply (rule exI [of _ pre])
      apply (rule exI [of _ post])
      apply (rule exI [of _ rsp1])
      apply (rule exI [of _ w1])
      apply (rule exI [of _ ?h])
      unfolding ne
      apply (intro conjI allI)
      subgoal by (rule pf)
      subgoal using f by simp
      subgoal by (rule fa)
      subgoal using c by simp
      subgoal using t by simp
      subgoal using lt by simp
      subgoal by simp
      subgoal using er by simp
      subgoal using feedback_actions(1) [of _ ?h] by simp
      subgoal using feedback_actions(2) [of _ ?h] by simp
      subgoal using feedback_actions(3) [of _ ?h] by simp
      done
    with None show ?thesis by simp
  next
    case (Some e)
    from tryPeersLoop_exhausted [OF loop [unfolded Some]] obtain w1 where
      e: "e = Errorf ''call failed on all peers''" and
      fa: "failing_attempts env ctx request maxt (filter (isPeerAcceptable env) ?ps) (rsp, ?w0) = Some (rsp', w1)" and
      w': "w' = emit (Log (LogNoPeers (Method request))) w1"
      by (elim exE conjE)
    from failing_attempts_trace [OF fa] obtain es1 where
      es1: "trace w1 = trace ?w0 @ es1" "map snd (tried es1) = filter (isPeerAcceptable env) ?ps"
      by (elim exE conjE)
    have "new_events w w' =
        (now w, Mgr (GetBestPeers ?ps)) # es1 @ [(now w1, Log (LogNoPeers (Method request)))]"
      using es1 w' by (simp add: new_events_def)
    then have "map snd (tried (new_events w w')) = filter (isPeerAcceptable env) ?ps"
      using es1 by simp
    with Some e fa show ?thesis by auto
  qed
qed

theorem round_first_success_witness:
  "fst (demo_round [''A'', ''X'', ''C'', ''B'', ''W''] never_done world0) =
     Some \<lparr>peerID = ''B'', latency = 1000000000\<rparr> \<and>
   map snd (tried (new_events world0
     (snd (snd (snd (demo_round [''A'', ''X'', ''C'', ''B'', ''W''] never_done world0)))))) =
     [''A'', ''C'', ''B''] \<and>
   ends_with_reply ''B'' (new_events world0
     (snd (snd (snd (demo_round [''A'', ''X'', ''C'', ''B'', ''W''] never_done world0))))) \<and>
   map snd (tried (new_events world0
     (snd (snd (snd (demo_round [''A'', ''X'', ''C'', ''D'', ''E''] never_done world0)))))) =
     [''A'', ''C'', ''D'', ''E'']"
proof -
  obtain pf err rsp' w' where
    a: "tryPeers (demo_env [''A'', ''X'', ''C'', ''B'', ''W'']) never_done echo Second
          (None, Some [], world0) = (pf, err, rsp', w')"
    by (rule prod_cases4)
  have pf: "pf = Some \<lparr>peerID = ''B'', latency = 1000000000\<rparr>" and err: "err = None"
    and t: "map snd (tried (new_events world0 w')) = [''A'', ''C'', ''B'']"
    using a by (auto simp add: demo_defs run_defs)
  from round_first_success [OF a] err obtain h where "pf = Some h" "ends_with_reply (peerID h) (new_events world0 w')"
    by auto
  with pf have A: "ends_with_reply ''B'' (new_events world0 w')" by simp
  obtain pf2 err2 rsp2 w2 where
    b: "tryPeers (demo_env [''A'', ''X'', ''C'', ''D'', ''E'']) never_done echo Second
          (None, Some [], world0) = (pf2, err2, rsp2, w2)"
    by (rule prod_cases4)
  have err2: "err2 \<noteq> None"
    using b by (auto simp add: demo_defs run_defs)
  have f: "filter (isPeerAcceptable (demo_env [''A'', ''X'', ''C'', ''D'', ''E'']))
      (mgr_GetBestPeers (demo_env [''A'', ''X'', ''C'', ''D'', ''E'']) world0) = [''A'', ''C'', ''D'', ''E'']"
    by (simp add: demo_env_def isPeerAcceptable_def)
  from round_first_success [OF b] err2 have B: "map snd (tried (new_events world0 w2)) = [''A'', ''C'', ''D'', ''E'']"
    unfolding f by simp
  show ?thesis
    unfolding demo_round_def a b using pf t A B by simp
qed

text \<open>
  The claim has each of the three actions commit the peer and the latency. Two handles
  for one peer with different latencies commit the same with \<^verbatim>\<open>RecordBadPeer\<close>: the
  peer alone.
\<close>

theorem RecordBadPeer_ignores_latency:
  "RecordBadPeer \<lparr>peerID = ''B'', latency = 1000000000\<rparr> world0 =
     RecordBadPeer \<lparr>peerID = ''B'', latency = 2000000000\<rparr> world0 \<and>
   new_events world0 (RecordBadPeer \<lparr>peerID = ''B'', latency = 1000000000\<rparr> world0) =
     [(0, Mgr (MgrRecordBadPeer ''B''))]"
  by (simp add: RecordBadPeer_def world0_def emit_def new_events_def)

subsection \<open>CallMulti\<close>

lemma select_ctx_done:
  "select_ctx_or_chan ctx tie t t_ch = (True, t') \<Longrightarrow> ctx_Err ctx t' = Some (done_err ctx)"
  by (auto simp add: select_ctx_or_chan_def ctx_Err_def ctx_Done_def Let_def
      split: option.splits if_splits)

lemma select_never_done:
  "done_at ctx = None \<Longrightarrow> fst (select_ctx_or_chan ctx tie t t_ch) = False"
  by (simp add: select_ctx_or_chan_def)

lemma sent_simps [simp]:
  "sent [] = []"
  "sent (None # chs) = sent chs"
  "sent (Some (r, t) # chs) = r # sent chs"
  by (simp_all add: sent_def map_filter_simps)

lemma ctx_taken_never_done:
  "done_at ctx = None \<Longrightarrow> \<not> ctx_taken ctx sch n t chs"
proof (induction chs arbitrary: n t)
  case Nil
  show ?case by simp
next
  case (Cons ch chs)
  show ?case
  proof (cases ch)
    case None
    with Cons.prems show ?thesis by simp
  next
    case (Some x)
    obtain r t_ch where x: "x = (r, t_ch)" by (cases x)
    obtain b t' where s: "select_ctx_or_chan ctx (tie_ctx sch n) t t_ch = (b, t')"
      by (rule prod.exhaust)
    with select_never_done [OF Cons.prems, of "tie_ctx sch n" t t_ch] have "b = False" by simp
    with Cons Some x s show ?thesis by simp
  qed
qed

lemma gather_result:
  "gather ctx sch n chs (rsps, pfs, w) = Some (rsps', pfs', err, w') \<Longrightarrow>
     trace w' = trace w \<and>
     (if ctx_taken ctx sch n (now w) chs
      then rsps' = [] \<and> pfs' = [] \<and> err = Some (done_err ctx)
      else rsps' = rsps @ map res_rsp (filter succeeded (sent chs)) \<and>
           pfs' = pfs @ map res_pf (filter succeeded (sent chs)) \<and> err = None \<and>
           length (sent chs) = length chs)"
proof (induction chs arbitrary: n rsps pfs w)
  case Nil
  then show ?case by simp
next
  case (Cons ch chs)
  show ?case
  proof (cases ch)
    case None
    with Cons.prems show ?thesis
      by (auto simp add: ctx_Err_def ctx_Done_def split: option.splits)
  next
    case (Some x)
    obtain r t_ch where x: "x = (r, t_ch)" by (cases x)
    note ch = Some [unfolded x]
    obtain b t' where s: "select_ctx_or_chan ctx (tie_ctx sch n) (now w) t_ch = (b, t')"
      by (rule prod.exhaust)
    show ?thesis
    proof (cases b)
      case True
      with Cons.prems ch s select_ctx_done [of ctx "tie_ctx sch n" "now w" t_ch t']
      show ?thesis by auto
    next
      case False
      show ?thesis
      proof (cases "res_err r")
        case None
        with Cons.prems ch s False
        have g: "gather ctx sch (Suc n) chs (rsps @ [res_rsp r], pfs @ [res_pf r], w\<lparr>now := t'\<rparr>) =
            Some (rsps', pfs', err, w')"
          by simp
        from None have sr: "succeeded r" by (simp add: succeeded_def)
        from Cons.IH [OF g] sr ch s False show ?thesis by simp
      next
        case (Some e)
        with Cons.prems ch s False
        have g: "gather ctx sch (Suc n) chs (rsps, pfs, w\<lparr>now := t'\<rparr>) = Some (rsps', pfs', err, w')"
          by simp
        from Some have sr: "\<not> succeeded r" by (simp add: succeeded_def)
        from Cons.IH [OF g] sr ch s False show ?thesis by simp
      qed
    qed
  qed
qed

lemma gather_returns:
  assumes "(\<forall>ch \<in> set chs. ch \<noteq> None) \<or> done_at ctx \<noteq> None"
  shows "gather ctx sch n chs (rsps, pfs, w) \<noteq> None"
  using assms
proof (induction chs arbitrary: n rsps pfs w)
  case Nil
  show ?case by simp
next
  case (Cons ch chs)
  show ?case
  proof (cases ch)
    case None
    with Cons.prems show ?thesis by (auto split: option.splits)
  next
    case (Some x)
    obtain r t_ch where x: "x = (r, t_ch)" by (cases x)
    obtain b t' where s: "select_ctx_or_chan ctx (tie_ctx sch n) (now w) t_ch = (b, t')"
      by (rule prod.exhaust)
    from Cons.prems have p: "(\<forall>ch \<in> set chs. ch \<noteq> None) \<or> done_at ctx \<noteq> None"
      by auto
    from Cons.IH [OF p] Some x s show ?thesis
      by (cases b; cases "res_err r") simp_all
  qed
qed

lemma length_filter_update:
  "i < length xs \<Longrightarrow>
     length (filter P (xs[i := y])) + (if P (xs ! i) then 1 else 0) =
     length (filter P xs) + (if P y then 1 else 0)"
proof (induction xs arbitrary: i)
  case Nil
  then show ?case by simp
next
  case (Cons x xs)
  then show ?case by (cases i) auto
qed

lemma pool_Submit_cases:
  assumes "pool_Submit sch n ts job p = (ch, p')"
  obtains
    (no_worker) "workers p = []" "ch = None" "p' = p"
  | (run) i start r busy where "workers p \<noteq> []" "i < length (workers p)"
      "now (workers p ! i) \<le> start" "ts \<le> start"
      "job ((workers p ! i)\<lparr>now := start\<rparr>) = (r, busy)"
      "ch = Some (r, now busy)"
      "workers p' = (workers p)[i := busy\<lparr>now := max start (now busy)\<rparr>]"
      "runs p' = runs p @ [(i, start, now busy)]"
proof (cases "workers p = []")
  case True
  with assms have "ch = None" "p' = p" by (simp_all add: pool_Submit_def)
  with True show ?thesis by (rule no_worker)
next
  case False
  let ?i = "worker_of sch n mod length (workers p)"
  let ?start = "max (max ts (taken_at sch n)) (now (workers p ! ?i))"
  obtain r busy where j: "job ((workers p ! ?i)\<lparr>now := ?start\<rparr>) = (r, busy)"
    by (rule prod.exhaust)
  from False have i: "?i < length (workers p)" by simp
  show ?thesis
    apply (rule run [of ?i ?start r busy])
    subgoal by (rule False)
    subgoal by (rule i)
    subgoal by simp
    subgoal by simp
    subgoal by (rule j)
    subgoal using assms False j by (auto simp add: pool_Submit_def Let_def)
    subgoal using assms False j by (auto simp add: pool_Submit_def Let_def)
    subgoal using assms False j by (auto simp add: pool_Submit_def Let_def)
    done
qed

lemma pool_Submit_bound:
  assumes "length (in_flight t p) \<le> busy_workers t p"
      and "pool_Submit sch n ts job p = (ch, p')"
  shows "length (in_flight t p') \<le> busy_workers t p'"
  using assms(2)
proof (cases rule: pool_Submit_cases)
  case no_worker
  with assms(1) show ?thesis by simp
next
  case (run i start r busy)
  let ?P = "\<lambda>wk. t < now wk"
  from length_filter_update [OF run(2), of ?P "busy\<lparr>now := max start (now busy)\<rparr>"]
  have b: "busy_workers t p' + (if t < now (workers p ! i) then 1 else 0) =
           busy_workers t p + (if t < max start (now busy) then 1 else 0)"
    by (simp add: busy_workers_def run(7))
  have f: "length (in_flight t p') =
           length (in_flight t p) + (if start \<le> t \<and> t < now busy then 1 else 0)"
    by (simp add: in_flight_def run(8))
  from b f assms(1) run(3) show ?thesis
    by (auto split: if_splits)
qed

lemma busy_workers_le: "busy_workers t p \<le> length (workers p)"
  by (simp add: busy_workers_def)


lemma submitLoop_world:
  "submitLoop env ctx sch request rspTyp maxt peers n w pl = (chs, w', pl') \<Longrightarrow>
     length chs = length (filter (isPeerAcceptable env) peers) \<and>
     now w' = now w \<and>
     (\<exists>es. trace w' = trace w @ es \<and>
           pool_calls_of es = map PoolSubmit (filter (isPeerAcceptable env) peers) \<and>
           pace es = [] \<and> tried es = [])"
proof (induction peers arbitrary: n w pl chs w' pl')
  case Nil
  then show ?case by simp
next
  case (Cons p peers)
  show ?case
  proof (cases "isPeerAcceptable env p")
    case False
    with Cons.prems have "submitLoop env ctx sch request rspTyp maxt peers n w pl = (chs, w', pl')"
      by simp
    from Cons.IH [OF this] False show ?thesis by simp
  next
    case True
    obtain ch pl1 where t: "pool_Submit sch n (now w)
        (task env ctx request rspTyp maxt (peer_read (late sch n) p peers)) pl = (ch, pl1)"
      by (rule prod.exhaust)
    obtain chs1 w1 pl2 where s: "submitLoop env ctx sch request rspTyp maxt peers (Suc n)
        (emit (Pool (PoolSubmit p)) w) pl1 = (chs1, w1, pl2)"
      by (rule prod_cases3)
    from Cons.prems True t s have r: "chs = ch # chs1" "w' = w1" "pl' = pl2"
      by simp_all
    from Cons.IH [OF s] obtain es where
      es: "length chs1 = length (filter (isPeerAcceptable env) peers)"
        "now w1 = now w"
        "trace w1 = trace (emit (Pool (PoolSubmit p)) w) @ es"
        "pool_calls_of es = map PoolSubmit (filter (isPeerAcceptable env) peers)"
        "pace es = []" "tried es = []"
      by auto
    show ?thesis
      apply (intro conjI)
      subgoal using r es(1) True by simp
      subgoal using r es(2) by simp
      subgoal
        apply (rule exI [of _ "(now w, Pool (PoolSubmit p)) # es"])
        using r es True apply simp
        done
      done
  qed
qed

lemma submitLoop_pool:
  "submitLoop env ctx sch request rspTyp maxt peers n w pl = (chs, w', pl') \<Longrightarrow>
     length (workers pl') = length (workers pl) \<and>
     (workers pl \<noteq> [] \<longrightarrow> (\<forall>ch \<in> set chs. ch \<noteq> None)) \<and>
     (workers pl = [] \<longrightarrow> pl' = pl) \<and>
     (\<exists>new. runs pl' = runs pl @ new \<and>
        (workers pl \<noteq> [] \<longrightarrow> map (\<lambda>(i, start, fin). Some fin) new = map (map_option snd) chs) \<and>
        (\<forall>(i, start, fin) \<in> set new. i < length (workers pl))) \<and>
     (length (in_flight t pl) \<le> busy_workers t pl \<longrightarrow>
        length (in_flight t pl') \<le> busy_workers t pl')"
proof (induction peers arbitrary: n w pl chs w' pl')
  case Nil
  then show ?case by simp
next
  case (Cons p peers)
  show ?case
  proof (cases "isPeerAcceptable env p")
    case False
    with Cons.prems have "submitLoop env ctx sch request rspTyp maxt peers n w pl = (chs, w', pl')"
      by simp
    from Cons.IH [OF this] show ?thesis .
  next
    case True
    obtain ch pl1 where t: "pool_Submit sch n (now w)
        (task env ctx request rspTyp maxt (peer_read (late sch n) p peers)) pl = (ch, pl1)"
      by (rule prod.exhaust)
    obtain chs1 w1 pl2 where s: "submitLoop env ctx sch request rspTyp maxt peers (Suc n)
        (emit (Pool (PoolSubmit p)) w) pl1 = (chs1, w1, pl2)"
      by (rule prod_cases3)
    from Cons.prems True t s have r: "chs = ch # chs1" "w' = w1" "pl' = pl2"
      by simp_all
    from Cons.IH [OF s] obtain new where
      ih: "length (workers pl2) = length (workers pl1)"
        "workers pl1 \<noteq> [] \<longrightarrow> (\<forall>ch \<in> set chs1. ch \<noteq> None)"
        "workers pl1 = [] \<longrightarrow> pl2 = pl1"
        "runs pl2 = runs pl1 @ new"
        "workers pl1 \<noteq> [] \<longrightarrow> map (\<lambda>(i, start, fin). Some fin) new = map (map_option snd) chs1"
        "\<forall>(i, start, fin) \<in> set new. i < length (workers pl1)"
        "length (in_flight t pl1) \<le> busy_workers t pl1 \<longrightarrow>
           length (in_flight t pl2) \<le> busy_workers t pl2"
      by (elim exE conjE)
    note b = pool_Submit_bound [OF _ t, of t]
    from t show ?thesis
    proof (cases rule: pool_Submit_cases)
      case no_worker
      show ?thesis
        apply (intro conjI)
        subgoal using ih(1) no_worker r by simp
        subgoal using no_worker by simp
        subgoal using ih(3) no_worker r by simp
        subgoal
          apply (rule exI [of _ "[]"])
          using ih(3) no_worker r apply simp
          done
        subgoal using ih(3) no_worker r by simp
        done
    next
      case (run i start res busy)
      have l: "length (workers pl1) = length (workers pl)"
        using run(7) by simp
      with run(1) have ne: "workers pl1 \<noteq> []" by auto
      show ?thesis
        apply (intro conjI)
        subgoal using ih(1) l r by simp
        subgoal using ih(2) ne r run(6) by simp
        subgoal using run(1) by simp
        subgoal
          apply (rule exI [of _ "(i, start, now busy) # new"])
          apply (intro conjI)
          subgoal using ih(4) r run(8) by simp
          subgoal using ih(5) ne r run(6) by simp
          subgoal using ih(6) l run(2) by auto
          done
        subgoal using ih(7) b r by blast
        done
    qed
  qed
qed

lemma submitAll_result:
  assumes "submitAll env ctx sch method body rspTyp maxt k w = (chs, w2, pl)"
  shows "length chs = length (accepted_peers env method k w)"
    and "now w2 = now w"
    and "\<exists>es. trace w2 = trace w @ (now w, Log (LogCallMultiple method)) # (now w, Pool PoolNew) #
            (now w, Pool (PoolResize k)) #
            (now w, Mgr (GetBestPeers (mgr_GetBestPeers env
               (emit (Pool (PoolResize k)) (emit (Pool PoolNew)
                  (emit (Log (LogCallMultiple method)) w)))))) # es \<and>
            pool_calls_of es = map PoolSubmit (accepted_peers env method k w)"
    and "length (workers pl) = k"
    and "0 < k \<longrightarrow> (\<forall>ch \<in> set chs. ch \<noteq> None)"
    and "k = 0 \<longrightarrow> runs pl = []"
    and "0 < k \<longrightarrow> map (\<lambda>(i, start, fin). Some fin) (runs pl) = map (map_option snd) chs"
    and "\<forall>(i, start, fin) \<in> set (runs pl). i < k"
    and "length (in_flight t pl) \<le> k"
proof -
  let ?w1 = "emit (Pool (PoolResize k)) (emit (Pool PoolNew) (emit (Log (LogCallMultiple method)) w))"
  let ?peers = "mgr_GetBestPeers env ?w1"
  let ?w1' = "emit (Mgr (GetBestPeers ?peers)) ?w1"
  let ?request = "\<lparr>Method = method, Body = cbor_Marshal env body\<rparr>"
  let ?pl0 = "pool_Resize k (now w) pool_New"
  from assms have s: "submitLoop env ctx sch ?request rspTyp maxt ?peers 0 ?w1' ?pl0 = (chs, w2, pl)"
    by (simp add: submitAll_def Let_def)
  have w0: "length (workers ?pl0) = k" "runs ?pl0 = []"
    by (simp_all add: pool_Resize_def pool_New_def)
  have ne: "workers ?pl0 \<noteq> [] \<longleftrightarrow> 0 < k"
    by (simp add: pool_Resize_def pool_New_def)
  have inv0: "length (in_flight t ?pl0) \<le> busy_workers t ?pl0"
    by (simp add: in_flight_def w0(2))
  from submitLoop_world [OF s] obtain es where
    W: "length chs = length (filter (isPeerAcceptable env) ?peers)"
       "now w2 = now ?w1'"
       "trace w2 = trace ?w1' @ es"
       "pool_calls_of es = map PoolSubmit (filter (isPeerAcceptable env) ?peers)"
    by (elim exE conjE)
  from submitLoop_pool [OF s, of t] obtain new where
    P: "length (workers pl) = length (workers ?pl0)"
       "workers ?pl0 \<noteq> [] \<longrightarrow> (\<forall>ch \<in> set chs. ch \<noteq> None)"
       "workers ?pl0 = [] \<longrightarrow> pl = ?pl0"
       "runs pl = runs ?pl0 @ new"
       "workers ?pl0 \<noteq> [] \<longrightarrow> map (\<lambda>(i, start, fin). Some fin) new = map (map_option snd) chs"
       "\<forall>(i, start, fin) \<in> set new. i < length (workers ?pl0)"
       "length (in_flight t ?pl0) \<le> busy_workers t ?pl0 \<longrightarrow>
          length (in_flight t pl) \<le> busy_workers t pl"
    by (elim exE conjE)
  show "length chs = length (accepted_peers env method k w)"
    using W(1) by (simp add: accepted_peers_def)
  show "now w2 = now w"
    using W(2) by simp
  show "\<exists>es. trace w2 = trace w @ (now w, Log (LogCallMultiple method)) # (now w, Pool PoolNew) #
            (now w, Pool (PoolResize k)) # (now w, Mgr (GetBestPeers ?peers)) # es \<and>
            pool_calls_of es = map PoolSubmit (accepted_peers env method k w)"
    by (rule exI [of _ es]) (simp add: W(3) W(4) accepted_peers_def)
  show "length (workers pl) = k"
    using P(1) w0(1) by simp
  show "0 < k \<longrightarrow> (\<forall>ch \<in> set chs. ch \<noteq> None)"
    using P(2) ne by simp
  show "k = 0 \<longrightarrow> runs pl = []"
    using P(3) ne w0(2) by auto
  show "0 < k \<longrightarrow> map (\<lambda>(i, start, fin). Some fin) (runs pl) = map (map_option snd) chs"
    using P(4) P(5) ne w0(2) by simp
  show "\<forall>(i, start, fin) \<in> set (runs pl). i < k"
    using P(4) P(6) w0 by simp
  from P(7) inv0 have "length (in_flight t pl) \<le> busy_workers t pl"
    by simp
  also have "\<dots> \<le> length (workers pl)"
    by (rule busy_workers_le)
  finally show "length (in_flight t pl) \<le> k"
    using P(1) w0(1) by simp
qed

lemma CallMulti_summary:
  assumes "CallMulti env ctx sch method body rspTyp maxt k w = Some (rsps, pfs, err, w', pl)"
  shows "pl = pool_used env ctx sch method body rspTyp maxt k w"
    and "pool_calls_of (new_events w w') =
           PoolNew # PoolResize k # map PoolSubmit (accepted_peers env method k w) @ [PoolStop]"
    and "if cancel_observed env ctx sch method body rspTyp maxt k w
          then rsps = [] \<and> pfs = [] \<and> err = Some (done_err ctx)
          else rsps = map res_rsp (filter succeeded
                  (sent (result_channels env ctx sch method body rspTyp maxt k w))) \<and>
               pfs = map res_pf (filter succeeded
                  (sent (result_channels env ctx sch method body rspTyp maxt k w))) \<and>
               err = None \<and>
               length (sent (result_channels env ctx sch method body rspTyp maxt k w)) =
                 length (accepted_peers env method k w)"
proof -
  obtain chs w2 pl2 where s: "submitAll env ctx sch method body rspTyp maxt k w = (chs, w2, pl2)"
    by (rule prod_cases3)
  from assms s obtain w3 where
    g: "gather ctx sch 0 chs ([], [], w2) = Some (rsps, pfs, err, w3)" and
    r: "w' = emit (Pool PoolStop) w3" "pl = pl2"
    by (auto simp add: CallMulti_def split: option.splits)
  have rc: "result_channels env ctx sch method body rspTyp maxt k w = chs"
    and pu: "pool_used env ctx sch method body rspTyp maxt k w = pl2"
    using s by (simp_all add: result_channels_def pool_used_def)
  from submitAll_result(1-3) [OF s] obtain es where
    len: "length chs = length (accepted_peers env method k w)" and
    n2: "now w2 = now w" and
    es: "trace w2 = trace w @ (now w, Log (LogCallMultiple method)) # (now w, Pool PoolNew) #
            (now w, Pool (PoolResize k)) #
            (now w, Mgr (GetBestPeers (mgr_GetBestPeers env
               (emit (Pool (PoolResize k)) (emit (Pool PoolNew)
                  (emit (Log (LogCallMultiple method)) w)))))) # es"
        "pool_calls_of es = map PoolSubmit (accepted_peers env method k w)"
    by (elim exE conjE)
  from gather_result [OF g] have
    t3: "trace w3 = trace w2" and
    out: "if ctx_taken ctx sch 0 (now w2) chs
      then rsps = [] \<and> pfs = [] \<and> err = Some (done_err ctx)
      else rsps = [] @ map res_rsp (filter succeeded (sent chs)) \<and>
           pfs = [] @ map res_pf (filter succeeded (sent chs)) \<and> err = None \<and>
           length (sent chs) = length chs"
    by simp_all
  show "pl = pool_used env ctx sch method body rspTyp maxt k w"
    using r(2) pu by simp
  have "new_events w w' = (now w, Log (LogCallMultiple method)) # (now w, Pool PoolNew) #
            (now w, Pool (PoolResize k)) #
            (now w, Mgr (GetBestPeers (mgr_GetBestPeers env
               (emit (Pool (PoolResize k)) (emit (Pool PoolNew)
                  (emit (Log (LogCallMultiple method)) w)))))) # es @ [(now w3, Pool PoolStop)]"
    using r(1) t3 es(1) by (simp add: new_events_def)
  then show "pool_calls_of (new_events w w') =
           PoolNew # PoolResize k # map PoolSubmit (accepted_peers env method k w) @ [PoolStop]"
    using es(2) by simp
  have co: "cancel_observed env ctx sch method body rspTyp maxt k w = ctx_taken ctx sch 0 (now w2) chs"
    by (simp add: cancel_observed_def rc n2)
  show "if cancel_observed env ctx sch method body rspTyp maxt k w
          then rsps = [] \<and> pfs = [] \<and> err = Some (done_err ctx)
          else rsps = map res_rsp (filter succeeded
                  (sent (result_channels env ctx sch method body rspTyp maxt k w))) \<and>
               pfs = map res_pf (filter succeeded
                  (sent (result_channels env ctx sch method body rspTyp maxt k w))) \<and>
               err = None \<and>
               length (sent (result_channels env ctx sch method body rspTyp maxt k w)) =
                 length (accepted_peers env method k w)"
    unfolding co rc using out len by simp
qed

lemma CallMulti_returns:
  assumes "0 < k \<or> done_at ctx \<noteq> None"
  shows "CallMulti env ctx sch method body rspTyp maxt k w \<noteq> None"
proof -
  obtain chs w2 pl2 where s: "submitAll env ctx sch method body rspTyp maxt k w = (chs, w2, pl2)"
    by (rule prod_cases3)
  from submitAll_result(5) [OF s] assms
  have "(\<forall>ch \<in> set chs. ch \<noteq> None) \<or> done_at ctx \<noteq> None"
    by blast
  from gather_returns [OF this, of sch 0 "[]" "[]" w2] s show ?thesis
    by (auto simp add: CallMulti_def split: option.splits)
qed

lemmas multi_defs = demo_multi_def demo_schedule_def late_schedule_def CallMulti_def submitAll_def
  pool_New_def pool_Resize_def pool_Submit_def task_def peer_read_def select_ctx_or_chan_def
  accepted_peers_def succeeded_def cancel_observed_def result_channels_def pool_used_def
  returned_def in_flight_def numeral_2_eq_2

text \<open>
  C1, as the code has it, for a pool of at least one worker. \<^verbatim>\<open>CallMulti\<close> returns.
  As soon as one select of the gathering loop takes \<^verbatim>\<open>ctx.Done()\<close>, it returns no
  responses, no handles and the error of the context, whatever it had gathered
  before. When no select takes it, every channel was received from, the error is nil
  and the responses and handles of the successful tasks are returned. A context that
  is never done is never taken.
\<close>

theorem CallMulti_cancellation:
  "(0 < k \<longrightarrow>
      CallMulti env ctx sch method body rspTyp maxt k w \<noteq> None \<and>
      (\<forall>rsps pfs err w' pl.
         CallMulti env ctx sch method body rspTyp maxt k w = Some (rsps, pfs, err, w', pl) \<longrightarrow>
         (cancel_observed env ctx sch method body rspTyp maxt k w \<longrightarrow>
            rsps = [] \<and> pfs = [] \<and> err = Some (done_err ctx)) \<and>
         (\<not> cancel_observed env ctx sch method body rspTyp maxt k w \<longrightarrow>
            err = None \<and>
            rsps = map res_rsp (filter succeeded
                     (sent (result_channels env ctx sch method body rspTyp maxt k w))) \<and>
            pfs = map res_pf (filter succeeded
                     (sent (result_channels env ctx sch method body rspTyp maxt k w))) \<and>
            length (sent (result_channels env ctx sch method body rspTyp maxt k w)) =
              length (accepted_peers env method k w)))) \<and>
   (done_at ctx = None \<longrightarrow> \<not> cancel_observed env ctx sch method body rspTyp maxt k w)"
proof (intro conjI allI impI)
  assume "0 < k"
  then show "CallMulti env ctx sch method body rspTyp maxt k w \<noteq> None"
    by (intro CallMulti_returns disjI1)
next
  fix rsps pfs err w' pl
  assume a: "CallMulti env ctx sch method body rspTyp maxt k w = Some (rsps, pfs, err, w', pl)"
  note S = CallMulti_summary(3) [OF a]
  {
    assume c: "cancel_observed env ctx sch method body rspTyp maxt k w"
    from S c show "rsps = []" "pfs = []" "err = Some (done_err ctx)" by simp_all
  }
  {
    assume c: "\<not> cancel_observed env ctx sch method body rspTyp maxt k w"
    from S c show "err = None"
      "rsps = map res_rsp (filter succeeded
                  (sent (result_channels env ctx sch method body rspTyp maxt k w)))"
      "pfs = map res_pf (filter succeeded
                  (sent (result_channels env ctx sch method body rspTyp maxt k w)))"
      "length (sent (result_channels env ctx sch method body rspTyp maxt k w)) =
           length (accepted_peers env method k w)"
      by simp_all
  }
next
  assume "done_at ctx = None"
  then show "\<not> cancel_observed env ctx sch method body rspTyp maxt k w"
    unfolding cancel_observed_def by (rule ctx_taken_never_done)
qed

theorem CallMulti_cancellation_witness:
  "cancel_observed (demo_env [''B'', ''E'']) (canceled_at 2000000000) demo_schedule ''echo''
     [7, 8] [] Second 2 world0 \<and>
   returned (demo_multi [''B'', ''E''] (canceled_at 2000000000) demo_schedule 2) =
     Some ([], [], Some Canceled) \<and>
   \<not> cancel_observed (demo_env [''B'', ''E'']) never_done demo_schedule ''echo''
     [7, 8] [] Second 2 world0 \<and>
   returned (demo_multi [''B'', ''E''] never_done demo_schedule 2) =
     Some ([Some [7, 8]], [Some \<lparr>peerID = ''B'', latency = 1000000000\<rparr>], None)"
proof -
  have k: "0 < (2 :: nat)" by simp
  note T1 = CallMulti_cancellation [of 2 "demo_env [''B'', ''E'']" "canceled_at 2000000000"
      demo_schedule "''echo''" "[7, 8]" "[]" Second world0]
  note U1 = T1 [THEN conjunct1, rule_format, OF k]
  from U1 [THEN conjunct1] obtain rsps pfs err w' pl where
    a: "CallMulti (demo_env [''B'', ''E'']) (canceled_at 2000000000) demo_schedule ''echo'' [7, 8] []
          Second 2 world0 = Some (rsps, pfs, err, w', pl)"
    by auto
  have co: "cancel_observed (demo_env [''B'', ''E'']) (canceled_at 2000000000) demo_schedule ''echo''
     [7, 8] [] Second 2 world0"
    by (simp add: multi_defs demo_defs)
  from U1 [THEN conjunct2, rule_format, OF a, THEN conjunct1, rule_format, OF co]
  have A: "rsps = [] \<and> pfs = [] \<and> err = Some Canceled"
    by (simp add: canceled_at_def)
  note T2 = CallMulti_cancellation [of 2 "demo_env [''B'', ''E'']" never_done
      demo_schedule "''echo''" "[7, 8]" "[]" Second world0]
  note U2 = T2 [THEN conjunct1, rule_format, OF k]
  have nd: "done_at never_done = None" by (simp add: never_done_def)
  from T2 [THEN conjunct2, rule_format, OF nd]
  have nco: "\<not> cancel_observed (demo_env [''B'', ''E'']) never_done demo_schedule ''echo''
     [7, 8] [] Second 2 world0" .
  from U2 [THEN conjunct1] obtain rsps2 pfs2 err2 w2 pl2 where
    b: "CallMulti (demo_env [''B'', ''E'']) never_done demo_schedule ''echo'' [7, 8] []
          Second 2 world0 = Some (rsps2, pfs2, err2, w2, pl2)"
    by auto
  from U2 [THEN conjunct2, rule_format, OF b, THEN conjunct2, rule_format, OF nco]
  have B: "err2 = None" by simp
  have v: "rsps2 = [Some [7, 8]]" "pfs2 = [Some \<lparr>peerID = ''B'', latency = 1000000000\<rparr>]"
    using b by (auto simp add: multi_defs demo_defs)
  show ?thesis
    unfolding demo_multi_def a b returned_def using co nco A B v by simp
qed

text \<open>
  The claim returns the results gathered so far, with no error, when the context is
  cancelled after some arrived. Peer \<open>B\<close> answers after one second and the caller
  receives that; the context is cancelled after two seconds, while the caller waits
  for \<open>E\<close>, which fails after three. The call returns nothing but the cancellation.
\<close>

theorem CallMulti_cancel_discards_results:
  "map (map_option snd) (result_channels (demo_env [''B'', ''E'']) (canceled_at 2000000000)
      demo_schedule ''echo'' [7, 8] [] Second 2 world0) = [Some 1000000000, Some 3000000000] \<and>
   map res_rsp (sent (result_channels (demo_env [''B'', ''E'']) (canceled_at 2000000000)
      demo_schedule ''echo'' [7, 8] [] Second 2 world0)) = [Some [7, 8], Some []] \<and>
   map res_err (sent (result_channels (demo_env [''B'', ''E'']) (canceled_at 2000000000)
      demo_schedule ''echo'' [7, 8] [] Second 2 world0)) =
     [None, Some (Wrapf ''failed to read response'' DeadlineExceeded)] \<and>
   select_ctx_or_chan (canceled_at 2000000000) False 0 1000000000 = (False, 1000000000) \<and>
   returned (demo_multi [''B'', ''E''] (canceled_at 2000000000) demo_schedule 2) =
     Some ([], [], Some Canceled)"
  by (simp add: multi_defs demo_defs)

text \<open>
  C8, where the code departs from it. The ranking is \<open>B\<close>, \<open>X\<close>, and the filter
  rejects \<open>X\<close>: one job is submitted, in the iteration of \<open>B\<close>. When its worker runs
  it while the loop is still at \<open>B\<close>, the attempt is made on \<open>B\<close>. When the worker
  runs it after the loop has gone on, the variable \<^verbatim>\<open>peer\<close> holds \<open>X\<close>: the one
  attempt is made on \<open>X\<close>, which the filter rejected, and the handle returned is
  bound to \<open>X\<close>; no attempt is made on \<open>B\<close>.
\<close>

theorem CallMulti_task_reads_later_peer:
  "accepted_peers (demo_env [''B'', ''X'']) ''echo'' 2 world0 = [''B''] \<and>
   \<not> isPeerAcceptable (demo_env [''B'', ''X'']) ''X'' \<and>
   returned (demo_multi [''B'', ''X''] never_done demo_schedule 2) =
     Some ([Some [7, 8]], [Some \<lparr>peerID = ''B'', latency = 1000000000\<rparr>], None) \<and>
   returned (demo_multi [''B'', ''X''] never_done late_schedule 2) =
     Some ([Some [7, 8]], [Some \<lparr>peerID = ''X'', latency = 1000000000\<rparr>], None) \<and>
   attempted (pool_used (demo_env [''B'', ''X'']) never_done demo_schedule ''echo'' [7, 8] []
     Second 2 world0) = [''B''] \<and>
   attempted (pool_used (demo_env [''B'', ''X'']) never_done late_schedule ''echo'' [7, 8] []
     Second 2 world0) = [''X'']"
  by (simp add: multi_defs demo_defs attempted_def)

text \<open>
  C9. The jobs of a \<^verbatim>\<open>CallMulti\<close> run on the pool it makes, of \<open>maxParallelRequests\<close>
  workers: every job on one of these workers, and at every instant at most
  \<open>maxParallelRequests\<close> of the jobs are in flight, however many peers are accepted
  and however the jobs are scheduled. With at least one worker there is one run for
  every accepted peer, the channels carry what the runs return, at the instants they
  end, and the calls \<^verbatim>\<open>CallMulti\<close> makes on the pool are: make it, resize it to
  \<open>maxParallelRequests\<close>, submit one job for every accepted peer, stop it.
\<close>

theorem CallMulti_pool_bounded:
  "(\<forall>t. length (in_flight t (pool_used env ctx sch method body rspTyp maxt k w)) \<le> k) \<and>
   length (workers (pool_used env ctx sch method body rspTyp maxt k w)) = k \<and>
   (\<forall>(i, start, fin) \<in> set (runs (pool_used env ctx sch method body rspTyp maxt k w)). i < k) \<and>
   (0 < k \<longrightarrow>
      map (\<lambda>(i, start, fin). Some fin) (runs (pool_used env ctx sch method body rspTyp maxt k w)) =
        map (map_option snd) (result_channels env ctx sch method body rspTyp maxt k w) \<and>
      length (runs (pool_used env ctx sch method body rspTyp maxt k w)) =
        length (accepted_peers env method k w) \<and>
      (\<forall>rsps pfs err w' pl.
         CallMulti env ctx sch method body rspTyp maxt k w = Some (rsps, pfs, err, w', pl) \<longrightarrow>
         pl = pool_used env ctx sch method body rspTyp maxt k w \<and>
         pool_calls_of (new_events w w') =
           PoolNew # PoolResize k # map PoolSubmit (accepted_peers env method k w) @ [PoolStop]))"
proof -
  obtain chs w2 pl2 where s: "submitAll env ctx sch method body rspTyp maxt k w = (chs, w2, pl2)"
    by (rule prod_cases3)
  have rc: "result_channels env ctx sch method body rspTyp maxt k w = chs"
    and pu: "pool_used env ctx sch method body rspTyp maxt k w = pl2"
    using s by (simp_all add: result_channels_def pool_used_def)
  note R = submitAll_result [OF s]
  have m: "0 < k \<longrightarrow> map (\<lambda>(i, start, fin). Some fin) (runs pl2) = map (map_option snd) chs"
    by (rule R(7))
  have l: "0 < k \<longrightarrow> length (runs pl2) = length (accepted_peers env method k w)"
  proof
    assume "0 < k"
    with m have "length (map (\<lambda>(i, start, fin). Some fin) (runs pl2)) =
        length (map (map_option snd) chs)"
      by simp
    with R(1) show "length (runs pl2) = length (accepted_peers env method k w)"
      by simp
  qed
  show ?thesis
    unfolding rc pu
    apply (intro conjI allI impI)
    subgoal by (rule R(9))
    subgoal by (rule R(4))
    subgoal by (rule R(8))
    subgoal using m by simp
    subgoal using l by simp
    subgoal premises p for rsps pfs err w' pl
      using CallMulti_summary(1) [OF p(2)] pu by simp
    subgoal for rsps pfs err w' pl by (rule CallMulti_summary(2))
    done
qed

theorem CallMulti_pool_bounded_witness:
  "runs (pool_used (demo_env [''A'', ''B'', ''C'']) never_done demo_schedule ''echo'' [7, 8] []
      Second 2 world0) =
     [(0, 0, 2000000000), (1, 0, 1000000000), (0, 2000000000, 3000000000)] \<and>
   in_flight 500000000 (pool_used (demo_env [''A'', ''B'', ''C'']) never_done demo_schedule ''echo''
      [7, 8] [] Second 2 world0) = [(0, 0, 2000000000), (1, 0, 1000000000)] \<and>
   length (in_flight 500000000 (pool_used (demo_env [''A'', ''B'', ''C'']) never_done demo_schedule
      ''echo'' [7, 8] [] Second 2 world0)) \<le> 2 \<and>
   pool_calls_made world0 (demo_multi [''A'', ''B'', ''C''] never_done demo_schedule 2) =
     Some [PoolNew, PoolResize 2, PoolSubmit ''A'', PoolSubmit ''B'', PoolSubmit ''C'', PoolStop]"
proof -
  have k: "0 < (2 :: nat)" by simp
  note T = CallMulti_pool_bounded [of "demo_env [''A'', ''B'', ''C'']" never_done demo_schedule
      "''echo''" "[7, 8]" "[]" Second 2 world0]
  have r: "runs (pool_used (demo_env [''A'', ''B'', ''C'']) never_done demo_schedule ''echo'' [7, 8] []
      Second 2 world0) =
     [(0, 0, 2000000000), (1, 0, 1000000000), (0, 2000000000, 3000000000)]"
    by (simp add: multi_defs demo_defs)
  have f: "in_flight 500000000 (pool_used (demo_env [''A'', ''B'', ''C'']) never_done demo_schedule ''echo''
      [7, 8] [] Second 2 world0) = [(0, 0, 2000000000), (1, 0, 1000000000)]"
    unfolding in_flight_def r by simp
  have b: "length (in_flight 500000000 (pool_used (demo_env [''A'', ''B'', ''C'']) never_done demo_schedule
      ''echo'' [7, 8] [] Second 2 world0)) \<le> 2"
    by (rule T [THEN conjunct1, THEN spec])
  obtain rsps pfs err w' pl where
    a: "CallMulti (demo_env [''A'', ''B'', ''C'']) never_done demo_schedule ''echo'' [7, 8] []
          Second 2 world0 = Some (rsps, pfs, err, w', pl)"
    using CallMulti_returns [of 2 never_done "demo_env [''A'', ''B'', ''C'']" demo_schedule
        "''echo''" "[7, 8]" "[]" Second world0]
    by auto
  have acc: "accepted_peers (demo_env [''A'', ''B'', ''C'']) ''echo'' 2 world0 = [''A'', ''B'', ''C'']"
    by (simp add: accepted_peers_def demo_env_def isPeerAcceptable_def)
  from T [THEN conjunct2, THEN conjunct2, THEN conjunct2, rule_format, OF k, THEN conjunct2,
      THEN conjunct2, rule_format, OF a]
  have c: "pool_calls_of (new_events world0 w') =
        [PoolNew, PoolResize 2, PoolSubmit ''A'', PoolSubmit ''B'', PoolSubmit ''C'', PoolStop]"
    unfolding acc by simp
  show ?thesis
    apply (intro conjI)
    subgoal by (rule r)
    subgoal by (rule f)
    subgoal by (rule b)
    subgoal using a c by (simp add: demo_multi_def pool_calls_made_def)
    done
qed

end
